(* ===== verification/Prelude.thy ===== *)
theory Prelude
  imports Main "HOL-Library.Word" "HOL-Library.AList" "HOL-Library.Sublist"
begin

text \<open>
  Shared vocabulary of the phirepass model: machine integers and identifiers, the
  result of a Rust call (value, error value or panic), the fragment of the standard
  string library the sources use, the \<open>DashMap\<close> registries and the bounded
  \<open>mpsc\<close> channels. Nothing here is specific to one component.
\<close>

section \<open>Names of the model's types\<close>

type_synonym u8 = "8 word"
type_synonym u16 = "16 word"
type_synonym u32 = "32 word"
type_synonym u64 = "64 word"
type_synonym bytes = "u8 list"

text \<open>
  A UUID is its 128 bits; \<open>Uuid::nil()\<close> is 0. IEEE floats that are only carried
  around are their bit patterns. A \<open>SystemTime\<close> or \<open>DateTime<Utc>\<close> is an instant
  in nanoseconds since the epoch; the clock is an argument \<open>now\<close> of whatever reads it.
\<close>

type_synonym uuid = "128 word"
type_synonym f32 = "32 word"
type_synonym f64 = "64 word"
type_synonym instant = int
type_synonym msg_id = "u32 option"

abbreviation uuid_nil :: uuid where
  "uuid_nil \<equiv> 0"

definition nanos_per_sec :: int where
  "nanos_per_sec = 1000000000"

text \<open>
  \<open>now_millis\<close> (\<open>common/src/time.rs\<close>): \<open>as u64\<close> truncates; a clock before the epoch gives 0.
\<close>

definition now_millis :: "instant \<Rightarrow> u64" where
  "now_millis now = (if 0 \<le> now then word_of_int (now div 1000000) else 0)"

text \<open>
  What a websocket stream yields: a binary message, a close message, any other message
  (text, ping, pong) or a transport error. The end of the list is the end of the stream.
\<close>

datatype ws_event = WsBinary bytes | WsClose | WsOther | WsError

text \<open>\<open>SystemTime::duration_since\<close>: an error when the other instant lies in the future.\<close>

definition duration_since :: "instant \<Rightarrow> instant \<Rightarrow> int option" where
  "duration_since now earlier = (if earlier \<le> now then Some (now - earlier) else None)"

section \<open>Collections of rewrite rules\<close>

named_theorems dm_simps \<open>lookups in a registry after an update\<close>
named_theorems chan_simps \<open>contents of a channel after a send\<close>
named_theorems str_simps \<open>the string functions on literals\<close>

section \<open>Outcomes of a call\<close>

text \<open>
  A fallible Rust function returns \<open>Ok\<close> or \<open>Err\<close>; a panic is a third outcome. The
  release profile sets \<open>panic = "abort"\<close>, so a panic ends the process.
\<close>

datatype ('e, 'a) outcome = Ok 'a | Err 'e | Panic

fun is_ok :: "('e, 'a) outcome \<Rightarrow> bool" where
  "is_ok (Ok _) = True"
| "is_ok (Err _) = False"
| "is_ok Panic = False"

lemma is_ok_conv: "is_ok r \<longleftrightarrow> (\<exists>a. r = Ok a)"
  by (cases r) auto

section \<open>Integers\<close>

definition saturating_sub :: "'a::len word \<Rightarrow> 'a word \<Rightarrow> 'a word" where
  "saturating_sub a b = (if a < b then 0 else a - b)"

lemma unat_saturating_sub: "unat (saturating_sub a b) = unat a - unat b"
  by (auto simp: saturating_sub_def word_less_nat_alt unat_sub_if')

text \<open>\<open>u32::to_be_bytes\<close> and \<open>u32::from_be_bytes\<close>.\<close>

definition u32_to_be :: "u32 \<Rightarrow> bytes" where
  "u32_to_be w =
     [ucast (drop_bit 24 w), ucast (drop_bit 16 w), ucast (drop_bit 8 w), ucast w]"

definition u32_from_be :: "u8 \<Rightarrow> u8 \<Rightarrow> u8 \<Rightarrow> u8 \<Rightarrow> u32" where
  "u32_from_be a b c d =
     push_bit 24 (ucast a) + push_bit 16 (ucast b) + push_bit 8 (ucast c) + ucast d"

lemma length_u32_to_be [simp]: "length (u32_to_be w) = 4"
  by (simp add: u32_to_be_def)

lemma unat_u32_from_be:
  "unat (u32_from_be a b c d) = unat a * 2 ^ 24 + unat b * 2 ^ 16 + unat c * 2 ^ 8 + unat d"
proof -
  have bounds: "unat a < 256" "unat b < 256" "unat c < 256" "unat d < 256"
    using unsigned_less [of a] unsigned_less [of b] unsigned_less [of c] unsigned_less [of d]
    by simp_all
  let ?n = "unat a * 2 ^ 24 + unat b * 2 ^ 16 + unat c * 2 ^ 8 + unat d"
  have n: "?n < 2 ^ 32"
    using bounds by simp
  have "u32_from_be a b c d = word_of_nat ?n"
    by (simp add: u32_from_be_def push_bit_eq_mult unsigned_ucast_eq mult.commute)
  then have "unat (u32_from_be a b c d) = unat (word_of_nat ?n :: u32)"
    by (rule arg_cong)
  also have "\<dots> = ?n"
    using n by (simp only: unsigned_of_nat take_bit_nat_eq_self len_num1 len_bit0 len_num0)
      (simp add: take_bit_nat_eq_self)
  finally show ?thesis .
qed

lemma four_bytes_of_nat:
  "(n div 16777216) * 16777216 + (n div 65536 mod 256) * 65536
     + (n div 256 mod 256) * 256 + n mod 256 = (n::nat)"
proof -
  define a where "a = n div 256"
  define b where "b = a div 256"
  have "n = a * 256 + n mod 256" "a = b * 256 + a mod 256" "b = b div 256 * 256 + b mod 256"
    unfolding a_def b_def by (rule div_mult_mod_eq [symmetric])+
  moreover have "n div 65536 = b" "n div 16777216 = b div 256" "n div 256 = a"
    by (simp_all add: a_def b_def div_mult2_eq [symmetric])
  ultimately show ?thesis
    by (simp only:)
qed

lemma u32_be_roundtrip:
  "u32_from_be (ucast (drop_bit 24 w)) (ucast (drop_bit 16 w)) (ucast (drop_bit 8 w)) (ucast w) = w"
    (is "?l = w")
proof -
  have "unat w < 4294967296"
    using unsigned_less [of w] by simp
  then have top: "unat w div 16777216 mod 256 = unat w div 16777216"
    by (simp add: less_mult_imp_div_less)
  have "unat ?l = unat w"
    using four_bytes_of_nat [of "unat w"] top
    by (simp add: unat_u32_from_be unsigned_ucast_eq unsigned_drop_bit_eq drop_bit_eq_div
        take_bit_eq_mod unat_div)
  then show ?thesis by (rule unsigned_word_eqI)
qed

section \<open>Strings\<close>

text \<open>
  A Rust \<open>String\<close> is modelled as a list of characters whose code points are
  U+0000 to U+00FF. \<open>char::is_whitespace\<close> on that range is the Unicode property
  White\_Space: tab to carriage return, space, U+0085 and U+00A0.
\<close>

definition is_whitespace :: "char \<Rightarrow> bool" where
  "is_whitespace c \<longleftrightarrow>
     (let n = (of_char c :: nat) in (9 \<le> n \<and> n \<le> 13) \<or> n = 32 \<or> n = 133 \<or> n = 160)"

definition trim_start :: "string \<Rightarrow> string" where
  "trim_start s = dropWhile is_whitespace s"

definition trim_end_matches :: "(char \<Rightarrow> bool) \<Rightarrow> string \<Rightarrow> string" where
  "trim_end_matches P s = rev (dropWhile P (rev s))"

definition trim_matches :: "(char \<Rightarrow> bool) \<Rightarrow> string \<Rightarrow> string" where
  "trim_matches P s = trim_end_matches P (dropWhile P s)"

definition trim :: "string \<Rightarrow> string" where
  "trim s = trim_matches is_whitespace s"

definition starts_with :: "string \<Rightarrow> string \<Rightarrow> bool" where
  "starts_with p s \<longleftrightarrow> take (length p) s = p"

definition strip_prefix :: "string \<Rightarrow> string \<Rightarrow> string option" where
  "strip_prefix p s = (if starts_with p s then Some (drop (length p) s) else None)"

definition ends_with_char :: "char \<Rightarrow> string \<Rightarrow> bool" where
  "ends_with_char c s \<longleftrightarrow> s \<noteq> [] \<and> last s = c"

text \<open>\<open>str::split_once\<close> with a pattern string: around the first occurrence.\<close>

fun split_once :: "string \<Rightarrow> string \<Rightarrow> (string \<times> string) option" where
  "split_once p [] = (if p = [] then Some ([], []) else None)"
| "split_once p (c # s) =
     (if starts_with p (c # s) then Some ([], drop (length p) (c # s))
      else map_option (\<lambda>(a, b). (c # a, b)) (split_once p s))"

text \<open>\<open>str::split\<close> with a character: always at least one piece.\<close>

fun split_on :: "char \<Rightarrow> string \<Rightarrow> string list" where
  "split_on d [] = [[]]"
| "split_on d (c # s) =
     (if c = d then [] # split_on d s
      else (case split_on d s of [] \<Rightarrow> [[c]] | w # ws \<Rightarrow> (c # w) # ws))"

fun find_map :: "('a \<Rightarrow> 'b option) \<Rightarrow> 'a list \<Rightarrow> 'b option" where
  "find_map f [] = None"
| "find_map f (x # xs) = (case f x of Some y \<Rightarrow> Some y | None \<Rightarrow> find_map f xs)"

text \<open>Decimal \<open>Display\<close> of an unsigned integer.\<close>

fun dec_digits :: "nat \<Rightarrow> string" where
  "dec_digits n =
     (if n < 10 then [char_of (48 + n)] else dec_digits (n div 10) @ [char_of (48 + n mod 10)])"

declare dec_digits.simps [simp del]

lemma strip_prefix_append [simp]: "strip_prefix p (p @ s) = Some s"
  by (simp add: strip_prefix_def starts_with_def)

lemma strip_prefix_Some: "strip_prefix p s = Some r \<longleftrightarrow> s = p @ r"
proof
  assume "strip_prefix p s = Some r"
  then have "take (length p) s = p" "r = drop (length p) s"
    by (auto simp: strip_prefix_def starts_with_def split: if_splits)
  then show "s = p @ r"
    by (metis append_take_drop_id)
qed simp

lemma starts_with_strip_prefix: "starts_with p s \<longleftrightarrow> (\<exists>r. strip_prefix p s = Some r)"
  by (simp add: strip_prefix_def)

lemma split_once_Some:
  "split_once p s = Some (a, b) \<Longrightarrow> s = a @ p @ b"
proof (induction p s arbitrary: a rule: split_once.induct)
  case (1 p)
  then show ?case by (simp split: if_splits)
next
  case (2 p c s)
  show ?case
  proof (cases "starts_with p (c # s)")
    case True
    then have "strip_prefix p (c # s) = Some b" and "a = []"
      using 2(2) by (auto simp: strip_prefix_def)
    then show ?thesis by (simp add: strip_prefix_Some)
  next
    case False
    with 2 show ?thesis by auto
  qed
qed

lemma split_once_char_append:
  "d \<notin> set a \<Longrightarrow> split_once [d] (a @ d # b) = Some (a, b)"
  by (induction a) (auto simp: starts_with_def)

lemma split_once_char_None: "split_once [d] s = None \<longleftrightarrow> d \<notin> set s"
  by (induction s) (auto simp: starts_with_def)

lemma split_once_char_first: "split_once [d] s = Some (a, b) \<Longrightarrow> d \<notin> set a"
  by (induction s arbitrary: a) (auto simp: starts_with_def split: if_splits)

lemma split_on_ne [simp]: "split_on d s \<noteq> []"
  by (induction s) (auto split: list.splits)

lemma split_on_no_sep: "w \<in> set (split_on d s) \<Longrightarrow> d \<notin> set w"
  by (induction s arbitrary: w) (auto split: list.splits if_splits)

lemma trim_end_matches_append:
  "s \<noteq> [] \<Longrightarrow> \<not> P (last s) \<Longrightarrow> (\<forall>c \<in> set ws. P c) \<Longrightarrow> trim_end_matches P (s @ ws) = s"
proof -
  assume "s \<noteq> []" "\<not> P (last s)" and ws: "\<forall>c \<in> set ws. P c"
  then obtain ys y where "s = ys @ [y]" "\<not> P y"
    by (cases s rule: rev_cases) auto
  moreover have "dropWhile P (rev ws @ zs) = dropWhile P zs" for zs
    using ws by (intro dropWhile_append2) simp
  ultimately show ?thesis
    by (simp add: trim_end_matches_def)
qed

lemma trim_matches_surround:
  assumes "s \<noteq> []" "\<not> P (hd s)" "\<not> P (last s)" "\<forall>c \<in> set l. P c" "\<forall>c \<in> set r. P c"
  shows "trim_matches P (l @ s @ r) = s"
proof -
  have "dropWhile P (l @ s @ r) = s @ r"
    using assms(1,2,4) by (cases s) (auto simp: dropWhile_append2)
  then show ?thesis
    using assms(1,3,5) by (simp add: trim_matches_def trim_end_matches_append)
qed

text \<open>Reading decimal digits back.\<close>

definition digits_value :: "string \<Rightarrow> nat" where
  "digits_value = foldl (\<lambda>n c. 10 * n + (of_char c - 48)) 0"

lemma digits_value_dec: "digits_value (dec_digits n) = n"
proof (induction n rule: dec_digits.induct)
  case (1 n)
  show ?case
  proof (cases "n < 10")
    case True
    then show ?thesis
      by (simp add: dec_digits.simps [of n] digits_value_def of_char_of)
  next
    case False
    then show ?thesis
      using 1 by (simp add: dec_digits.simps [of n] digits_value_def of_char_of)
  qed
qed

lemma dec_digits_chars: "c \<in> set (dec_digits n) \<Longrightarrow> 48 \<le> (of_char c :: nat) \<and> (of_char c :: nat) < 58"
proof (induction n rule: dec_digits.induct)
  case (1 n)
  then show ?case
    by (cases "n < 10") (auto simp: dec_digits.simps [of n] of_char_of)
qed

lemma split_on_append: "d \<notin> set a \<Longrightarrow> split_on d (a @ d # b) = a # split_on d b"
  by (induction a) (auto split: list.splits)

lemma split_on_single: "d \<notin> set a \<Longrightarrow> split_on d a = [a]"
  by (induction a) auto

section \<open>Concurrent registries\<close>

text \<open>
  A \<open>DashMap\<close> is an association list with distinct keys. Its iteration order is that
  of the list; every statement about iteration holds for every such list, so for every
  order. Single operations are atomic, as the shard locks make them.
\<close>

type_synonym ('k, 'v) dashmap = "('k \<times> 'v) list"

definition dm_get :: "('k, 'v) dashmap \<Rightarrow> 'k \<Rightarrow> 'v option" where
  "dm_get m k = map_of m k"

definition dm_insert :: "'k \<Rightarrow> 'v \<Rightarrow> ('k, 'v) dashmap \<Rightarrow> ('k, 'v) dashmap" where
  "dm_insert k v m = AList.update k v m"

definition dm_remove :: "'k \<Rightarrow> ('k, 'v) dashmap \<Rightarrow> ('k, 'v) dashmap" where
  "dm_remove k m = AList.delete k m"

definition dm_retain :: "('k \<Rightarrow> 'v \<Rightarrow> bool) \<Rightarrow> ('k, 'v) dashmap \<Rightarrow> ('k, 'v) dashmap" where
  "dm_retain P m = filter (\<lambda>(k, v). P k v) m"

definition dm_iter :: "('k, 'v) dashmap \<Rightarrow> ('k \<times> 'v) list" where
  "dm_iter m = m"

definition dm_wf :: "('k, 'v) dashmap \<Rightarrow> bool" where
  "dm_wf m \<longleftrightarrow> distinct (map fst m)"

text \<open>What every client of a registry relies on.\<close>

locale concurrent_map =
  fixes get :: "'m \<Rightarrow> 'k \<Rightarrow> 'v option"
    and insert :: "'k \<Rightarrow> 'v \<Rightarrow> 'm \<Rightarrow> 'm"
    and remove :: "'k \<Rightarrow> 'm \<Rightarrow> 'm"
    and retain :: "('k \<Rightarrow> 'v \<Rightarrow> bool) \<Rightarrow> 'm \<Rightarrow> 'm"
    and iter :: "'m \<Rightarrow> ('k \<times> 'v) list"
    and wf :: "'m \<Rightarrow> bool"
  assumes get_insert: "get (insert k v m) k' = (if k' = k then Some v else get m k')"
    and get_remove: "get (remove k m) k' = (if k' = k then None else get m k')"
    and get_retain: "wf m \<Longrightarrow> get (retain P m) k =
          (case get m k of None \<Rightarrow> None | Some v \<Rightarrow> if P k v then Some v else None)"
    and iter_get: "wf m \<Longrightarrow> (k, v) \<in> set (iter m) \<longleftrightarrow> get m k = Some v"
    and iter_distinct: "wf m \<Longrightarrow> distinct (map fst (iter m))"
    and wf_insert: "wf m \<Longrightarrow> wf (insert k v m)"
    and wf_remove: "wf m \<Longrightarrow> wf (remove k m)"
    and wf_retain: "wf m \<Longrightarrow> wf (retain P m)"
begin

lemma wf_remove_all: "wf m \<Longrightarrow> wf (fold remove ks m)"
  by (induction ks arbitrary: m) (auto intro: wf_remove)

lemma get_remove_all: "get (fold remove ks m) k = (if k \<in> set ks then None else get m k)"
  by (induction ks arbitrary: m) (auto simp: get_remove)

text \<open>
  The idiom of the sources: collect the keys of the entries that satisfy a condition,
  then remove them one by one. It is \<open>retain\<close> with the opposite condition.
\<close>

lemma collect_then_remove:
  assumes "wf m"
  shows "get (fold remove (map fst (filter (\<lambda>(k, v). P k v) (iter m))) m) k
       = get (retain (\<lambda>k v. \<not> P k v) m) k"
proof -
  have "k \<in> set (map fst (filter (\<lambda>(k, v). P k v) (iter m)))
      \<longleftrightarrow> (\<exists>v. get m k = Some v \<and> P k v)"
    using iter_get [OF assms] by (auto simp: image_iff)
  then show ?thesis
    by (auto simp: get_remove_all get_retain [OF assms] split: option.splits)
qed

end

interpretation dm: concurrent_map dm_get dm_insert dm_remove dm_retain dm_iter dm_wf
proof unfold_locales
  fix m :: "('k, 'v) dashmap" and k k' :: 'k and v :: 'v and P
  show "dm_get (dm_insert k v m) k' = (if k' = k then Some v else dm_get m k')"
    by (simp add: dm_get_def dm_insert_def update_conv')
  show "dm_get (dm_remove k m) k' = (if k' = k then None else dm_get m k')"
    by (simp add: dm_get_def dm_remove_def delete_conv')
  show "dm_wf m \<Longrightarrow> dm_wf (dm_insert k v m)"
    by (simp add: dm_wf_def dm_insert_def distinct_update)
  show "dm_wf m \<Longrightarrow> dm_wf (dm_remove k m)"
    by (simp add: dm_wf_def dm_remove_def distinct_delete)
  show "dm_wf m \<Longrightarrow> dm_wf (dm_retain P m)"
    by (simp add: dm_wf_def dm_retain_def distinct_map_filter)
  assume wf: "dm_wf m"
  then show "(k, v) \<in> set (dm_iter m) \<longleftrightarrow> dm_get m k = Some v"
    by (simp add: dm_wf_def dm_iter_def dm_get_def)
  show "distinct (map fst (dm_iter m))"
    using wf by (simp add: dm_wf_def dm_iter_def)
  show "dm_get (dm_retain P m) k =
      (case dm_get m k of None \<Rightarrow> None | Some v \<Rightarrow> if P k v then Some v else None)"
    using wf
    by (induction m)
      (auto simp: dm_wf_def dm_get_def dm_retain_def map_of_eq_None_iff split: option.splits)
qed

lemmas [dm_simps] = dm.get_insert dm.get_remove dm.get_remove_all

lemma dm_wf_Nil [simp]: "dm_wf []"
  by (simp add: dm_wf_def)

section \<open>Bounded channels\<close>

text \<open>
  A \<open>tokio::sync::mpsc\<close> channel: the frames sent and not yet received, its capacity and
  whether the receiver is gone. \<open>send(..).await\<close> fails only on a closed channel; on a
  full one it waits for the receiver, so its frame follows the queued ones. \<open>try_send\<close>
  drops the frame when the channel is full or closed. A channel is shared by all clones of
  its sender, so senders are identifiers into a store.
\<close>

record 'a chan =
  ch_queue :: "'a list"
  ch_cap :: nat
  ch_closed :: bool

type_synonym chan_id = nat
type_synonym 'a chan_store = "chan_id \<Rightarrow> 'a chan"

datatype try_send_result = Sent | Full | Closed

definition chan_new :: "nat \<Rightarrow> 'a chan" where
  "chan_new cap = \<lparr>ch_queue = [], ch_cap = cap, ch_closed = False\<rparr>"

definition chan_send :: "'a \<Rightarrow> 'a chan \<Rightarrow> 'a chan \<times> bool" where
  "chan_send x c =
     (if ch_closed c then (c, False) else (c\<lparr>ch_queue := ch_queue c @ [x]\<rparr>, True))"

definition chan_try_send :: "'a \<Rightarrow> 'a chan \<Rightarrow> 'a chan \<times> try_send_result" where
  "chan_try_send x c =
     (if ch_closed c then (c, Closed)
      else if ch_cap c \<le> length (ch_queue c) then (c, Full)
      else (c\<lparr>ch_queue := ch_queue c @ [x]\<rparr>, Sent))"

text \<open>Dropping the receiver: later sends fail and the queued frames are never received.\<close>

definition chan_close :: "'a chan \<Rightarrow> 'a chan" where
  "chan_close c = c\<lparr>ch_closed := True\<rparr>"

definition chan_recv :: "'a chan \<Rightarrow> ('a \<times> 'a chan) option" where
  "chan_recv c =
     (case ch_queue c of [] \<Rightarrow> None | x # xs \<Rightarrow> Some (x, c\<lparr>ch_queue := xs\<rparr>))"

text \<open>The contract of a sink: a put appends the frame or drops it, and nothing else.\<close>

locale fifo_sink =
  fixes put :: "'a \<Rightarrow> 'c \<Rightarrow> 'c"
    and accepts :: "'c \<Rightarrow> bool"
    and contents :: "'c \<Rightarrow> 'a list"
  assumes put_contents: "contents (put x c) = contents c @ (if accepts c then [x] else [])"
begin

lemma puts_subseq: "\<exists>ys. subseq ys xs \<and> contents (fold put xs c) = contents c @ ys"
proof (induction xs arbitrary: c)
  case Nil
  show ?case by simp
next
  case (Cons x xs)
  from Cons.IH [of "put x c"] obtain ys where
    ys: "subseq ys xs" "contents (fold put xs (put x c)) = contents (put x c) @ ys"
    by blast
  let ?zs = "(if accepts c then [x] else []) @ ys"
  have "subseq ?zs (x # xs)"
    using ys(1) by auto
  moreover have "contents (fold put (x # xs) c) = contents c @ ?zs"
    using ys(2) by (simp add: put_contents)
  ultimately show ?case by blast
qed

end

locale reliable_sink = fifo_sink +
  assumes accepts_put: "accepts c \<Longrightarrow> accepts (put x c)"
begin

lemma puts_contents: "accepts c \<Longrightarrow> contents (fold put xs c) = contents c @ xs"
  by (induction xs arbitrary: c) (auto simp: put_contents accepts_put)

end

interpretation awaited: reliable_sink "\<lambda>x c. fst (chan_send x c)" "\<lambda>c. \<not> ch_closed c" ch_queue
  by unfold_locales (auto simp: chan_send_def)

interpretation tried: fifo_sink "\<lambda>x c. fst (chan_try_send x c)"
    "\<lambda>c. \<not> ch_closed c \<and> length (ch_queue c) < ch_cap c" ch_queue
  by unfold_locales (auto simp: chan_try_send_def)

lemma chan_send_simps [chan_simps]:
  "ch_closed (fst (chan_send x c)) = ch_closed c"
  "ch_cap (fst (chan_send x c)) = ch_cap c"
  "snd (chan_send x c) \<longleftrightarrow> \<not> ch_closed c"
  by (simp_all add: chan_send_def)

lemma chan_close_simps [chan_simps]:
  "ch_closed (chan_close c)" "ch_queue (chan_close c) = ch_queue c"
  by (simp_all add: chan_close_def)

lemma chan_new_simps [chan_simps]:
  "\<not> ch_closed (chan_new n)" "ch_queue (chan_new n) = []" "ch_cap (chan_new n) = n"
  by (simp_all add: chan_new_def)

lemma chan_try_send_bounded:
  "length (ch_queue c) \<le> ch_cap c \<Longrightarrow>
   length (ch_queue (fst (chan_try_send x c))) \<le> ch_cap (fst (chan_try_send x c))"
  by (auto simp: chan_try_send_def)

end
