(* ===== verification/Protocol.thy ===== *)
theory Protocol
  imports Prelude
begin

text \<open>
  The wire protocol (\<open>common/src/protocol\<close> and the \<open>Stats\<close> payload of
  \<open>common/src/stats.rs\<close>): the two families of messages, their one-byte codes, and
  \<open>Frame::encode\<close> and \<open>Frame::decode\<close>, which wrap a serialized message in an
  eight-byte header. The payload serializers \<open>serde_json\<close> and \<open>rmp_serde\<close> are
  third-party code and stay a parameter, the record \<open>codec\<close>; the only fact used about them
  is that deserializing what was serialized gives the message back.
\<close>

section \<open>Data\<close>

datatype Protocol = SSH | SFTP

record Stats =
  last_refreshed_secs :: u64
  proc_id :: string
  proc_threads :: u64
  proc_cpu :: f32
  proc_mem_bytes :: u64
  proc_uptime_secs :: u64
  host_name :: string
  host_ip :: string
  host_mac :: string
  host_cpu :: f32
  host_mem_used_bytes :: u64
  host_mem_total_bytes :: u64
  host_uptime_secs :: u64
  host_load_average :: "f64 \<times> f64 \<times> f64"
  host_os_info :: string
  host_connections :: u64
  host_processes :: u64

datatype FrameError = Generic | Authentication | RequiresUsername | RequiresPassword

datatype SFTPListItemKind = File | Folder

record SFTPListItemAttributes =
  attr_size :: u64

datatype SFTPListItem = SFTPListItem
  (item_name: string) (item_path: string) (item_kind: SFTPListItemKind)
  (item_items: "SFTPListItem list") (item_attributes: SFTPListItemAttributes)

record SFTPDownloadStart =
  dl_path :: string
  dl_filename :: string

record SFTPDownloadStartResponse =
  dlr_download_id :: u32
  dlr_total_size :: u64
  dlr_total_chunks :: u32

record SFTPDownloadChunk =
  dlc_download_id :: u32
  dlc_chunk_index :: u32
  dlc_chunk_size :: u32
  dlc_data :: bytes

record SFTPUploadStart =
  ul_filename :: string
  ul_remote_path :: string
  ul_total_chunks :: u32
  ul_total_size :: u64

record SFTPUploadStartResponse =
  ulr_upload_id :: u32

record SFTPUploadChunk =
  ulc_upload_id :: u32
  ulc_chunk_index :: u32
  ulc_chunk_size :: u32
  ulc_data :: bytes

record SFTPDelete =
  del_path :: string
  del_filename :: string

text \<open>
  The variants carry the fields in the order of the source; the prefixes \<open>W\<close> and \<open>N\<close>
  tell \<open>WebFrameData\<close> from \<open>NodeFrameData\<close>.
\<close>

datatype WebFrameData =
    WHeartbeat
  | WAuth string string string msg_id  \<comment> \<open>token, node\_id, version, msg\_id\<close>
  | WAuthSuccess uuid string msg_id  \<comment> \<open>cid, version, msg\_id\<close>
  | WOpenTunnel u8 string "string option" "string option" msg_id
      \<comment> \<open>protocol, node\_id, username, password, msg\_id\<close>
  | WTunnelOpened u8 u32 msg_id  \<comment> \<open>protocol, sid, msg\_id\<close>
  | WTunnelData u8 string u32 bytes  \<comment> \<open>protocol, node\_id, sid, data\<close>
  | WTunnelClosed u8 u32 msg_id  \<comment> \<open>protocol, sid, msg\_id\<close>
  | WSSHWindowResize string u32 u32 u32 u32 u32
      \<comment> \<open>node\_id, sid, cols, rows, px\_width, px\_height\<close>
  | WSFTPList string string u32 msg_id  \<comment> \<open>node\_id, path, sid, msg\_id\<close>
  | WSFTPListItems string u32 SFTPListItem msg_id  \<comment> \<open>path, sid, dir, msg\_id\<close>
  | WSFTPDownloadStart string u32 msg_id SFTPDownloadStart
  | WSFTPDownloadStartResponse u32 msg_id SFTPDownloadStartResponse
  | WSFTPDownloadChunkRequest string u32 msg_id u32 u32
      \<comment> \<open>node\_id, sid, msg\_id, download\_id, chunk\_index\<close>
  | WSFTPDownloadChunk u32 msg_id SFTPDownloadChunk
  | WSFTPUploadStart string u32 msg_id SFTPUploadStart
  | WSFTPUploadStartResponse u32 msg_id SFTPUploadStartResponse
  | WSFTPUpload string u32 msg_id SFTPUploadChunk
  | WSFTPUploadChunkAck u32 u32 u32  \<comment> \<open>sid, upload\_id, chunk\_index\<close>
  | WSFTPDelete string u32 msg_id SFTPDelete
  | WError FrameError string msg_id  \<comment> \<open>kind, message, msg\_id\<close>

datatype WebFrameId = SessionId u32 | ConnectionId uuid

datatype NodeFrameData =
    NHeartbeat Stats u64  \<comment> \<open>stats, sent\_at\<close>
  | NHeartbeatAck u64 u64  \<comment> \<open>sent\_at, received\_at\<close>
  | NAuth string uuid string  \<comment> \<open>token, node\_id, version\<close>
  | NAuthResponse uuid bool string  \<comment> \<open>node\_id, success, version\<close>
  | NOpenTunnel u8 uuid "string option" "string option" msg_id
      \<comment> \<open>protocol, cid, username, password, msg\_id\<close>
  | NTunnelOpened u8 uuid u32 msg_id  \<comment> \<open>protocol, cid, sid, msg\_id\<close>
  | NTunnelData u8 uuid u32 bytes  \<comment> \<open>protocol, cid, sid, data\<close>
  | NTunnelClosed u8 uuid u32 msg_id  \<comment> \<open>protocol, cid, sid, msg\_id\<close>
  | NSSHWindowResize uuid u32 u32 u32 u32 u32
      \<comment> \<open>cid, sid, cols, rows, px\_width, px\_height\<close>
  | NSFTPList uuid string u32 msg_id  \<comment> \<open>cid, path, sid, msg\_id\<close>
  | NSFTPDownloadStart uuid u32 msg_id SFTPDownloadStart
  | NSFTPDownloadChunkRequest uuid u32 msg_id u32 u32
      \<comment> \<open>cid, sid, msg\_id, download\_id, chunk\_index\<close>
  | NSFTPDownloadChunk uuid u32 msg_id SFTPDownloadChunk
  | NSFTPUploadStart uuid u32 msg_id SFTPUploadStart
  | NSFTPUpload uuid u32 msg_id SFTPUploadChunk
  | NSFTPDelete uuid u32 msg_id SFTPDelete
  | NWebFrame WebFrameData WebFrameId  \<comment> \<open>frame, id\<close>
  | NConnectionDisconnect uuid  \<comment> \<open>cid\<close>

datatype FrameData = Web WebFrameData | Node NodeFrameData

datatype FrameEncoding = JSON | MessagePack

record Frame =
  fr_version :: u8
  fr_encoding :: FrameEncoding
  fr_data :: FrameData

section \<open>Codes\<close>

text \<open>
  \<open>Protocol::try_from\<close> declares an error type but answers a byte above 1 with
  \<open>unreachable!\<close>, which panics.
\<close>

definition Protocol_try_from :: "u8 \<Rightarrow> (unit, Protocol) outcome" where
  "Protocol_try_from v = (if v = 0 then Ok SSH else if v = 1 then Ok SFTP else Panic)"

fun Protocol_as_u8 :: "Protocol \<Rightarrow> u8" where
  "Protocol_as_u8 SSH = 0"
| "Protocol_as_u8 SFTP = 1"

fun FrameError_as_u8 :: "FrameError \<Rightarrow> u8" where
  "FrameError_as_u8 Generic = 0"
| "FrameError_as_u8 Authentication = 10"
| "FrameError_as_u8 RequiresUsername = 100"
| "FrameError_as_u8 RequiresPassword = 110"

definition FrameError_from :: "u8 \<Rightarrow> FrameError" where
  "FrameError_from v =
     (if v = 0 then Generic else if v = 10 then Authentication
      else if v = 100 then RequiresUsername else if v = 110 then RequiresPassword
      else Generic)"

fun web_code :: "WebFrameData \<Rightarrow> u8" where
  "web_code WHeartbeat = 1"
| "web_code (WAuth _ _ _ _) = 10"
| "web_code (WAuthSuccess _ _ _) = 11"
| "web_code (WOpenTunnel _ _ _ _ _) = 20"
| "web_code (WTunnelOpened _ _ _) = 21"
| "web_code (WTunnelData _ _ _ _) = 22"
| "web_code (WTunnelClosed _ _ _) = 23"
| "web_code (WSSHWindowResize _ _ _ _ _ _) = 30"
| "web_code (WSFTPList _ _ _ _) = 40"
| "web_code (WSFTPListItems _ _ _ _) = 41"
| "web_code (WSFTPDownloadStart _ _ _ _) = 42"
| "web_code (WSFTPDownloadStartResponse _ _ _) = 43"
| "web_code (WSFTPDownloadChunkRequest _ _ _ _ _) = 44"
| "web_code (WSFTPDownloadChunk _ _ _) = 45"
| "web_code (WSFTPUploadStart _ _ _ _) = 46"
| "web_code (WSFTPUploadStartResponse _ _ _) = 47"
| "web_code (WSFTPUpload _ _ _ _) = 48"
| "web_code (WSFTPUploadChunkAck _ _ _) = 49"
| "web_code (WSFTPDelete _ _ _ _) = 50"
| "web_code (WError _ _ _) = 51"

fun node_code :: "NodeFrameData \<Rightarrow> u8" where
  "node_code (NHeartbeat _ _) = 1"
| "node_code (NHeartbeatAck _ _) = 2"
| "node_code (NAuth _ _ _) = 10"
| "node_code (NAuthResponse _ _ _) = 11"
| "node_code (NOpenTunnel _ _ _ _ _) = 20"
| "node_code (NTunnelOpened _ _ _ _) = 21"
| "node_code (NTunnelData _ _ _ _) = 22"
| "node_code (NTunnelClosed _ _ _ _) = 23"
| "node_code (NSSHWindowResize _ _ _ _ _ _) = 30"
| "node_code (NSFTPList _ _ _ _) = 31"
| "node_code (NSFTPDownloadStart _ _ _ _) = 32"
| "node_code (NSFTPDownloadChunkRequest _ _ _ _ _) = 33"
| "node_code (NSFTPDownloadChunk _ _ _ _) = 34"
| "node_code (NSFTPUploadStart _ _ _ _) = 35"
| "node_code (NSFTPUpload _ _ _ _) = 36"
| "node_code (NSFTPDelete _ _ _ _) = 37"
| "node_code (NWebFrame _ _) = 50"
| "node_code (NConnectionDisconnect _) = 60"

section \<open>Frames\<close>

datatype frame_decode_error =
    InvalidFrameSize | UnknownFrameEncoding u8 | CorruptFrameData | PayloadDecode | InvalidFrameType

datatype frame_encode_error = PayloadEncode

text \<open>
  The build target decides the width of \<open>usize\<close> and which frame kinds exist: the browser
  build (\<open>wasm32\<close>) has no node frames.
\<close>

datatype target = Native64 | Wasm32

fun usize_bits :: "target \<Rightarrow> nat" where
  "usize_bits Native64 = 64"
| "usize_bits Wasm32 = 32"

record codec =
  web_json_to_vec :: "WebFrameData \<Rightarrow> bytes option"
  web_json_from_slice :: "bytes \<Rightarrow> WebFrameData option"
  web_rmp_to_vec :: "WebFrameData \<Rightarrow> bytes option"
  web_rmp_from_slice :: "bytes \<Rightarrow> WebFrameData option"
  node_json_to_vec :: "NodeFrameData \<Rightarrow> bytes option"
  node_json_from_slice :: "bytes \<Rightarrow> NodeFrameData option"
  node_rmp_to_vec :: "NodeFrameData \<Rightarrow> bytes option"
  node_rmp_from_slice :: "bytes \<Rightarrow> NodeFrameData option"

definition codec_inverse :: "codec \<Rightarrow> bool" where
  "codec_inverse C \<longleftrightarrow>
     (\<forall>w bs. web_json_to_vec C w = Some bs \<longrightarrow> web_json_from_slice C bs = Some w) \<and>
     (\<forall>w bs. web_rmp_to_vec C w = Some bs \<longrightarrow> web_rmp_from_slice C bs = Some w) \<and>
     (\<forall>n bs. node_json_to_vec C n = Some bs \<longrightarrow> node_json_from_slice C bs = Some n) \<and>
     (\<forall>n bs. node_rmp_to_vec C n = Some bs \<longrightarrow> node_rmp_from_slice C bs = Some n)"

definition HEADER_SIZE :: nat where
  "HEADER_SIZE = 8"

definition FRAME_VERSION :: u8 where
  "FRAME_VERSION = 1"

fun FrameEncoding_as_u8 :: "FrameEncoding \<Rightarrow> u8" where
  "FrameEncoding_as_u8 JSON = 0"
| "FrameEncoding_as_u8 MessagePack = 1"

definition FrameEncoding_try_from :: "u8 \<Rightarrow> (frame_decode_error, FrameEncoding) outcome" where
  "FrameEncoding_try_from code =
     (if code = 0 then Ok JSON else if code = 1 then Ok MessagePack
      else Err (UnknownFrameEncoding code))"

definition Frame_from_node :: "NodeFrameData \<Rightarrow> Frame" where
  "Frame_from_node d = \<lparr>fr_version = FRAME_VERSION, fr_encoding = MessagePack, fr_data = Node d\<rparr>"

definition Frame_from_web :: "WebFrameData \<Rightarrow> Frame" where
  "Frame_from_web d = \<lparr>fr_version = FRAME_VERSION, fr_encoding = MessagePack, fr_data = Web d\<rparr>"

fun web_to_vec :: "codec \<Rightarrow> FrameEncoding \<Rightarrow> WebFrameData \<Rightarrow> bytes option" where
  "web_to_vec C JSON = web_json_to_vec C"
| "web_to_vec C MessagePack = web_rmp_to_vec C"

fun web_from_slice :: "codec \<Rightarrow> FrameEncoding \<Rightarrow> bytes \<Rightarrow> WebFrameData option" where
  "web_from_slice C JSON = web_json_from_slice C"
| "web_from_slice C MessagePack = web_rmp_from_slice C"

fun node_to_vec :: "codec \<Rightarrow> FrameEncoding \<Rightarrow> NodeFrameData \<Rightarrow> bytes option" where
  "node_to_vec C JSON = node_json_to_vec C"
| "node_to_vec C MessagePack = node_rmp_to_vec C"

fun node_from_slice :: "codec \<Rightarrow> FrameEncoding \<Rightarrow> bytes \<Rightarrow> NodeFrameData option" where
  "node_from_slice C JSON = node_json_from_slice C"
| "node_from_slice C MessagePack = node_rmp_from_slice C"

text \<open>
  \<open>Frame::encode\<close>. The version byte is the constant, not the frame's own field, and
  \<open>data.len() as u32\<close> truncates.
\<close>

definition encode_parts :: "codec \<Rightarrow> Frame \<Rightarrow> (bytes \<times> u8 \<times> u8) option" where
  "encode_parts C frame =
     (case fr_data frame of
        Web d \<Rightarrow> map_option (\<lambda>raw. (raw, 0, web_code d)) (web_to_vec C (fr_encoding frame) d)
      | Node d \<Rightarrow> map_option (\<lambda>raw. (raw, 1, node_code d)) (node_to_vec C (fr_encoding frame) d))"

definition Frame_encode :: "codec \<Rightarrow> Frame \<Rightarrow> (frame_encode_error, bytes) outcome" where
  "Frame_encode C frame =
     (case encode_parts C frame of
        None \<Rightarrow> Err PayloadEncode
      | Some (raw, kind, code) \<Rightarrow>
          Ok ([FRAME_VERSION, FrameEncoding_as_u8 (fr_encoding frame), kind, code]
              @ u32_to_be (word_of_nat (length raw)) @ raw))"

definition decode_payload ::
  "target \<Rightarrow> codec \<Rightarrow> FrameEncoding \<Rightarrow> u8 \<Rightarrow> bytes \<Rightarrow> (frame_decode_error, FrameData) outcome" where
  "decode_payload tgt C enc kind payload =
     (if kind = 0 then
        (case web_from_slice C enc payload of
           None \<Rightarrow> Err PayloadDecode | Some w \<Rightarrow> Ok (Web w))
      else if kind = 1 \<and> tgt = Native64 then
        (case node_from_slice C enc payload of
           None \<Rightarrow> Err PayloadDecode | Some n \<Rightarrow> Ok (Node n))
      else Err InvalidFrameType)"

text \<open>
  \<open>Frame::decode\<close>. The sum \<open>HEADER_SIZE + len\<close> is a \<open>usize\<close> addition, which wraps in a
  release build; slicing with an end before the start panics.
\<close>

definition Frame_decode :: "target \<Rightarrow> codec \<Rightarrow> bytes \<Rightarrow> (frame_decode_error, Frame) outcome" where
  "Frame_decode tgt C data =
     (if length data < HEADER_SIZE then Err InvalidFrameSize
      else case FrameEncoding_try_from (data ! 1) of
        Err e \<Rightarrow> Err e
      | Panic \<Rightarrow> Panic
      | Ok enc \<Rightarrow>
          (let kind = data ! 2;
               len = unat (u32_from_be (data ! 4) (data ! 5) (data ! 6) (data ! 7));
               stop = (HEADER_SIZE + len) mod 2 ^ usize_bits tgt
           in if length data < stop then Err CorruptFrameData
              else if stop < HEADER_SIZE then Panic
              else case decode_payload tgt C enc kind (take (stop - HEADER_SIZE) (drop HEADER_SIZE data)) of
                Err e \<Rightarrow> Err e
              | Panic \<Rightarrow> Panic
              | Ok d \<Rightarrow> Ok \<lparr>fr_version = data ! 0, fr_encoding = enc, fr_data = d\<rparr>))"

section \<open>Lemmas\<close>

lemma codec_inverse_web:
  "codec_inverse C \<Longrightarrow> web_to_vec C e w = Some bs \<Longrightarrow> web_from_slice C e bs = Some w"
  by (cases e) (auto simp: codec_inverse_def)

lemma codec_inverse_node:
  "codec_inverse C \<Longrightarrow> node_to_vec C e n = Some bs \<Longrightarrow> node_from_slice C e bs = Some n"
  by (cases e) (auto simp: codec_inverse_def)

lemma FrameEncoding_try_from_as_u8 [simp]: "FrameEncoding_try_from (FrameEncoding_as_u8 e) = Ok e"
  by (cases e) (auto simp: FrameEncoding_try_from_def)

lemma decode_payload_no_panic [simp]: "decode_payload tgt C enc kind bs \<noteq> Panic"
  by (auto simp: decode_payload_def split: option.splits)

lemma FrameEncoding_try_from_no_panic [simp]: "FrameEncoding_try_from b \<noteq> Panic"
  by (simp add: FrameEncoding_try_from_def)

lemma encode_parts_decode:
  assumes "codec_inverse C" "encode_parts C frame = Some (raw, kind, code)"
  shows "decode_payload Native64 C (fr_encoding frame) kind raw = Ok (fr_data frame)"
proof (cases "fr_data frame")
  case (Web w)
  with assms show ?thesis
    by (auto simp: encode_parts_def decode_payload_def codec_inverse_web)
next
  case (Node n)
  with assms show ?thesis
    by (auto simp: encode_parts_def decode_payload_def codec_inverse_node)
qed

lemma unat_u32_len: "n < 2 ^ 32 \<Longrightarrow> unat (word_of_nat n :: u32) = n"
  by (simp add: unat_of_nat)

text \<open>
  The header fields of an encoded frame, read back at the positions \<open>decode\<close> uses.
\<close>

lemma encoded_header:
  assumes "Frame_encode C frame = Ok bs"
  obtains raw kind code where "encode_parts C frame = Some (raw, kind, code)"
    and "length (bs @ rest) = 8 + length raw + length rest"
    and "(bs @ rest) ! 0 = FRAME_VERSION"
    and "(bs @ rest) ! 1 = FrameEncoding_as_u8 (fr_encoding frame)"
    and "(bs @ rest) ! 2 = kind"
    and "u32_from_be ((bs @ rest) ! 4) ((bs @ rest) ! 5) ((bs @ rest) ! 6) ((bs @ rest) ! 7)
         = word_of_nat (length raw)"
    and "drop 8 (bs @ rest) = raw @ rest"
proof -
  from assms obtain raw kind code where
    parts: "encode_parts C frame = Some (raw, kind, code)" and
    bs: "bs = [FRAME_VERSION, FrameEncoding_as_u8 (fr_encoding frame), kind, code]
              @ u32_to_be (word_of_nat (length raw)) @ raw"
    by (auto simp: Frame_encode_def split: option.splits)
  show thesis
    by (rule that [OF parts]) (simp_all add: bs u32_to_be_def u32_be_roundtrip)
qed

lemma Frame_decode_native_stop:
  "(HEADER_SIZE + unat (n :: u32)) mod 2 ^ usize_bits Native64 = HEADER_SIZE + unat n"
  using unsigned_less [of n, where ?'a = nat] by (simp add: HEADER_SIZE_def)

lemma Frame_decode_encode:
  assumes "codec_inverse C"
    and "Frame_encode C frame = Ok bs"
    and "length bs < 2 ^ 32"
  shows "Frame_decode Native64 C (bs @ rest) = Ok (frame\<lparr>fr_version := FRAME_VERSION\<rparr>)"
proof -
  obtain raw kind code where
    parts: "encode_parts C frame = Some (raw, kind, code)" and
    len: "length (bs @ rest) = 8 + length raw + length rest" and
    hdr: "(bs @ rest) ! 0 = FRAME_VERSION"
      "(bs @ rest) ! 1 = FrameEncoding_as_u8 (fr_encoding frame)" "(bs @ rest) ! 2 = kind"
      "u32_from_be ((bs @ rest) ! 4) ((bs @ rest) ! 5) ((bs @ rest) ! 6) ((bs @ rest) ! 7)
       = word_of_nat (length raw)" and
    payload: "drop 8 (bs @ rest) = raw @ rest"
    using encoded_header [OF assms(2), of rest] .
  have "unat (word_of_nat (length raw) :: u32) = length raw"
    using assms(3) len by (intro unat_u32_len) simp
  then have "Frame_decode Native64 C (bs @ rest) =
      Ok \<lparr>fr_version = FRAME_VERSION, fr_encoding = fr_encoding frame, fr_data = fr_data frame\<rparr>"
    using hdr payload len Frame_decode_native_stop [of "word_of_nat (length raw)"]
      encode_parts_decode [OF assms(1) parts]
    by (simp add: Frame_decode_def Let_def HEADER_SIZE_def del: append_assoc)
  then show ?thesis
    by simp
qed

section \<open>Properties\<close>

text \<open>
  C20: encoding a frame and decoding the bytes on a 64-bit host gives the frame back with
  the version field set to \<open>FRAME_VERSION\<close>, whatever bytes follow it in the buffer, provided
  its payload fits the 32-bit length field.
\<close>

theorem frame_roundtrip:
  assumes "codec_inverse C"
    and "Frame_encode C frame = Ok bs"
    and "length bs < 2 ^ 32"
  shows "Frame_decode Native64 C (bs @ rest) = Ok (frame\<lparr>fr_version := FRAME_VERSION\<rparr>)"
  using assms by (rule Frame_decode_encode)

definition heartbeat_codec :: codec where
  "heartbeat_codec = \<lparr>
     web_json_to_vec = (\<lambda>w. if w = WHeartbeat then Some [123, 125] else None),
     web_json_from_slice = (\<lambda>bs. if bs = [123, 125] then Some WHeartbeat else None),
     web_rmp_to_vec = (\<lambda>w. if w = WHeartbeat then Some [145, 160] else None),
     web_rmp_from_slice = (\<lambda>bs. if bs = [145, 160] then Some WHeartbeat else None),
     node_json_to_vec = (\<lambda>n. None), node_json_from_slice = (\<lambda>bs. None),
     node_rmp_to_vec = (\<lambda>n. None), node_rmp_from_slice = (\<lambda>bs. None)\<rparr>"

lemma codec_inverse_heartbeat: "codec_inverse heartbeat_codec"
  by (auto simp: codec_inverse_def heartbeat_codec_def split: if_splits)

lemma encode_heartbeat:
  "Frame_encode heartbeat_codec (Frame_from_web WHeartbeat) = Ok [1, 1, 0, 1, 0, 0, 0, 2, 145, 160]"
  by (simp add: Frame_encode_def encode_parts_def Frame_from_web_def heartbeat_codec_def
      FRAME_VERSION_def u32_to_be_def)

theorem frame_roundtrip_witness:
  "Frame_decode Native64 heartbeat_codec ([1, 1, 0, 1, 0, 0, 0, 2, 145, 160] @ [7, 7])
     = Ok (Frame_from_web WHeartbeat)"
  using frame_roundtrip [OF codec_inverse_heartbeat encode_heartbeat, of "[7, 7]"]
  by (simp add: Frame_from_web_def)

text \<open>
  Decoding never panics on a 64-bit host: every byte string is either a frame or one of
  the decoder's errors.
\<close>

theorem frame_decode_native_total:
  "Frame_decode Native64 C data \<noteq> Panic"
  using Frame_decode_native_stop
  by (auto simp: Frame_decode_def Let_def split: outcome.splits)

text \<open>
  In the browser build the same function panics exactly on the buffers with a valid
  encoding byte whose length field is one of the eight largest values: the sum with the header
  size wraps around the 32-bit \<open>usize\<close>.
\<close>

theorem frame_decode_wasm_panics_iff:
  "Frame_decode Wasm32 C data = Panic \<longleftrightarrow>
     8 \<le> length data \<and> (data ! 1 = 0 \<or> data ! 1 = 1) \<and>
     2 ^ 32 - 8 \<le> unat (u32_from_be (data ! 4) (data ! 5) (data ! 6) (data ! 7))"
proof -
  let ?n = "unat (u32_from_be (data ! 4) (data ! 5) (data ! 6) (data ! 7))"
  have n: "?n < 2 ^ 32"
    using unsigned_less [of "u32_from_be (data ! 4) (data ! 5) (data ! 6) (data ! 7)",
        where ?'a = nat] by simp
  let ?stop = "(8 + ?n) mod 4294967296"
  have stop: "?stop = (if ?n < 2 ^ 32 - 8 then 8 + ?n else ?n - (2 ^ 32 - 8))"
    using n by (auto simp: mod_if)
  have enc: "(\<exists>e. FrameEncoding_try_from (data ! 1) = Ok e) \<longleftrightarrow> data ! 1 = 0 \<or> data ! 1 = 1"
    by (auto simp: FrameEncoding_try_from_def)
  have "Frame_decode Wasm32 C data = Panic \<longleftrightarrow>
      8 \<le> length data \<and> (\<exists>e. FrameEncoding_try_from (data ! 1) = Ok e)
      \<and> ?stop \<le> length data \<and> ?stop < 8"
    by (auto simp: Frame_decode_def Let_def HEADER_SIZE_def not_less split: outcome.splits)
  also have "\<dots> \<longleftrightarrow> 8 \<le> length data \<and> (data ! 1 = 0 \<or> data ! 1 = 1) \<and> 2 ^ 32 - 8 \<le> ?n"
    unfolding enc stop using n by auto
  finally show ?thesis .
qed

text \<open>
  \<open>Protocol::try_from\<close> never returns its error: a byte other than the two known
  protocols panics, and the known ones convert back to the same byte.
\<close>

theorem protocol_try_from_cases:
  "(v \<le> 1 \<longrightarrow> (\<exists>p. Protocol_try_from v = Ok p \<and> Protocol_as_u8 p = v)) \<and>
   (1 < v \<longrightarrow> Protocol_try_from v = Panic)"
proof -
  have "v \<le> 1 \<longleftrightarrow> v = 0 \<or> v = 1"
    by unat_arith
  then show ?thesis
    by (auto simp: Protocol_try_from_def not_less [symmetric] split: if_splits)
qed

theorem protocol_try_from_cases_witness:
  "(\<exists>p. Protocol_try_from 1 = Ok p \<and> Protocol_as_u8 p = 1) \<and> Protocol_try_from 2 = Panic"
  using protocol_try_from_cases [of 1] protocol_try_from_cases [of 2] by simp

text \<open>
  The error kinds survive their one-byte wire form, and every other byte reads as
  the generic kind.
\<close>

theorem frame_error_roundtrip:
  "FrameError_from (FrameError_as_u8 k) = k \<and>
   (FrameError_from v \<noteq> Generic \<longrightarrow> FrameError_as_u8 (FrameError_from v) = v)"
  by (cases k) (simp_all add: FrameError_from_def)

theorem frame_error_roundtrip_witness:
  "FrameError_from 110 \<noteq> Generic \<and> FrameError_as_u8 (FrameError_from 110) = 110"
  using frame_error_roundtrip [of Generic 110] by (simp add: FrameError_from_def)

end
