(* ===== verification/Postgres.thy ===== *)
theory Postgres
  imports Prelude
begin

text \<open>
  The server's durable store (\<open>server/src/db/common.rs\<close>, \<open>server/src/db/postgres.rs\<close>):
  the tables its SQL statements read and write, and one function per query. The columns,
  the primary keys and the uniqueness constraints are those of the schema in the README.
  Any query may fail for a reason outside the program (network, pool exhaustion); which ones
  fail is the field \<open>db_down\<close>, left arbitrary.
\<close>

section \<open>Tables\<close>

text \<open>A JSON value is kept as its text.\<close>

type_synonym json = string

record TokenRecord =
  tk_id :: uuid
  tk_token_id :: string
  tk_token_hash :: string
  tk_user_id :: uuid
  tk_expires_at :: "instant option"
  tk_scopes :: "string list"

record NodeRecord =
  nr_id :: uuid
  nr_user_id :: uuid
  nr_name :: "string option"
  nr_hostname :: string
  nr_created_at :: instant

record NodeClaimRecord =
  ncl_id :: uuid
  ncl_user_id :: uuid
  ncl_public_key :: string
  ncl_hostname :: string
  ncl_metadata :: json
  ncl_created_at :: instant
  ncl_last_seen :: "instant option"
  ncl_revoked :: bool

record AuthChallengeRecord =
  ac_node_id :: uuid
  ac_challenge :: string
  ac_expires_at :: instant

record node_row =
  row_id :: uuid
  row_user_id :: uuid
  row_name :: "string option"
  row_public_key :: string
  row_hostname :: string
  row_metadata :: json
  row_created_at :: instant
  row_last_seen :: "instant option"
  row_revoked :: bool

datatype db_query =
    Q_get_node_by_id | Q_get_token_by_id | Q_user_exists | Q_get_node_by_public_key
  | Q_claim_node_by_public_key | Q_get_node_claim_by_id | Q_get_node_claim_by_id_optional
  | Q_upsert_auth_challenge | Q_get_auth_challenge | Q_consume_auth_challenge
  | Q_touch_node_last_seen

record Database =
  t_users :: "uuid list"
  t_pat_tokens :: "TokenRecord list"
  t_nodes :: "node_row list"
  t_auth_challenges :: "AuthChallengeRecord list"
  db_down :: "db_query \<Rightarrow> bool"

datatype db_error = QueryFailed db_query | RowNotFound db_query

definition node_record_of :: "node_row \<Rightarrow> NodeRecord" where
  "node_record_of r = \<lparr>nr_id = row_id r, nr_user_id = row_user_id r, nr_name = row_name r,
     nr_hostname = row_hostname r, nr_created_at = row_created_at r\<rparr>"

definition node_claim_of :: "node_row \<Rightarrow> NodeClaimRecord" where
  "node_claim_of r = \<lparr>ncl_id = row_id r, ncl_user_id = row_user_id r,
     ncl_public_key = row_public_key r, ncl_hostname = row_hostname r,
     ncl_metadata = row_metadata r, ncl_created_at = row_created_at r,
     ncl_last_seen = row_last_seen r, ncl_revoked = row_revoked r\<rparr>"

text \<open>\<open>fetch_one\<close> fails on an empty result; \<open>fetch_optional\<close> does not.\<close>

definition fetch_one :: "Database \<Rightarrow> db_query \<Rightarrow> 'r option \<Rightarrow> (db_error, 'r) outcome" where
  "fetch_one db q row =
     (if db_down db q then Err (QueryFailed q)
      else case row of None \<Rightarrow> Err (RowNotFound q) | Some r \<Rightarrow> Ok r)"

definition fetch_optional :: "Database \<Rightarrow> db_query \<Rightarrow> 'r option \<Rightarrow> (db_error, 'r option) outcome" where
  "fetch_optional db q row = (if db_down db q then Err (QueryFailed q) else Ok row)"

definition node_by_id :: "Database \<Rightarrow> uuid \<Rightarrow> node_row option" where
  "node_by_id db node_id = find (\<lambda>r. row_id r = node_id) (t_nodes db)"

definition node_by_key :: "Database \<Rightarrow> string \<Rightarrow> node_row option" where
  "node_by_key db key = find (\<lambda>r. row_public_key r = key) (t_nodes db)"

section \<open>Queries\<close>

definition get_node_by_id :: "Database \<Rightarrow> uuid \<Rightarrow> (db_error, NodeRecord) outcome" where
  "get_node_by_id db node_id =
     fetch_one db Q_get_node_by_id (map_option node_record_of (node_by_id db node_id))"

definition get_token_by_id :: "Database \<Rightarrow> string \<Rightarrow> (db_error, TokenRecord) outcome" where
  "get_token_by_id db token_id =
     fetch_one db Q_get_token_by_id (find (\<lambda>t. tk_token_id t = token_id) (t_pat_tokens db))"

definition user_exists :: "Database \<Rightarrow> uuid \<Rightarrow> (db_error, bool) outcome" where
  "user_exists db user_id =
     fetch_one db Q_user_exists (Some (List.member (t_users db) user_id))"

definition get_node_by_public_key ::
  "Database \<Rightarrow> string \<Rightarrow> (db_error, NodeClaimRecord option) outcome" where
  "get_node_by_public_key db key =
     fetch_optional db Q_get_node_by_public_key (map_option node_claim_of (node_by_key db key))"

text \<open>
  \<open>INSERT .. ON CONFLICT (public_key) DO UPDATE SET hostname, metadata RETURNING ..\<close>. The id
  and creation time of an inserted row are column defaults, chosen by the database.
\<close>

definition claim_node_by_public_key ::
  "Database \<Rightarrow> uuid \<Rightarrow> instant \<Rightarrow> uuid \<Rightarrow> string \<Rightarrow> string \<Rightarrow> json
     \<Rightarrow> Database \<times> (db_error, NodeClaimRecord) outcome" where
  "claim_node_by_public_key db new_id now user_id key hostname metadata =
     (if db_down db Q_claim_node_by_public_key
      then (db, Err (QueryFailed Q_claim_node_by_public_key))
      else case node_by_key db key of
        None \<Rightarrow>
          (let r = \<lparr>row_id = new_id, row_user_id = user_id, row_name = None,
                    row_public_key = key, row_hostname = hostname, row_metadata = metadata,
                    row_created_at = now, row_last_seen = None, row_revoked = False\<rparr>
           in (db\<lparr>t_nodes := t_nodes db @ [r]\<rparr>, Ok (node_claim_of r)))
      | Some old \<Rightarrow>
          (let upd = (\<lambda>r. if row_public_key r = key
                          then r\<lparr>row_hostname := hostname, row_metadata := metadata\<rparr> else r)
           in (db\<lparr>t_nodes := map upd (t_nodes db)\<rparr>, Ok (node_claim_of (upd old)))))"

definition get_node_claim_by_id :: "Database \<Rightarrow> uuid \<Rightarrow> (db_error, NodeClaimRecord) outcome" where
  "get_node_claim_by_id db node_id =
     fetch_one db Q_get_node_claim_by_id (map_option node_claim_of (node_by_id db node_id))"

definition get_node_claim_by_id_optional ::
  "Database \<Rightarrow> uuid \<Rightarrow> (db_error, NodeClaimRecord option) outcome" where
  "get_node_claim_by_id_optional db node_id =
     fetch_optional db Q_get_node_claim_by_id_optional
       (map_option node_claim_of (node_by_id db node_id))"

text \<open>\<open>INSERT .. ON CONFLICT (node_id) DO UPDATE\<close>: one challenge per node.\<close>

definition upsert_auth_challenge ::
  "Database \<Rightarrow> uuid \<Rightarrow> string \<Rightarrow> instant \<Rightarrow> Database \<times> (db_error, unit) outcome" where
  "upsert_auth_challenge db node_id challenge expires_at =
     (if db_down db Q_upsert_auth_challenge
      then (db, Err (QueryFailed Q_upsert_auth_challenge))
      else
        (let c = \<lparr>ac_node_id = node_id, ac_challenge = challenge, ac_expires_at = expires_at\<rparr>;
             rows = t_auth_challenges db
         in (db\<lparr>t_auth_challenges :=
                  (if find (\<lambda>r. ac_node_id r = node_id) rows = None then rows @ [c]
                   else map (\<lambda>r. if ac_node_id r = node_id then c else r) rows)\<rparr>, Ok ())))"

definition get_auth_challenge ::
  "Database \<Rightarrow> uuid \<Rightarrow> string \<Rightarrow> (db_error, AuthChallengeRecord option) outcome" where
  "get_auth_challenge db node_id challenge =
     fetch_optional db Q_get_auth_challenge
       (find (\<lambda>r. ac_node_id r = node_id \<and> ac_challenge r = challenge) (t_auth_challenges db))"

text \<open>\<open>DELETE\<close> succeeds whether or not a row matched.\<close>

definition consume_auth_challenge ::
  "Database \<Rightarrow> uuid \<Rightarrow> string \<Rightarrow> Database \<times> (db_error, unit) outcome" where
  "consume_auth_challenge db node_id challenge =
     (if db_down db Q_consume_auth_challenge
      then (db, Err (QueryFailed Q_consume_auth_challenge))
      else (db\<lparr>t_auth_challenges :=
                 filter (\<lambda>r. \<not> (ac_node_id r = node_id \<and> ac_challenge r = challenge))
                   (t_auth_challenges db)\<rparr>, Ok ()))"

definition touch_node_last_seen ::
  "Database \<Rightarrow> instant \<Rightarrow> uuid \<Rightarrow> Database \<times> (db_error, unit) outcome" where
  "touch_node_last_seen db now node_id =
     (if db_down db Q_touch_node_last_seen
      then (db, Err (QueryFailed Q_touch_node_last_seen))
      else (db\<lparr>t_nodes := map (\<lambda>r. if row_id r = node_id then r\<lparr>row_last_seen := Some now\<rparr> else r)
                  (t_nodes db)\<rparr>, Ok ()))"

section \<open>The constraints of the schema\<close>

definition db_wf :: "Database \<Rightarrow> bool" where
  "db_wf db \<longleftrightarrow>
     distinct (map row_id (t_nodes db)) \<and> distinct (map row_public_key (t_nodes db)) \<and>
     distinct (map ac_node_id (t_auth_challenges db)) \<and>
     distinct (map tk_token_id (t_pat_tokens db))"

lemma find_Some_set: "find P xs = Some x \<Longrightarrow> x \<in> set xs \<and> P x"
  by (induction xs) (auto split: if_splits)

lemma find_None_all: "find P xs = None \<longleftrightarrow> (\<forall>x \<in> set xs. \<not> P x)"
  by (induction xs) auto

lemma find_map_same:
  assumes "\<And>x. P (f x) = P x"
  shows "find P (map f xs) = map_option f (find P xs)"
  using assms by (induction xs) auto

lemma distinct_find_unique:
  assumes "distinct (map f xs)" "x \<in> set xs"
  shows "find (\<lambda>y. f y = f x) xs = Some x"
  using assms by (induction xs) (auto simp: image_iff)

lemma upsert_wf: "db_wf db \<Longrightarrow> db_wf (fst (upsert_auth_challenge db n c e))"
proof -
  assume wf: "db_wf db"
  have "map ac_node_id (map (\<lambda>r. if ac_node_id r = n
          then \<lparr>ac_node_id = n, ac_challenge = c, ac_expires_at = e\<rparr> else r) xs) = map ac_node_id xs"
    for xs
    by (induction xs) auto
  with wf show ?thesis
    by (auto simp: upsert_auth_challenge_def db_wf_def Let_def find_None_all simp del: map_map)
qed

lemma consume_wf: "db_wf db \<Longrightarrow> db_wf (fst (consume_auth_challenge db n c))"
  by (auto simp: consume_auth_challenge_def db_wf_def distinct_map_filter)

lemma touch_wf: "db_wf db \<Longrightarrow> db_wf (fst (touch_node_last_seen db now n))"
  by (auto simp: touch_node_last_seen_def db_wf_def comp_def if_distrib cong: if_cong)

lemma claim_wf:
  assumes "db_wf db" "node_by_id db new_id = None"
  shows "db_wf (fst (claim_node_by_public_key db new_id now u key host meta))"
  using assms
  by (auto simp: claim_node_by_public_key_def db_wf_def Let_def node_by_key_def node_by_id_def
      find_None_all comp_def if_distrib cong: if_cong split: option.splits)

lemma get_challenge_after_upsert:
  assumes "db_wf db" "\<not> db_down db Q_upsert_auth_challenge" "\<not> db_down db Q_get_auth_challenge"
  shows "get_auth_challenge (fst (upsert_auth_challenge db n c e)) n c
       = Ok (Some \<lparr>ac_node_id = n, ac_challenge = c, ac_expires_at = e\<rparr>)"
proof -
  let ?db = "fst (upsert_auth_challenge db n c e)"
  let ?c = "\<lparr>ac_node_id = n, ac_challenge = c, ac_expires_at = e\<rparr>"
  have "?c \<in> set (t_auth_challenges ?db)"
    using assms(2)
    by (force simp: upsert_auth_challenge_def Let_def find_None_all image_iff)
  then have only: "find (\<lambda>r. ac_node_id r = n) (t_auth_challenges ?db) = Some ?c"
    using distinct_find_unique [of ac_node_id "t_auth_challenges ?db" ?c] upsert_wf [OF assms(1)]
    by (simp add: db_wf_def)
  have "find (\<lambda>r. ac_node_id r = n \<and> Q r) xs = Some x"
    if "find (\<lambda>r. ac_node_id r = n) xs = Some x" "Q x" for xs :: "AuthChallengeRecord list" and x Q
    using that by (induction xs) (auto split: if_splits)
  then show ?thesis
    using assms(2,3) only
    by (simp add: get_auth_challenge_def fetch_optional_def upsert_auth_challenge_def Let_def)
qed

lemma get_challenge_after_consume:
  assumes "\<not> db_down db Q_consume_auth_challenge" "\<not> db_down db Q_get_auth_challenge"
  shows "get_auth_challenge (fst (consume_auth_challenge db n c)) n c = Ok None"
  using assms
  by (auto simp: get_auth_challenge_def consume_auth_challenge_def fetch_optional_def find_None_all)

end
