(* ===== verification/Server_State.thy ===== *)
theory Server_State
  imports Protocol Postgres
begin

text \<open>
  The state every server task shares (\<open>AppState\<close> in \<open>server/src/http.rs\<close>, the connection
  records of \<open>server/src/connection.rs\<close>, \<open>common/src/node.rs\<close> and \<open>common/src/server.rs\<close>),
  its lookup and notification methods, the commands the server sends to Redis
  (\<open>server/src/db/redis.rs\<close>) and the two HTTP listings. Libraries the server calls are the
  fields of the record \<open>server_ext\<close>.
\<close>

section \<open>Configuration and external code\<close>

datatype IpAddr = V4 "32 word" | V6 "128 word"

datatype Mode = Development | Production

fun is_production :: "Mode \<Rightarrow> bool" where
  "is_production Production = True"
| "is_production Development = False"

record Env =
  env_mode :: Mode
  env_fqdn :: string
  env_host :: string
  env_port :: u16
  env_access_control_allowed_origin :: "string option"
  env_jwt_secret :: string
  env_jwt_ttl_secs :: int
  env_challenge_ttl_secs :: int

record ServerIdentifier =
  sid_id :: uuid
  sid_private_ip :: string
  sid_public_ip :: string
  sid_port :: u16
  sid_fqdn :: string

record NodeJwtClaims =
  njc_node_id :: uuid
  njc_exp :: nat
  njc_iat :: nat

record WebJwtClaims =
  wjc_sub :: string
  wjc_exp :: nat
  wjc_iat :: "nat option"
  wjc_provider :: "string option"

text \<open>The payload of \<open>get_extended_stats\<close>, before serialization.\<close>

record ExtendedStats =
  es_id :: uuid
  es_name :: string
  es_ip :: IpAddr
  es_latency :: u64
  es_server_id :: uuid
  es_connected_for_secs :: int
  es_since_last_heartbeat_secs :: int
  es_stats :: "Stats option"

text \<open>
  Third-party functions the server calls: UUID text conversion, the payload codec, JSON
  encoders, JWT, Argon2, base64 and Ed25519, and the build's version and
  \<open>debug_assertions\<close> flag. \<open>None\<close> is the library's error.
\<close>

record server_ext =
  x_parse_uuid :: "string \<Rightarrow> uuid option"
  x_uuid_str :: "uuid \<Rightarrow> string"
  x_ip_str :: "IpAddr \<Rightarrow> string"
  x_codec :: codec
  x_version :: string
  x_debug_assertions :: bool
  x_node_json :: "NodeRecord \<Rightarrow> string option"
  x_server_json :: "ServerIdentifier \<Rightarrow> string option"
  x_connection_json :: "string \<Rightarrow> string \<Rightarrow> string"
  x_extended_stats_json :: "ExtendedStats \<Rightarrow> string option"
  x_jwt_encode :: "string \<Rightarrow> NodeJwtClaims \<Rightarrow> string option"
  x_jwt_decode :: "string \<Rightarrow> instant \<Rightarrow> string \<Rightarrow> NodeJwtClaims option"
  x_jwt_decode_web :: "string \<Rightarrow> instant \<Rightarrow> string \<Rightarrow> WebJwtClaims option"
  x_password_hash_parses :: "string \<Rightarrow> bool"
  x_verify_password :: "string \<Rightarrow> string \<Rightarrow> bool"
  x_b64_encode :: "bytes \<Rightarrow> string"
  x_b64_decode :: "string \<Rightarrow> bytes option"
  x_str_bytes :: "string \<Rightarrow> bytes"
  x_ed25519_key_valid :: "bytes \<Rightarrow> bool"
  x_ed25519_sig_valid :: "bytes \<Rightarrow> bool"
  x_ed25519_verify :: "bytes \<Rightarrow> bytes \<Rightarrow> bytes \<Rightarrow> bool"

section \<open>Redis\<close>

text \<open>
  What the server does to Redis is the sequence of commands it sends. Whether a command
  succeeds is up to Redis, so it is the field \<open>rd_fails\<close>, left arbitrary.
\<close>

datatype redis_cmd =
    HSET string "(string \<times> string) list"
  | EXPIRE string int
  | DEL string

record MemoryDB =
  rd_log :: "redis_cmd list"
  rd_fails :: "redis_cmd \<Rightarrow> bool"

definition rd_exec :: "redis_cmd \<Rightarrow> MemoryDB \<Rightarrow> MemoryDB \<times> bool" where
  "rd_exec c m = (m\<lparr>rd_log := rd_log m @ [c]\<rparr>, \<not> rd_fails m c)"

text \<open>\<open>hset_multiple\<close> then \<open>expire\<close>, with \<open>?\<close> after each.\<close>

definition rd_hset_expire :: "string \<Rightarrow> (string \<times> string) list \<Rightarrow> MemoryDB \<Rightarrow> MemoryDB \<times> bool" where
  "rd_hset_expire key fvs m =
     (case rd_exec (HSET key fvs) m of
        (m1, False) \<Rightarrow> (m1, False)
      | (m1, True) \<Rightarrow> rd_exec (EXPIRE key 120) m1)"

definition node_key :: "server_ext \<Rightarrow> NodeRecord \<Rightarrow> string" where
  "node_key X node =
     ''phirepass:users:'' @ x_uuid_str X (nr_user_id node) @ '':nodes:'' @ x_uuid_str X (nr_id node)"

definition connection_key :: "server_ext \<Rightarrow> uuid \<Rightarrow> string" where
  "connection_key X cid = ''phirepass:connections:'' @ x_uuid_str X cid"

definition save_server ::
  "server_ext \<Rightarrow> uuid \<Rightarrow> string \<Rightarrow> string \<Rightarrow> MemoryDB \<Rightarrow> MemoryDB \<times> bool" where
  "save_server X node_id server_payload server_stats m =
     rd_hset_expire (''phirepass:servers:'' @ x_uuid_str X node_id)
       [(''server'', server_payload), (''stats'', server_stats)] m"

definition update_node_stats ::
  "server_ext \<Rightarrow> NodeRecord \<Rightarrow> ServerIdentifier \<Rightarrow> string \<Rightarrow> MemoryDB \<Rightarrow> MemoryDB \<times> bool" where
  "update_node_stats X node server stats_payload m =
     (case x_node_json X node of
        None \<Rightarrow> (m, False)
      | Some node_payload \<Rightarrow>
          (case x_server_json X server of
             None \<Rightarrow> (m, False)
           | Some server_payload \<Rightarrow>
               rd_hset_expire (node_key X node)
                 [(''node'', node_payload), (''stats'', stats_payload), (''server'', server_payload)] m))"

definition set_node_connected ::
  "server_ext \<Rightarrow> NodeRecord \<Rightarrow> ServerIdentifier \<Rightarrow> MemoryDB \<Rightarrow> MemoryDB \<times> bool" where
  "set_node_connected X node server m = update_node_stats X node server '''' m"

definition set_node_disconnected :: "server_ext \<Rightarrow> NodeRecord \<Rightarrow> MemoryDB \<Rightarrow> MemoryDB \<times> bool" where
  "set_node_disconnected X node m = rd_exec (DEL (node_key X node)) m"

definition refresh_connection ::
  "server_ext \<Rightarrow> uuid \<Rightarrow> IpAddr \<Rightarrow> ServerIdentifier \<Rightarrow> MemoryDB \<Rightarrow> MemoryDB \<times> bool" where
  "refresh_connection X cid ip server m =
     (case x_server_json X server of
        None \<Rightarrow> (m, False)
      | Some server_payload \<Rightarrow>
          rd_hset_expire (connection_key X cid)
            [(''connection'', x_connection_json X (x_uuid_str X cid) (x_ip_str X ip)),
             (''server'', server_payload)] m)"

definition set_connection_connected ::
  "server_ext \<Rightarrow> uuid \<Rightarrow> IpAddr \<Rightarrow> ServerIdentifier \<Rightarrow> MemoryDB \<Rightarrow> MemoryDB \<times> bool" where
  "set_connection_connected X cid ip server m = refresh_connection X cid ip server m"

definition set_connection_disconnected :: "server_ext \<Rightarrow> uuid \<Rightarrow> MemoryDB \<Rightarrow> MemoryDB \<times> bool" where
  "set_connection_disconnected X cid m = rd_exec (DEL (connection_key X cid)) m"

section \<open>Connections\<close>

record WebConnection =
  wc_connected_at :: instant
  wc_last_heartbeat :: instant
  wc_ip :: IpAddr
  wc_tx :: chan_id

record Node =
  nd_connected_at :: instant
  nd_last_heartbeat :: instant
  nd_ip :: IpAddr
  nd_last_stats :: "Stats option"

record NodeConnection =
  nc_node :: Node
  nc_tx :: chan_id
  nc_node_record :: NodeRecord
  nc_server_id :: uuid

definition WebConnection_new :: "instant \<Rightarrow> IpAddr \<Rightarrow> chan_id \<Rightarrow> WebConnection" where
  "WebConnection_new now ip tx =
     \<lparr>wc_connected_at = now, wc_last_heartbeat = now, wc_ip = ip, wc_tx = tx\<rparr>"

definition NodeConnection_new ::
  "instant \<Rightarrow> uuid \<Rightarrow> IpAddr \<Rightarrow> chan_id \<Rightarrow> NodeRecord \<Rightarrow> NodeConnection" where
  "NodeConnection_new now server_id ip tx node_record =
     \<lparr>nc_node = \<lparr>nd_connected_at = now, nd_last_heartbeat = now, nd_ip = ip, nd_last_stats = None\<rparr>,
      nc_tx = tx, nc_node_record = node_record, nc_server_id = server_id\<rparr>"

text \<open>\<open>as_secs\<close> truncates to whole seconds; \<open>?\<close> on a clock that ran backwards is an error.\<close>

definition get_extended_stats ::
  "server_ext \<Rightarrow> instant \<Rightarrow> NodeConnection \<Rightarrow> u64 \<Rightarrow> string option" where
  "get_extended_stats X now conn latency =
     (let record = nc_node_record conn; node = nc_node conn;
          name = (case nr_name record of Some n \<Rightarrow> n | None \<Rightarrow> nr_hostname record)
      in case duration_since now (nd_connected_at node) of
           None \<Rightarrow> None
         | Some connected_for \<Rightarrow>
             (case duration_since now (nd_last_heartbeat node) of
                None \<Rightarrow> None
              | Some since_last \<Rightarrow>
                  x_extended_stats_json X
                    \<lparr>es_id = nr_id record, es_name = name, es_ip = nd_ip node,
                     es_latency = latency, es_server_id = nc_server_id conn,
                     es_connected_for_secs = connected_for div nanos_per_sec,
                     es_since_last_heartbeat_secs = since_last div nanos_per_sec,
                     es_stats = nd_last_stats node\<rparr>))"

section \<open>The shared state\<close>

record TunnelSessionKey =
  tsk_node_id :: uuid
  tsk_sid :: u32

definition TunnelSessionKey_new :: "uuid \<Rightarrow> u32 \<Rightarrow> TunnelSessionKey" where
  "TunnelSessionKey_new node_id sid = \<lparr>tsk_node_id = node_id, tsk_sid = sid\<rparr>"

text \<open>
  The channels behind the senders are part of the state: \<open>st_node_chans\<close> and
  \<open>st_web_chans\<close>, with \<open>st_next_chan\<close> the next unused identifier.
\<close>

record AppState =
  st_id :: uuid
  st_server :: ServerIdentifier
  st_env :: Env
  st_db :: Database
  st_memory_db :: MemoryDB
  st_nodes :: "(uuid, NodeConnection) dashmap"
  st_connections :: "(uuid, WebConnection) dashmap"
  st_tunnel_sessions :: "(TunnelSessionKey, uuid \<times> uuid) dashmap"
  st_node_chans :: "NodeFrameData chan_store"
  st_web_chans :: "WebFrameData chan_store"
  st_next_chan :: chan_id

datatype server_error =
    UuidDecode string | SessionNotFound u32 | WrongCid u32 | WrongNodeId u32
  | ConnectionNotFound uuid | SendFailed uuid

text \<open>Sending on a node's or a client's channel.\<close>

definition send_to_node :: "chan_id \<Rightarrow> NodeFrameData \<Rightarrow> AppState \<Rightarrow> AppState \<times> bool" where
  "send_to_node tx f s =
     (let (c, ok) = chan_send f (st_node_chans s tx)
      in (s\<lparr>st_node_chans := (st_node_chans s)(tx := c)\<rparr>, ok))"

definition send_to_web :: "chan_id \<Rightarrow> WebFrameData \<Rightarrow> AppState \<Rightarrow> AppState \<times> bool" where
  "send_to_web tx f s =
     (let (c, ok) = chan_send f (st_web_chans s tx)
      in (s\<lparr>st_web_chans := (st_web_chans s)(tx := c)\<rparr>, ok))"

definition get_node_id_by_cid_and_sid ::
  "server_ext \<Rightarrow> AppState \<Rightarrow> uuid \<Rightarrow> string \<Rightarrow> u32 \<Rightarrow> (server_error, uuid) outcome" where
  "get_node_id_by_cid_and_sid X s cid node_id sid =
     (case x_parse_uuid X node_id of
        None \<Rightarrow> Err (UuidDecode node_id)
      | Some node_uuid \<Rightarrow>
          (case dm_get (st_tunnel_sessions s) (TunnelSessionKey_new node_uuid sid) of
             None \<Rightarrow> Err (SessionNotFound sid)
           | Some (client_id, nid) \<Rightarrow>
               if client_id \<noteq> cid then Err (WrongCid sid) else Ok nid))"

definition get_connection_id_by_sid ::
  "AppState \<Rightarrow> u32 \<Rightarrow> uuid \<Rightarrow> (server_error, uuid) outcome" where
  "get_connection_id_by_sid s sid target =
     (case dm_get (st_tunnel_sessions s) (TunnelSessionKey_new target sid) of
        None \<Rightarrow> Err (SessionNotFound sid)
      | Some (client_id, node_id) \<Rightarrow>
          if node_id \<noteq> target then Err (WrongNodeId sid) else Ok client_id)"

definition notify_client_by_cid ::
  "uuid \<Rightarrow> WebFrameData \<Rightarrow> AppState \<Rightarrow> AppState \<times> (server_error, unit) outcome" where
  "notify_client_by_cid cid frame s =
     (case dm_get (st_connections s) cid of
        None \<Rightarrow> (s, Err (ConnectionNotFound cid))
      | Some connection \<Rightarrow>
          (case send_to_web (wc_tx connection) frame s of
             (s', ok) \<Rightarrow> (s', if ok then Ok () else Err (SendFailed cid))))"

section \<open>HTTP listings\<close>

record node_listing =
  nl_id :: uuid
  nl_name :: string
  nl_ip :: IpAddr
  nl_server_id :: uuid
  nl_connected_for_secs :: int
  nl_since_last_heartbeat_secs :: int
  nl_stats :: "Stats option"

record connection_listing =
  cl_id :: uuid
  cl_ip :: IpAddr
  cl_connected_for_secs :: int
  cl_since_last_heartbeat_secs :: int

definition secs_since :: "instant \<Rightarrow> instant \<Rightarrow> int" where
  "secs_since now t = (case duration_since now t of None \<Rightarrow> 0 | Some d \<Rightarrow> d div nanos_per_sec)"

definition list_nodes :: "instant \<Rightarrow> AppState \<Rightarrow> node_listing list" where
  "list_nodes now s =
     map (\<lambda>(id, info). \<lparr>nl_id = id, nl_name = nr_hostname (nc_node_record info),
            nl_ip = nd_ip (nc_node info), nl_server_id = nc_server_id info,
            nl_connected_for_secs = secs_since now (nd_connected_at (nc_node info)),
            nl_since_last_heartbeat_secs = secs_since now (nd_last_heartbeat (nc_node info)),
            nl_stats = nd_last_stats (nc_node info)\<rparr>)
       (dm_iter (st_nodes s))"

definition list_connections :: "instant \<Rightarrow> AppState \<Rightarrow> connection_listing list" where
  "list_connections now s =
     map (\<lambda>(id, info). \<lparr>cl_id = id, cl_ip = wc_ip info,
            cl_connected_for_secs = secs_since now (wc_connected_at info),
            cl_since_last_heartbeat_secs = secs_since now (wc_last_heartbeat info)\<rparr>)
       (dm_iter (st_connections s))"

text \<open>\<open>build_cors\<close>: which origin the CORS layer allows, if any.\<close>

datatype allowed_origin = AnyOrigin | Origin string | NoOrigin

definition build_cors :: "(string \<Rightarrow> bool) \<Rightarrow> Env \<Rightarrow> allowed_origin" where
  "build_cors header_value_ok env =
     (if \<not> is_production (env_mode env) then AnyOrigin
      else case env_access_control_allowed_origin env of
        Some origin \<Rightarrow>
          if origin \<noteq> [] \<and> header_value_ok origin then Origin origin else NoOrigin
      | None \<Rightarrow> NoOrigin)"

section \<open>The invariant\<close>

text \<open>
  Every tunnel session is filed under the node that serves it, the registries have one entry
  per key, no registered sender refers to a channel that has not been created and no two
  entries share one.
\<close>

definition sessions_keyed :: "AppState \<Rightarrow> bool" where
  "sessions_keyed s \<longleftrightarrow>
     (\<forall>key cid nid. dm_get (st_tunnel_sessions s) key = Some (cid, nid) \<longrightarrow> nid = tsk_node_id key)"

definition chans_allocated :: "AppState \<Rightarrow> bool" where
  "chans_allocated s \<longleftrightarrow>
     (\<forall>id c. dm_get (st_nodes s) id = Some c \<longrightarrow> nc_tx c < st_next_chan s) \<and>
     (\<forall>id c. dm_get (st_connections s) id = Some c \<longrightarrow> wc_tx c < st_next_chan s)"

text \<open>No two registered nodes, and no two registered clients, share a channel.\<close>

definition chans_separate :: "AppState \<Rightarrow> bool" where
  "chans_separate s \<longleftrightarrow>
     (\<forall>i j c d. dm_get (st_nodes s) i = Some c \<longrightarrow> dm_get (st_nodes s) j = Some d \<longrightarrow>
        nc_tx c = nc_tx d \<longrightarrow> i = j) \<and>
     (\<forall>i j c d. dm_get (st_connections s) i = Some c \<longrightarrow> dm_get (st_connections s) j = Some d \<longrightarrow>
        wc_tx c = wc_tx d \<longrightarrow> i = j)"

definition state_wf :: "AppState \<Rightarrow> bool" where
  "state_wf s \<longleftrightarrow>
     dm_wf (st_nodes s) \<and> dm_wf (st_connections s) \<and> dm_wf (st_tunnel_sessions s) \<and>
     sessions_keyed s \<and> chans_allocated s \<and> chans_separate s"

named_theorems srv_simps \<open>fields a server operation leaves alone\<close>

lemma send_to_node_fields [srv_simps]:
  "st_id (fst (send_to_node tx f s)) = st_id s"
  "st_server (fst (send_to_node tx f s)) = st_server s"
  "st_env (fst (send_to_node tx f s)) = st_env s"
  "st_db (fst (send_to_node tx f s)) = st_db s"
  "st_memory_db (fst (send_to_node tx f s)) = st_memory_db s"
  "st_nodes (fst (send_to_node tx f s)) = st_nodes s"
  "st_connections (fst (send_to_node tx f s)) = st_connections s"
  "st_tunnel_sessions (fst (send_to_node tx f s)) = st_tunnel_sessions s"
  "st_web_chans (fst (send_to_node tx f s)) = st_web_chans s"
  "st_next_chan (fst (send_to_node tx f s)) = st_next_chan s"
  by (simp_all add: send_to_node_def Let_def case_prod_unfold)

lemma send_to_web_fields [srv_simps]:
  "st_id (fst (send_to_web tx f s)) = st_id s"
  "st_server (fst (send_to_web tx f s)) = st_server s"
  "st_env (fst (send_to_web tx f s)) = st_env s"
  "st_db (fst (send_to_web tx f s)) = st_db s"
  "st_memory_db (fst (send_to_web tx f s)) = st_memory_db s"
  "st_nodes (fst (send_to_web tx f s)) = st_nodes s"
  "st_connections (fst (send_to_web tx f s)) = st_connections s"
  "st_tunnel_sessions (fst (send_to_web tx f s)) = st_tunnel_sessions s"
  "st_node_chans (fst (send_to_web tx f s)) = st_node_chans s"
  "st_next_chan (fst (send_to_web tx f s)) = st_next_chan s"
  by (simp_all add: send_to_web_def Let_def case_prod_unfold)

lemma notify_fields [srv_simps]:
  "st_id (fst (notify_client_by_cid cid f s)) = st_id s"
  "st_server (fst (notify_client_by_cid cid f s)) = st_server s"
  "st_env (fst (notify_client_by_cid cid f s)) = st_env s"
  "st_db (fst (notify_client_by_cid cid f s)) = st_db s"
  "st_memory_db (fst (notify_client_by_cid cid f s)) = st_memory_db s"
  "st_nodes (fst (notify_client_by_cid cid f s)) = st_nodes s"
  "st_connections (fst (notify_client_by_cid cid f s)) = st_connections s"
  "st_tunnel_sessions (fst (notify_client_by_cid cid f s)) = st_tunnel_sessions s"
  "st_node_chans (fst (notify_client_by_cid cid f s)) = st_node_chans s"
  "st_next_chan (fst (notify_client_by_cid cid f s)) = st_next_chan s"
  by (simp_all add: notify_client_by_cid_def case_prod_unfold send_to_web_fields split: option.splits)

text \<open>Queues after a send, as the observable effect of the handlers.\<close>

abbreviation node_queue :: "AppState \<Rightarrow> chan_id \<Rightarrow> NodeFrameData list" where
  "node_queue s tx \<equiv> ch_queue (st_node_chans s tx)"

abbreviation web_queue :: "AppState \<Rightarrow> chan_id \<Rightarrow> WebFrameData list" where
  "web_queue s tx \<equiv> ch_queue (st_web_chans s tx)"

lemma node_queue_send:
  "node_queue (fst (send_to_node tx f s)) tx' =
     node_queue s tx' @ (if tx' = tx \<and> \<not> ch_closed (st_node_chans s tx) then [f] else [])"
  by (simp add: send_to_node_def chan_send_def)

lemma web_queue_send:
  "web_queue (fst (send_to_web tx f s)) tx' =
     web_queue s tx' @ (if tx' = tx \<and> \<not> ch_closed (st_web_chans s tx) then [f] else [])"
  by (simp add: send_to_web_def chan_send_def)

lemma send_ok [chan_simps]:
  "snd (send_to_node tx f s) \<longleftrightarrow> \<not> ch_closed (st_node_chans s tx)"
  "snd (send_to_web tx g s) \<longleftrightarrow> \<not> ch_closed (st_web_chans s tx)"
  by (simp_all add: send_to_node_def send_to_web_def chan_send_def)

lemma send_closed [chan_simps]:
  "ch_closed (st_node_chans (fst (send_to_node tx f s)) tx') = ch_closed (st_node_chans s tx')"
  "ch_closed (st_web_chans (fst (send_to_web tx g s)) tx') = ch_closed (st_web_chans s tx')"
  by (simp_all add: send_to_node_def send_to_web_def chan_send_def)

text \<open>The channel of a connected client, if it accepts frames.\<close>

definition client_chan :: "AppState \<Rightarrow> uuid \<Rightarrow> chan_id option" where
  "client_chan s cid =
     (case dm_get (st_connections s) cid of
        None \<Rightarrow> None
      | Some c \<Rightarrow> if ch_closed (st_web_chans s (wc_tx c)) then None else Some (wc_tx c))"

lemma notify_result: "is_ok (snd (notify_client_by_cid cid f s)) \<longleftrightarrow> client_chan s cid \<noteq> None"
  by (auto simp: notify_client_by_cid_def client_chan_def send_to_web_def chan_send_def
      split: option.splits)

lemma notify_queue:
  "web_queue (fst (notify_client_by_cid cid f s)) tx =
     web_queue s tx @ (if client_chan s cid = Some tx then [f] else [])"
  by (auto simp: notify_client_by_cid_def client_chan_def send_to_web_def chan_send_def
      split: option.splits)

lemma notify_closed [chan_simps]:
  "ch_closed (st_web_chans (fst (notify_client_by_cid cid f s)) tx) = ch_closed (st_web_chans s tx)"
  by (auto simp: notify_client_by_cid_def send_to_web_def chan_send_def split: option.splits)

lemma client_chan_notify [srv_simps]:
  "client_chan (fst (notify_client_by_cid cid f s)) cid' = client_chan s cid'"
  by (simp add: client_chan_def srv_simps chan_simps cong: option.case_cong)

lemma state_wf_notify: "state_wf (fst (notify_client_by_cid cid f s)) = state_wf s"
  by (simp add: state_wf_def sessions_keyed_def chans_allocated_def chans_separate_def srv_simps)

lemma state_wf_send_to_node: "state_wf (fst (send_to_node tx f s)) = state_wf s"
  by (simp add: state_wf_def sessions_keyed_def chans_allocated_def chans_separate_def srv_simps)

text \<open>
  Under the invariant the two session lookups are exact inverses of the registry, and the
  node comparison in \<open>get_connection_id_by_sid\<close> never fails.
\<close>

lemma lookup_node_ok:
  assumes "sessions_keyed s"
  shows "get_node_id_by_cid_and_sid X s cid node_id sid = Ok nid \<longleftrightarrow>
     x_parse_uuid X node_id = Some nid \<and>
     dm_get (st_tunnel_sessions s) (TunnelSessionKey_new nid sid) = Some (cid, nid)"
proof -
  have "nid' = n" if "dm_get (st_tunnel_sessions s) (TunnelSessionKey_new n sid) = Some (c, nid')"
    for n c nid'
    using assms that by (force simp: sessions_keyed_def TunnelSessionKey_new_def)
  then show ?thesis
    by (auto simp: get_node_id_by_cid_and_sid_def split: option.splits)
qed

lemma lookup_connection_ok:
  assumes "sessions_keyed s"
  shows "get_connection_id_by_sid s sid target = Ok cid \<longleftrightarrow>
     dm_get (st_tunnel_sessions s) (TunnelSessionKey_new target sid) = Some (cid, target)"
  using assms
  by (auto simp: get_connection_id_by_sid_def sessions_keyed_def TunnelSessionKey_new_def
      split: option.splits if_splits)

lemma lookup_connection_no_mismatch:
  "sessions_keyed s \<Longrightarrow> get_connection_id_by_sid s sid target \<noteq> Err (WrongNodeId sid')"
  by (fastforce simp: get_connection_id_by_sid_def sessions_keyed_def TunnelSessionKey_new_def
      split: option.splits if_splits)

lemma client_chan_sessions [srv_simps]:
  "client_chan (s\<lparr>st_tunnel_sessions := t\<rparr>) cid = client_chan s cid"
  "client_chan (s\<lparr>st_memory_db := m\<rparr>) cid = client_chan s cid"
  "client_chan (s\<lparr>st_nodes := ns\<rparr>) cid = client_chan s cid"
  "client_chan (s\<lparr>st_node_chans := cs\<rparr>) cid = client_chan s cid"
  by (simp_all add: client_chan_def cong: option.case_cong)

lemma state_wf_intro:
  assumes "state_wf s"
    and "\<And>k v. dm_get (st_nodes s') k = Some v \<Longrightarrow> nc_tx v < st_next_chan s'"
    and "dm_wf (st_nodes s')"
    and "st_connections s' = st_connections s" "st_next_chan s \<le> st_next_chan s'"
    and "dm_wf (st_tunnel_sessions s')" "sessions_keyed s'"
    and "\<And>i j c d. dm_get (st_nodes s') i = Some c \<Longrightarrow> dm_get (st_nodes s') j = Some d \<Longrightarrow>
           nc_tx c = nc_tx d \<Longrightarrow> i = j"
  shows "state_wf s'"
proof -
  have "chans_allocated s'" "chans_separate s'"
    using assms by (fastforce simp: state_wf_def chans_allocated_def chans_separate_def)+
  then show ?thesis
    using assms by (simp add: state_wf_def)
qed

lemma state_wf_frame:
  assumes "st_nodes s' = st_nodes s" "st_connections s' = st_connections s"
    "st_tunnel_sessions s' = st_tunnel_sessions s" "st_next_chan s' = st_next_chan s"
  shows "state_wf s' = state_wf s"
  using assms by (simp add: state_wf_def sessions_keyed_def chans_allocated_def chans_separate_def)

lemma state_wf_update [simp]:
  "state_wf (s\<lparr>st_memory_db := m\<rparr>) = state_wf s"
  "state_wf (s\<lparr>st_node_chans := cs\<rparr>) = state_wf s"
  "state_wf (s\<lparr>st_web_chans := ws\<rparr>) = state_wf s"
  "state_wf (s\<lparr>st_db := db\<rparr>) = state_wf s"
  by (rule state_wf_frame; simp)+

end
