(* ===== verification/Token.thy ===== *)
theory Token
  imports Server_State
begin

text \<open>
  Text formats at the edge of the system: personal access tokens and their masked form
  (\<open>common/src/token.rs\<close>), the \<open>Authorization\<close> header (\<open>extract_bearer_token\<close> in
  \<open>server/src/node_auth.rs\<close> and \<open>server/src/node.rs\<close>), the client address behind proxies
  (\<open>common/src/ip.rs\<close>) and the run mode (\<open>common/src/env.rs\<close>).
\<close>

section \<open>Access tokens\<close>

datatype token_error = TokenRequired | InvalidTokenFormat | BrokenPat | MissingTokenPart | MissingSecret

definition extract_creds :: "string \<Rightarrow> (token_error, string \<times> string) outcome" where
  "extract_creds raw =
     (let token = trim raw in
      if token = [] then Err TokenRequired
      else if \<not> starts_with ''pat_'' token then Err InvalidTokenFormat
      else case strip_prefix ''pat_'' token of
        None \<Rightarrow> Err BrokenPat
      | Some pat_body \<Rightarrow>
          (case split_once ''.'' pat_body of
             None \<Rightarrow> Err MissingTokenPart
           | Some (token_id, secret) \<Rightarrow> Ok (token_id, secret)))"

definition mask_after_10 :: "string \<Rightarrow> string" where
  "mask_after_10 s = take 10 s @ replicate (length (drop 10 s)) CHR ''*''"

section \<open>Headers\<close>

text \<open>
  A header value is text when \<open>HeaderValue::to_str\<close> accepts it (visible ASCII) and opaque
  otherwise; a header map gives the first value under a name.
\<close>

datatype header_value = HText string | HOpaque

type_synonym HeaderMap = "string \<Rightarrow> header_value option"

definition header_text :: "HeaderMap \<Rightarrow> string \<Rightarrow> string option" where
  "header_text headers name =
     (case headers name of Some (HText v) \<Rightarrow> Some v | _ \<Rightarrow> None)"

datatype bearer_error = MissingAuthHeader | InvalidAuthHeader | ExpectedBearer | EmptyBearer

definition extract_bearer_token :: "HeaderMap \<Rightarrow> (bearer_error, string) outcome" where
  "extract_bearer_token headers =
     (case headers ''authorization'' of
        None \<Rightarrow> Err MissingAuthHeader
      | Some HOpaque \<Rightarrow> Err InvalidAuthHeader
      | Some (HText header) \<Rightarrow>
          (case strip_prefix ''Bearer '' header of
             None \<Rightarrow> Err ExpectedBearer
           | Some rest \<Rightarrow>
               (let token = trim rest in if token = [] then Err EmptyBearer else Ok token)))"

section \<open>Client addresses\<close>

text \<open>
  The parsers \<open>str::parse::<IpAddr>\<close> and \<open>str::parse::<SocketAddr>\<close> (of which only the
  address is used) are arguments.
\<close>

record addr_parsers =
  ap_ip :: "string \<Rightarrow> IpAddr option"
  ap_socket_ip :: "string \<Rightarrow> IpAddr option"

definition to_ascii_lower :: "char \<Rightarrow> char" where
  "to_ascii_lower c =
     (let n = (of_char c :: nat) in if 65 \<le> n \<and> n \<le> 90 then char_of (n + 32) else c)"

definition eq_ignore_ascii_case :: "string \<Rightarrow> string \<Rightarrow> bool" where
  "eq_ignore_ascii_case a b \<longleftrightarrow> map to_ascii_lower a = map to_ascii_lower b"

definition parse_ip_token :: "addr_parsers \<Rightarrow> string \<Rightarrow> IpAddr option" where
  "parse_ip_token P raw =
     (if raw = [] \<or> eq_ignore_ascii_case raw ''unknown'' then None
      else let without_brackets = trim_matches (\<lambda>c. c = CHR ''['' \<or> c = CHR '']'') raw in
        case ap_ip P without_brackets of
          Some ip \<Rightarrow> Some ip
        | None \<Rightarrow>
            (case ap_socket_ip P raw of
               Some ip \<Rightarrow> Some ip
             | None \<Rightarrow> ap_socket_ip P without_brackets))"

definition parse_x_forwarded_for :: "addr_parsers \<Rightarrow> HeaderMap \<Rightarrow> IpAddr option" where
  "parse_x_forwarded_for P headers =
     (case header_text headers ''x-forwarded-for'' of
        None \<Rightarrow> None
      | Some value \<Rightarrow> find_map (parse_ip_token P) (map trim (split_on CHR '','' value)))"

definition parse_forwarded_part :: "addr_parsers \<Rightarrow> string \<Rightarrow> IpAddr option" where
  "parse_forwarded_part P part =
     (case strip_prefix ''for='' (trim part) of
        None \<Rightarrow> None
      | Some raw \<Rightarrow> parse_ip_token P (trim_matches (\<lambda>c. c = CHR 0x22) (trim raw)))"

definition parse_forwarded_for :: "addr_parsers \<Rightarrow> HeaderMap \<Rightarrow> IpAddr option" where
  "parse_forwarded_for P headers =
     (case header_text headers ''forwarded'' of
        None \<Rightarrow> None
      | Some value \<Rightarrow>
          find_map (\<lambda>segment. find_map (parse_forwarded_part P) (split_on CHR '';'' segment))
            (split_on CHR '','' value))"

definition resolve_client_ip :: "addr_parsers \<Rightarrow> HeaderMap \<Rightarrow> IpAddr \<Rightarrow> IpAddr" where
  "resolve_client_ip P headers fallback =
     (case parse_x_forwarded_for P headers of
        Some ip \<Rightarrow> ip
      | None \<Rightarrow>
          (case parse_forwarded_for P headers of Some ip \<Rightarrow> ip | None \<Rightarrow> fallback))"

section \<open>Run mode\<close>

definition Mode_from_str :: "string \<Rightarrow> (string, Mode) outcome" where
  "Mode_from_str s =
     (let l = map to_ascii_lower s in
      if l = ''development'' \<or> l = ''dev'' then Ok Development
      else if l = ''production'' \<or> l = ''prod'' then Ok Production
      else Err (''invalid mode: '' @ s))"

fun Mode_to_string :: "Mode \<Rightarrow> string" where
  "Mode_to_string Development = ''development''"
| "Mode_to_string Production = ''production''"

section \<open>Lemmas\<close>

lemma find_map_first:
  "(\<forall>z \<in> set ys. f z = None) \<Longrightarrow> f x = Some y \<Longrightarrow> find_map f (ys @ x # zs) = Some y"
  by (induction ys) auto

lemma trim_clean: "s \<noteq> [] \<Longrightarrow> \<not> is_whitespace (hd s) \<Longrightarrow> \<not> is_whitespace (last s) \<Longrightarrow>
   (\<forall>c \<in> set l. is_whitespace c) \<Longrightarrow> (\<forall>c \<in> set r. is_whitespace c) \<Longrightarrow> trim (l @ s @ r) = s"
  unfolding trim_def by (rule trim_matches_surround)

section \<open>Properties\<close>

text \<open>
  A token written as \<open>pat_<id>.<secret>\<close>, with any white space around it, yields exactly
  its identifier and secret when the identifier has no dot and the secret does not end in white
  space; the secret may itself contain dots.
\<close>

theorem extract_creds_roundtrip:
  assumes "CHR ''.'' \<notin> set tid"
    and "secret = [] \<or> \<not> is_whitespace (last secret)"
    and "\<forall>c \<in> set l. is_whitespace c" "\<forall>c \<in> set r. is_whitespace c"
  shows "extract_creds (l @ ''pat_'' @ tid @ ''.'' @ secret @ r) = Ok (tid, secret)"
proof -
  let ?t = "''pat_'' @ tid @ ''.'' @ secret"
  have "trim (l @ ?t @ r) = ?t"
  proof (rule trim_clean)
    show "\<not> is_whitespace (last ?t)"
      using assms(2) by (cases "secret = []") (auto simp: is_whitespace_def Let_def)
  qed (use assms in \<open>simp_all add: is_whitespace_def Let_def\<close>)
  moreover have "split_once ''.'' (tid @ CHR ''.'' # secret) = Some (tid, secret)"
    using assms(1) by (rule split_once_char_append)
  ultimately show ?thesis
    by (simp add: extract_creds_def starts_with_def strip_prefix_def)
qed

theorem extract_creds_roundtrip_witness:
  "extract_creds ('' pat_abc123.def.456'' @ [CHR 0x0A]) = Ok (''abc123'', ''def.456'')"
  using extract_creds_roundtrip [of "''abc123''" "''def.456''" "'' ''" "[CHR 0x0A]"]
  by (simp add: is_whitespace_def)

text \<open>
  Conversely, whatever \<open>extract_creds\<close> accepts is the trimmed input split at the
  \<open>pat_\<close> prefix and the first dot; it never reports the two internal errors its code
  spells out after the prefix check.
\<close>

theorem extract_creds_sound:
  "(extract_creds raw = Ok (tid, secret) \<longleftrightarrow>
      trim raw = ''pat_'' @ tid @ ''.'' @ secret \<and> CHR ''.'' \<notin> set tid) \<and>
   extract_creds raw \<noteq> Err BrokenPat \<and> extract_creds raw \<noteq> Err MissingSecret"
proof (intro conjI iffI)
  assume ok: "extract_creds raw = Ok (tid, secret)"
  then obtain body where "strip_prefix ''pat_'' (trim raw) = Some body"
    and split: "split_once ''.'' body = Some (tid, secret)"
    by (auto simp: extract_creds_def Let_def split: if_splits option.splits)
  then have "trim raw = ''pat_'' @ body" "body = tid @ ''.'' @ secret"
    by (auto simp: strip_prefix_Some dest: split_once_Some)
  then show "trim raw = ''pat_'' @ tid @ ''.'' @ secret"
    by simp
  show "CHR ''.'' \<notin> set tid"
    using split by (rule split_once_char_first)
next
  assume "trim raw = ''pat_'' @ tid @ ''.'' @ secret \<and> CHR ''.'' \<notin> set tid"
  then show "extract_creds raw = Ok (tid, secret)"
    using split_once_char_append [of "CHR ''.''" tid secret]
    by (simp add: extract_creds_def starts_with_def strip_prefix_def)
next
  show "extract_creds raw \<noteq> Err BrokenPat" "extract_creds raw \<noteq> Err MissingSecret"
    by (auto simp: extract_creds_def Let_def strip_prefix_def split: option.splits)
qed

text \<open>
  The masked token keeps the length and the first ten characters and shows no other
  character of the token.
\<close>

theorem mask_after_10_hides:
  "length (mask_after_10 s) = length s \<and> take 10 (mask_after_10 s) = take 10 s \<and>
   (\<forall>i. 10 \<le> i \<longrightarrow> i < length s \<longrightarrow> mask_after_10 s ! i = CHR ''*'')"
  by (auto simp: mask_after_10_def nth_append)

theorem mask_after_10_hides_witness:
  "mask_after_10 ''pat_abc123.def'' ! 12 = CHR ''*'' \<and>
   take 10 (mask_after_10 ''pat_abc123.def'') = ''pat_abc123''"
  using mask_after_10_hides [of "''pat_abc123.def''"] by simp

text \<open>
  The client address is that of the left-most entry of \<open>X-Forwarded-For\<close> that parses,
  entries before it being skipped; without one the \<open>Forwarded\<close> header decides, and the peer
  address is used only when neither header yields an address.
\<close>

theorem resolve_client_ip_leftmost:
  "(header_text headers ''x-forwarded-for'' = Some v \<and>
      map trim (split_on CHR '','' v) = ys @ tok # zs \<and>
      (\<forall>y \<in> set ys. parse_ip_token P y = None) \<and> parse_ip_token P tok = Some ip
      \<longrightarrow> resolve_client_ip P headers fallback = ip) \<and>
   (parse_x_forwarded_for P headers = None \<and> parse_forwarded_for P headers = None
      \<longrightarrow> resolve_client_ip P headers fallback = fallback)"
proof (intro conjI impI)
  assume a: "header_text headers ''x-forwarded-for'' = Some v \<and>
      map trim (split_on CHR '','' v) = ys @ tok # zs \<and>
      (\<forall>y \<in> set ys. parse_ip_token P y = None) \<and> parse_ip_token P tok = Some ip"
  then have "find_map (parse_ip_token P) (map trim (split_on CHR '','' v)) = Some ip"
    using find_map_first [of ys "parse_ip_token P" tok ip zs] by simp
  with a have "parse_x_forwarded_for P headers = Some ip"
    by (simp add: parse_x_forwarded_for_def)
  then show "resolve_client_ip P headers fallback = ip"
    by (simp add: resolve_client_ip_def)
qed (simp add: resolve_client_ip_def)

definition demo_parsers :: addr_parsers where
  "demo_parsers = \<lparr>ap_ip = (\<lambda>s. if s = ''10.0.0.7'' then Some (V4 167772167) else None),
                   ap_socket_ip = (\<lambda>s. None)\<rparr>"

theorem resolve_client_ip_leftmost_witness:
  "resolve_client_ip demo_parsers
     ((\<lambda>_. None)(''x-forwarded-for'' \<mapsto> HText ''Unknown, 10.0.0.7'')) (V4 1) = V4 167772167"
proof -
  have split: "split_on CHR '','' ''Unknown, 10.0.0.7'' = [''Unknown'', '' 10.0.0.7'']"
    by simp
  have trims: "trim ''Unknown'' = ''Unknown''" "trim '' 10.0.0.7'' = ''10.0.0.7''"
    using trim_clean [of "''Unknown''" "[]" "[]"] trim_clean [of "''10.0.0.7''" "'' ''" "[]"]
    by (simp_all add: is_whitespace_def)
  have toks: "parse_ip_token demo_parsers ''Unknown'' = None"
    "parse_ip_token demo_parsers ''10.0.0.7'' = Some (V4 167772167)"
    by (simp_all add: parse_ip_token_def eq_ignore_ascii_case_def to_ascii_lower_def
        demo_parsers_def trim_matches_def trim_end_matches_def)
  show ?thesis
    using resolve_client_ip_leftmost [of "(\<lambda>_. None)(''x-forwarded-for'' \<mapsto> HText ''Unknown, 10.0.0.7'')"
        "''Unknown, 10.0.0.7''" "[''Unknown'']" "''10.0.0.7''" "[]" demo_parsers "V4 167772167" "V4 1"]
      split trims toks
    by (simp add: header_text_def del: split_on.simps)
qed

end
