(* ===== verification/Examples.thy ===== *)
theory Examples
  imports Server_State
begin

text \<open>
  Concrete instances of the parameters: a payload codec given by two tables of messages, a
  small set of library functions and a server with one registered user, node and client. The
  witnesses of the properties evaluate the model on them.
\<close>

section \<open>A codec given by tables\<close>

definition table_to_vec :: "'a list \<Rightarrow> 'a \<Rightarrow> bytes option" where
  "table_to_vec T x =
     map_option (\<lambda>(i, _). [word_of_nat i]) (find (\<lambda>(_, y). y = x) (enumerate 0 T))"

definition table_from_slice :: "'a list \<Rightarrow> bytes \<Rightarrow> 'a option" where
  "table_from_slice T bs =
     (case bs of [b] \<Rightarrow> if unat b < length T then Some (T ! unat b) else None | _ \<Rightarrow> None)"

definition table_codec :: "WebFrameData list \<Rightarrow> NodeFrameData list \<Rightarrow> codec" where
  "table_codec W N = \<lparr>
     web_json_to_vec = table_to_vec W, web_json_from_slice = table_from_slice W,
     web_rmp_to_vec = table_to_vec W, web_rmp_from_slice = table_from_slice W,
     node_json_to_vec = table_to_vec N, node_json_from_slice = table_from_slice N,
     node_rmp_to_vec = table_to_vec N, node_rmp_from_slice = table_from_slice N\<rparr>"

lemma table_inverse:
  assumes "length T \<le> 256" "table_to_vec T x = Some bs"
  shows "table_from_slice T bs = Some x"
proof -
  from assms(2) obtain i y where "find (\<lambda>(_, y). y = x) (enumerate 0 T) = Some (i, y)"
    and bs: "bs = [word_of_nat i]"
    by (auto simp: table_to_vec_def)
  then have i: "i < length T" "T ! i = x"
    by (auto dest!: find_Some_set simp: in_set_enumerate_eq)
  then have "unat (word_of_nat i :: u8) = i"
    using assms(1) by (simp add: unat_of_nat)
  with i bs show ?thesis
    by (simp add: table_from_slice_def)
qed

lemma table_codec_inverse:
  "length W \<le> 256 \<Longrightarrow> length N \<le> 256 \<Longrightarrow> codec_inverse (table_codec W N)"
  by (auto simp: codec_inverse_def table_codec_def table_inverse)

section \<open>An example server\<close>

definition example_stats :: Stats where
  "example_stats = \<lparr>last_refreshed_secs = 0, proc_id = ''1'', proc_threads = 1, proc_cpu = 0,
     proc_mem_bytes = 0, proc_uptime_secs = 0, host_name = ''h'', host_ip = '''', host_mac = '''',
     host_cpu = 0, host_mem_used_bytes = 0, host_mem_total_bytes = 0, host_uptime_secs = 0,
     host_load_average = (0, 0, 0), host_os_info = '''', host_connections = 0, host_processes = 0\<rparr>"

definition example_web_frames :: "WebFrameData list" where
  "example_web_frames =
     [WHeartbeat, WAuth ''web'' ''n1'' ''1.0'' None, WTunnelData 0 ''n1'' 9 [65],
      WOpenTunnel 0 ''n1'' None None None, WTunnelOpened 0 9 None,
      WTunnelData 0 ''n1'' 9 [66], WOpenTunnel 200 ''n1'' (Some ''u'') (Some ''p'') None,
      WOpenTunnel 0 ''n1'' (Some ''u'') (Some ''p'') None]"

definition example_node_frames :: "NodeFrameData list" where
  "example_node_frames =
     [NAuth ''jwt1'' 1 ''1.0'', NTunnelOpened 0 5 9 None,
      NWebFrame (WTunnelData 0 ''n1'' 9 [66]) (SessionId 9), NHeartbeat example_stats 0,
      NAuth ''bad'' 1 ''1.0'', NConnectionDisconnect 5, NTunnelData 0 5 9 [65],
      NOpenTunnel 200 6 (Some ''u'') (Some ''p'') None, NOpenTunnel 0 5 (Some ''u'') (Some ''p'') None]"

definition example_codec :: codec where
  "example_codec = table_codec example_web_frames example_node_frames"

lemma example_codec_inverse: "codec_inverse example_codec"
  unfolding example_codec_def
  by (rule table_codec_inverse) (simp_all add: example_web_frames_def example_node_frames_def)

text \<open>The wire form of the table entries.\<close>

definition node_msg :: "u8 \<Rightarrow> u8 \<Rightarrow> bytes" where
  "node_msg code i = [1, 1, 1, code, 0, 0, 0, 1, i]"

definition web_msg :: "u8 \<Rightarrow> u8 \<Rightarrow> bytes" where
  "web_msg code i = [1, 1, 0, code, 0, 0, 0, 1, i]"

lemma u32_from_be_001: "u32_from_be 0 0 0 b = ucast b"
  by (simp add: u32_from_be_def)

lemma decode_node_msg:
  "unat i < length example_node_frames \<Longrightarrow>
   Frame_decode Native64 example_codec (node_msg code i)
     = Ok \<lparr>fr_version = 1, fr_encoding = MessagePack, fr_data = Node (example_node_frames ! unat i)\<rparr>"
  by (simp add: Frame_decode_def node_msg_def HEADER_SIZE_def FrameEncoding_try_from_def
      u32_from_be_001 decode_payload_def example_codec_def table_codec_def table_from_slice_def)

lemma decode_web_msg:
  "unat i < length example_web_frames \<Longrightarrow>
   Frame_decode Native64 example_codec (web_msg code i)
     = Ok \<lparr>fr_version = 1, fr_encoding = MessagePack, fr_data = Web (example_web_frames ! unat i)\<rparr>"
  by (simp add: Frame_decode_def web_msg_def HEADER_SIZE_def FrameEncoding_try_from_def
      u32_from_be_001 decode_payload_def example_codec_def table_codec_def table_from_slice_def)

definition example_ext :: server_ext where
  "example_ext = \<lparr>
     x_parse_uuid = (\<lambda>t. if t = ''n1'' then Some 1 else if t = ''n2'' then Some 2
                        else if t = ''u7'' then Some 7 else None),
     x_uuid_str = (\<lambda>u. if u = 1 then ''n1'' else if u = 2 then ''n2''
                      else if u = 7 then ''u7'' else ''c''),
     x_ip_str = (\<lambda>_. ''10.0.0.1''),
     x_codec = example_codec,
     x_version = ''1.0'',
     x_debug_assertions = False,
     x_node_json = (\<lambda>_. Some ''{}''),
     x_server_json = (\<lambda>_. Some ''{}''),
     x_connection_json = (\<lambda>_ _. ''{}''),
     x_extended_stats_json = (\<lambda>_. Some ''{}''),
     x_jwt_encode = (\<lambda>secret claims. if njc_node_id claims = 1 then Some ''jwt1'' else None),
     x_jwt_decode = (\<lambda>secret now tok. if tok = ''jwt1''
        then Some \<lparr>njc_node_id = 1, njc_exp = 1000, njc_iat = 0\<rparr> else None),
     x_jwt_decode_web = (\<lambda>secret now tok. if tok = ''web''
        then Some \<lparr>wjc_sub = ''u7'', wjc_exp = 1000, wjc_iat = None, wjc_provider = None\<rparr> else None),
     x_password_hash_parses = (\<lambda>_. True),
     x_verify_password = (\<lambda>secret hash. secret = hash),
     x_b64_encode = (\<lambda>bs. map (\<lambda>b. char_of (unat b)) bs),
     x_b64_decode = (\<lambda>t. Some (map (\<lambda>c. word_of_nat (of_char c)) t)),
     x_str_bytes = (\<lambda>t. map (\<lambda>c. word_of_nat (of_char c)) t),
     x_ed25519_key_valid = (\<lambda>_. True),
     x_ed25519_sig_valid = (\<lambda>_. True),
     x_ed25519_verify = (\<lambda>pk m sig. sig = m)\<rparr>"

definition example_key :: string where
  "example_key = replicate 32 CHR ''k''"

definition example_row :: node_row where
  "example_row = \<lparr>row_id = 1, row_user_id = 7, row_name = None, row_public_key = example_key,
     row_hostname = ''h'', row_metadata = ''{}'', row_created_at = 0, row_last_seen = None,
     row_revoked = False\<rparr>"

definition example_db :: Database where
  "example_db = \<lparr>t_users = [7],
     t_pat_tokens = [\<lparr>tk_id = 3, tk_token_id = ''a'', tk_token_hash = ''b'', tk_user_id = 7,
                      tk_expires_at = None, tk_scopes = [''server:register'']\<rparr>],
     t_nodes = [example_row],
     t_auth_challenges = [\<lparr>ac_node_id = 1, ac_challenge = ''xyz'', ac_expires_at = 100\<rparr>],
     db_down = (\<lambda>_. False)\<rparr>"

definition example_server_id :: ServerIdentifier where
  "example_server_id = \<lparr>sid_id = 42, sid_private_ip = ''10.0.0.2'', sid_public_ip = ''1.2.3.4'',
     sid_port = 8080, sid_fqdn = ''localhost''\<rparr>"

definition example_env :: Env where
  "example_env = \<lparr>env_mode = Production, env_fqdn = ''localhost'', env_host = ''0.0.0.0'',
     env_port = 8080, env_access_control_allowed_origin = None, env_jwt_secret = ''secret'',
     env_jwt_ttl_secs = 3600, env_challenge_ttl_secs = 60\<rparr>"

definition empty_state :: AppState where
  "empty_state = \<lparr>st_id = 42, st_server = example_server_id, st_env = example_env,
     st_db = example_db, st_memory_db = \<lparr>rd_log = [], rd_fails = (\<lambda>_. False)\<rparr>,
     st_nodes = [], st_connections = [], st_tunnel_sessions = [],
     st_node_chans = (\<lambda>_. chan_new 256), st_web_chans = (\<lambda>_. chan_new 256), st_next_chan = 0\<rparr>"

definition example_record :: NodeRecord where
  "example_record = node_record_of example_row"

text \<open>Node 1 and client 5 are connected, with tunnel 9 open between them.\<close>

definition example_state :: AppState where
  "example_state = empty_state\<lparr>
     st_nodes := [(1, NodeConnection_new 0 42 (V4 1) 0 example_record)],
     st_connections := [(5, WebConnection_new 0 (V4 2) 1)],
     st_tunnel_sessions := [(TunnelSessionKey_new 1 9, (5, 1))],
     st_next_chan := 2\<rparr>"

lemma empty_state_wf: "state_wf empty_state"
  by (simp add: empty_state_def state_wf_def sessions_keyed_def chans_allocated_def chans_separate_def dm_get_def)

lemma example_state_wf: "state_wf example_state"
  by (simp add: example_state_def empty_state_def state_wf_def sessions_keyed_def
      chans_allocated_def chans_separate_def dm_get_def dm_wf_def NodeConnection_new_def WebConnection_new_def
      TunnelSessionKey_new_def)

lemmas example_defs = example_state_def empty_state_def example_ext_def example_db_def
  example_row_def example_env_def example_record_def NodeConnection_new_def WebConnection_new_def
  TunnelSessionKey_new_def node_record_of_def dm_get_def

lemma example_wire:
  "Frame_encode example_codec (Frame_from_web (WTunnelData 0 ''n1'' 9 [65])) = Ok (web_msg 22 2)"
  "Frame_encode example_codec (Frame_from_web (WTunnelData 0 ''n1'' 9 [66])) = Ok (web_msg 22 5)"
  "Frame_encode example_codec (Frame_from_web (WOpenTunnel 200 ''n1'' (Some ''u'') (Some ''p'') None)) = Ok (web_msg 20 6)"
  "Frame_encode example_codec (Frame_from_node (NWebFrame (WTunnelData 0 ''n1'' 9 [66]) (SessionId 9))) = Ok (node_msg 50 2)"
  "Frame_encode example_codec (Frame_from_node (NTunnelData 0 5 9 [65])) = Ok (node_msg 22 6)"
  "Frame_encode example_codec (Frame_from_node (NOpenTunnel 200 6 (Some ''u'') (Some ''p'') None)) = Ok (node_msg 20 7)"
  "Frame_encode example_codec (Frame_from_node (NOpenTunnel 0 5 (Some ''u'') (Some ''p'') None)) = Ok (node_msg 20 8)"
  by (simp_all add: Frame_encode_def encode_parts_def Frame_from_web_def Frame_from_node_def example_codec_def
      table_codec_def table_to_vec_def example_web_frames_def example_node_frames_def FRAME_VERSION_def
      web_msg_def node_msg_def u32_to_be_def)

lemma example_lengths: "length (web_msg c i) < 2 ^ 32" "length (node_msg c i) < 2 ^ 32"
  by (simp_all add: web_msg_def node_msg_def)

lemma example_ext_codec: "x_codec example_ext = example_codec" "x_parse_uuid example_ext ''n1'' = Some 1"
  by (simp_all add: example_ext_def)

end
