(* ===== verification/Relay.thy ===== *)
theory Relay
  imports Token Examples
begin

text \<open>
  The relay in front of the servers (\<open>relay/src/proxy.rs\<close>, \<open>relay/src/db/redis.rs\<close>): it
  reads the node id and an optional server hint from the websocket sub-protocols, asks Redis
  which server the node is connected to and proxies the request there. Redis is the record
  \<open>relay_redis\<close>; what is stored in it is what the servers wrote.
\<close>

section \<open>Looking a server up\<close>

text \<open>\<open>None\<close> is an error of the Redis client; \<open>HGET\<close> of a missing key or field is \<open>Some None\<close>.\<close>

record relay_redis =
  rr_scan :: "string \<Rightarrow> string list option"
  rr_hget :: "string \<Rightarrow> string \<Rightarrow> string option option"

definition get_server :: "relay_redis \<Rightarrow> string \<Rightarrow> string option option" where
  "get_server R key = rr_hget R key ''server''"

definition find_server_id_by_node_id :: "relay_redis \<Rightarrow> string \<Rightarrow> string option" where
  "find_server_id_by_node_id R node_id =
     (case rr_scan R (''phirepass:users:*:nodes:'' @ node_id) of
        None \<Rightarrow> None
      | Some keys \<Rightarrow> (case keys of [] \<Rightarrow> None | key # _ \<Rightarrow> Some key))"

datatype lookup_error = NoNodeEntry | ServerNotFound | RedisFailed | BadServerJson

definition get_user_server_by_node_id ::
  "relay_redis \<Rightarrow> string \<Rightarrow> string option \<Rightarrow> (lookup_error, string) outcome" where
  "get_user_server_by_node_id R node_id server_id =
     (case (case server_id of Some hint \<Rightarrow> Some hint | None \<Rightarrow> find_server_id_by_node_id R node_id) of
        None \<Rightarrow> Err NoNodeEntry
      | Some key \<Rightarrow>
          (case get_server R key of
             None \<Rightarrow> Err RedisFailed
           | Some None \<Rightarrow> Err ServerNotFound
           | Some (Some server) \<Rightarrow> Ok server))"

text \<open>\<open>decode\<close> is \<open>ServerIdentifier::get_decoded\<close>, a JSON parser.\<close>

definition get_server_by_node_id ::
  "relay_redis \<Rightarrow> (string \<Rightarrow> ServerIdentifier option) \<Rightarrow> string \<Rightarrow> string option
     \<Rightarrow> (lookup_error, ServerIdentifier) outcome" where
  "get_server_by_node_id R decode node_id server_id =
     (case get_user_server_by_node_id R node_id server_id of
        Err e \<Rightarrow> Err e | Panic \<Rightarrow> Panic
      | Ok server_str \<Rightarrow> (case decode server_str of None \<Rightarrow> Err BadServerJson | Some server \<Rightarrow> Ok server))"

section \<open>The proxy\<close>

definition extract_protocols :: "HeaderMap \<Rightarrow> string option \<times> string option" where
  "extract_protocols headers =
     (let protocols =
            (case header_text headers ''sec-websocket-protocol'' of
               None \<Rightarrow> []
             | Some value \<Rightarrow> filter (\<lambda>part. part \<noteq> []) (map trim (split_on CHR '','' value)))
      in (case protocols of [] \<Rightarrow> None | p # _ \<Rightarrow> Some p,
          case protocols of _ # p # _ \<Rightarrow> Some p | _ \<Rightarrow> None))"

record RequestCtx =
  ctx_node_id :: "string option"
  ctx_server_id :: "string option"

definition new_ctx :: RequestCtx where
  "new_ctx = \<lparr>ctx_node_id = None, ctx_server_id = None\<rparr>"

text \<open>The outcome of the filter: the request was answered with a status, or it goes on.\<close>

datatype filter_result = Responded nat | Proceed | Failed nat

definition handle_healthz :: filter_result where
  "handle_healthz = Responded 200"

definition handle_readyz :: "bool \<Rightarrow> filter_result" where
  "handle_readyz ready = (if ready then Responded 200 else Responded 503)"

definition handle_proxy_web_ws :: "HeaderMap \<Rightarrow> RequestCtx \<Rightarrow> RequestCtx \<times> filter_result" where
  "handle_proxy_web_ws headers ctx =
     (case extract_protocols headers of
        (None, _) \<Rightarrow> (ctx, Responded 400)
      | (Some node_id, server_id) \<Rightarrow>
          (ctx\<lparr>ctx_node_id := Some node_id, ctx_server_id := server_id\<rparr>, Proceed))"

definition request_filter ::
  "bool \<Rightarrow> string \<Rightarrow> HeaderMap \<Rightarrow> RequestCtx \<Rightarrow> RequestCtx \<times> filter_result" where
  "request_filter ready path headers ctx =
     (if path = ''/healthz'' then (ctx, handle_healthz)
      else if path = ''/readyz'' then (ctx, handle_readyz ready)
      else if path = ''/api/web/ws'' then handle_proxy_web_ws headers ctx
      else (ctx, Failed 422))"

text \<open>A peer: address, port, no TLS, and the server name.\<close>

record HttpPeer =
  hp_address :: string
  hp_port :: u16
  hp_tls :: bool
  hp_sni :: string

definition upstream_peer ::
  "relay_redis \<Rightarrow> (string \<Rightarrow> ServerIdentifier option) \<Rightarrow> RequestCtx \<Rightarrow> (nat, HttpPeer) outcome" where
  "upstream_peer R decode ctx =
     (case ctx_node_id ctx of
        None \<Rightarrow> Err 400
      | Some node_id \<Rightarrow>
          (case get_server_by_node_id R decode node_id (ctx_server_id ctx) of
             Ok server \<Rightarrow>
               Ok \<lparr>hp_address = sid_private_ip server, hp_port = sid_port server, hp_tls = False,
                   hp_sni = sid_fqdn server\<rparr>
           | _ \<Rightarrow> Err 400))"

text \<open>One request through the filter and, when it proceeds, to the peer.\<close>

definition relay_request ::
  "relay_redis \<Rightarrow> (string \<Rightarrow> ServerIdentifier option) \<Rightarrow> bool \<Rightarrow> string \<Rightarrow> HeaderMap \<Rightarrow> (nat, HttpPeer) outcome" where
  "relay_request R decode ready path headers =
     (case request_filter ready path headers new_ctx of
        (_, Responded status) \<Rightarrow> Err status
      | (_, Failed status) \<Rightarrow> Err status
      | (ctx, Proceed) \<Rightarrow> upstream_peer R decode ctx)"

section \<open>What the servers write\<close>

text \<open>The operations of the server's \<open>MemoryDB\<close>, in any order, from an empty Redis.\<close>

inductive memory_reachable :: "server_ext \<Rightarrow> MemoryDB \<Rightarrow> bool" for X where
  empty: "memory_reachable X \<lparr>rd_log = [], rd_fails = fails\<rparr>"
| save_server: "memory_reachable X m \<Longrightarrow> memory_reachable X (fst (save_server X sid payload stats m))"
| node_stats: "memory_reachable X m \<Longrightarrow> memory_reachable X (fst (update_node_stats X node server stats m))"
| node_gone: "memory_reachable X m \<Longrightarrow> memory_reachable X (fst (set_node_disconnected X node m))"
| connection: "memory_reachable X m \<Longrightarrow> memory_reachable X (fst (refresh_connection X cid ip server m))"
| connection_gone: "memory_reachable X m \<Longrightarrow> memory_reachable X (fst (set_connection_disconnected X cid m))"

text \<open>
  Documented behaviour of Redis, given the commands it received: \<open>HGET\<close> returns only what
  some \<open>HSET\<close> stored under that key; \<open>SCAN MATCH\<close> with one \<open>*\<close> between literal texts
  returns the live keys of that form.
\<close>

definition hget_sound :: "relay_redis \<Rightarrow> redis_cmd list \<Rightarrow> bool" where
  "hget_sound R log \<longleftrightarrow>
     (\<forall>key f v. rr_hget R key f = Some (Some v) \<longrightarrow> (\<exists>fvs. HSET key fvs \<in> set log \<and> (f, v) \<in> set fvs))"

definition glob_literal :: "string \<Rightarrow> bool" where
  "glob_literal s \<longleftrightarrow> (\<forall>c\<in>set s. c \<notin> {CHR ''*'', CHR ''?'', CHR ''['', CHR '']'', CHR ''^'', CHR 0x5C})"

definition scan_matches :: "relay_redis \<Rightarrow> (string \<Rightarrow> bool) \<Rightarrow> bool" where
  "scan_matches R live \<longleftrightarrow>
     (\<forall>p q. glob_literal p \<and> glob_literal q \<longrightarrow>
        (\<exists>ks. rr_scan R (p @ ''*'' @ q) = Some ks \<and> (\<forall>k. k \<in> set ks \<longleftrightarrow> live k \<and> (\<exists>m. k = p @ m @ q))))"

section \<open>Lemmas\<close>

definition prefixed_log :: "redis_cmd list \<Rightarrow> bool" where
  "prefixed_log log \<longleftrightarrow> (\<forall>key fvs. HSET key fvs \<in> set log \<longrightarrow> (\<exists>r. key = ''phirepass:'' @ r))"

lemma rd_log_exec: "rd_log (fst (rd_exec c m)) = rd_log m @ [c]"
  by (simp add: rd_exec_def)

lemma rd_log_hset_expire:
  "set (rd_log (fst (rd_hset_expire key fvs m))) \<subseteq> set (rd_log m) \<union> {HSET key fvs, EXPIRE key 120}"
  by (auto simp: rd_hset_expire_def rd_exec_def split: bool.splits)

lemma prefixed_hset_expire:
  "prefixed_log (rd_log m) \<Longrightarrow> key = ''phirepass:'' @ r \<Longrightarrow> prefixed_log (rd_log (fst (rd_hset_expire key fvs m)))"
  using rd_log_hset_expire [of key fvs m] unfolding prefixed_log_def by blast

lemma memory_reachable_prefixed: "memory_reachable X m \<Longrightarrow> prefixed_log (rd_log m)"
proof (induction rule: memory_reachable.induct)
  case (save_server m sid payload stats)
  then show ?case
    by (auto simp: save_server_def intro: prefixed_hset_expire)
next
  case (node_stats m node server stats)
  then show ?case
    by (auto simp: update_node_stats_def node_key_def intro: prefixed_hset_expire split: option.splits)
next
  case (connection m cid ip server)
  then show ?case
    by (auto simp: refresh_connection_def connection_key_def intro: prefixed_hset_expire split: option.splits)
qed (auto simp: prefixed_log_def set_node_disconnected_def set_connection_disconnected_def rd_log_exec)

section \<open>Properties\<close>

text \<open>
  Without a hint the relay proxies a client to the server its node is connected to,
  given that Redis holds one live entry for the node.
\<close>

lemma relay_finds_node:
  assumes "scan_matches R live" and lit: "glob_literal (x_uuid_str X (nr_id node))"
    and live: "live (node_key X node)"
    and uniq: "\<And>k m. live k \<Longrightarrow> k = ''phirepass:users:'' @ m @ '':nodes:'' @ x_uuid_str X (nr_id node) \<Longrightarrow>
                 k = node_key X node"
    and hget: "rr_hget R (node_key X node) ''server'' = Some (Some payload)"
    and dec: "decode payload = Some server"
    and hdr: "extract_protocols headers = (Some (x_uuid_str X (nr_id node)), None)"
  shows "relay_request R decode ready ''/api/web/ws'' headers =
    Ok \<lparr>hp_address = sid_private_ip server, hp_port = sid_port server, hp_tls = False, hp_sni = sid_fqdn server\<rparr>"
proof -
  let ?n = "x_uuid_str X (nr_id node)"
  have lits: "glob_literal ''phirepass:users:''" "glob_literal ('':nodes:'' @ ?n)"
    using lit by (auto simp: glob_literal_def)
  then obtain ks where scan: "rr_scan R (''phirepass:users:'' @ ''*'' @ '':nodes:'' @ ?n) = Some ks"
    and ks: "\<And>k. k \<in> set ks \<longleftrightarrow> live k \<and> (\<exists>m. k = ''phirepass:users:'' @ m @ '':nodes:'' @ ?n)"
    using assms(1) [unfolded scan_matches_def, rule_format, OF conjI [OF lits]] by auto
  have "node_key X node \<in> set ks"
    using live by (auto simp: ks node_key_def)
  then have ne: "ks \<noteq> []"
    by auto
  then have "live (hd ks)" "\<exists>m. hd ks = ''phirepass:users:'' @ m @ '':nodes:'' @ ?n"
    using ks [of "hd ks"] hd_in_set [OF ne] by blast+
  then have "hd ks = node_key X node"
    using uniq [of "hd ks"] by blast
  then have "find_server_id_by_node_id R ?n = Some (node_key X node)"
    using ne scan by (cases ks) (simp_all add: find_server_id_by_node_id_def)
  then show ?thesis
    using hdr hget dec
    by (simp add: relay_request_def request_filter_def handle_proxy_web_ws_def new_ctx_def upstream_peer_def
        get_server_by_node_id_def get_user_server_by_node_id_def get_server_def)
qed

text \<open>
  A server hint is taken as the Redis key itself: as long as every key that was written starts with
  \<open>phirepass:\<close>, a hint that does not is answered with 400.
\<close>

lemma hint_not_found:
  assumes "prefixed_log log" "hget_sound R log"
    and hdr: "extract_protocols headers = (Some node_id, Some hint)"
    and hint: "\<not> starts_with ''phirepass:'' hint"
  shows "relay_request R decode ready ''/api/web/ws'' headers = Err 400"
proof -
  have "rr_hget R hint ''server'' \<noteq> Some (Some v)" for v
    using assms(1,2) hint
    unfolding hget_sound_def prefixed_log_def starts_with_def by (metis append_eq_conv_conj)
  then have "get_user_server_by_node_id R node_id (Some hint) \<noteq> Ok server" for server
    by (auto simp: get_user_server_by_node_id_def get_server_def split: option.splits)
  then have "get_server_by_node_id R decode node_id (Some hint) \<noteq> Ok server" for server
    by (auto simp: get_server_by_node_id_def split: outcome.splits)
  then show ?thesis
    using hdr
    by (auto simp: relay_request_def request_filter_def handle_proxy_web_ws_def new_ctx_def upstream_peer_def
        split: outcome.splits)
qed

text \<open>The key of the node in the examples.\<close>

definition example_node_entry :: string where
  "example_node_entry = ''phirepass:users:u7:nodes:n1''"

lemma surrounded_iff:
  "(\<exists>m. k = p @ m @ q) \<longleftrightarrow> starts_with p k \<and> length p + length q \<le> length k \<and> drop (length k - length q) k = q"
proof
  assume r: "starts_with p k \<and> length p + length q \<le> length k \<and> drop (length k - length q) k = q"
  let ?m = "drop (length p) (take (length k - length q) k)"
  have "k = take (length k - length q) k @ drop (length k - length q) k"
    by simp
  moreover have "take (length k - length q) k = p @ ?m"
    using r by (metis add_le_imp_le_diff append_take_drop_id starts_with_def min_absorb1 take_take)
  ultimately show "\<exists>m. k = p @ m @ q"
    using r by (metis append_assoc)
qed (auto simp: starts_with_def)

definition node_headers :: "string \<Rightarrow> HeaderMap" where
  "node_headers v = [''sec-websocket-protocol'' \<mapsto> HText v]"

lemma example_extract:
  "extract_protocols (node_headers ''n1'') = (Some ''n1'', None)"
  "extract_protocols (node_headers ''n1, c'') = (Some ''n1'', Some ''c'')"
  by (simp_all add: extract_protocols_def header_text_def node_headers_def trim_def trim_matches_def
      trim_end_matches_def trim_start_def is_whitespace_def)

lemma example_node_key: "node_key example_ext example_record = example_node_entry"
  by (simp add: node_key_def example_node_entry_def example_defs)

end
