(* ===== verification/Node_Auth.thy ===== *)
theory Node_Auth
  imports Token Examples
begin

text \<open>
  Node authentication over HTTP (\<open>server/src/node_auth.rs\<close>): a node asks for a challenge,
  signs it with its Ed25519 key and exchanges the signature for a short-lived JWT, which the
  heartbeat endpoint and the websocket require. \<open>verify_auth_challenge\<close> is the composition
  of its three database phases, so that concurrent requests can be interleaved between them.
\<close>

section \<open>Requests and responses\<close>

record VerifyRequest =
  vr_node_id :: uuid
  vr_challenge :: string
  vr_signature :: string

record VerifyResponse =
  vs_access_token :: string
  vs_expires_at :: instant

record AuthenticatedNode =
  an_node_id :: uuid

text \<open>A response is its status and, on failure, its machine-readable code.\<close>

datatype response =
    ChallengeOk string
  | VerifyOk VerifyResponse
  | HeartbeatOk uuid instant
  | ClaimOk uuid
  | Failure nat string

abbreviation unauthorized_verify :: response where
  "unauthorized_verify \<equiv> Failure 401 ''AUTH_VERIFY_FAILED''"

section \<open>Cryptography\<close>

datatype signature_error =
    BadKeyEncoding | BadSignatureEncoding | BadKeyLength | BadKey | BadSignature | VerifyFailed

definition verify_signature ::
  "server_ext \<Rightarrow> string \<Rightarrow> string \<Rightarrow> string \<Rightarrow> (signature_error, unit) outcome" where
  "verify_signature X public_key challenge signature =
     (case x_b64_decode X public_key of
        None \<Rightarrow> Err BadKeyEncoding
      | Some pk \<Rightarrow>
          (case x_b64_decode X signature of
             None \<Rightarrow> Err BadSignatureEncoding
           | Some sig \<Rightarrow>
               if length pk \<noteq> 32 then Err BadKeyLength
               else if \<not> x_ed25519_key_valid X pk then Err BadKey
               else if \<not> x_ed25519_sig_valid X sig then Err BadSignature
               else if x_ed25519_verify X pk (x_str_bytes X challenge) sig then Ok ()
               else Err VerifyFailed))"

text \<open>
  \<open>issue_node_jwt\<close>: \<open>timestamp()\<close> is the whole seconds since the epoch and
  \<open>as usize\<close> reduces it modulo the word size.
\<close>

definition timestamp :: "instant \<Rightarrow> int" where
  "timestamp t = t div nanos_per_sec"

definition as_usize :: "int \<Rightarrow> nat" where
  "as_usize i = nat (i mod 2 ^ 64)"

definition issue_node_jwt :: "server_ext \<Rightarrow> Env \<Rightarrow> instant \<Rightarrow> uuid \<Rightarrow> (string \<times> instant) option" where
  "issue_node_jwt X env now node_id =
     (let expires_at = now + env_jwt_ttl_secs env * nanos_per_sec;
          claims = \<lparr>njc_node_id = node_id, njc_exp = as_usize (timestamp expires_at),
                    njc_iat = as_usize (timestamp now)\<rparr>
      in map_option (\<lambda>token. (token, expires_at)) (x_jwt_encode X (env_jwt_secret env) claims))"

datatype auth_error = BadToken | NodeLookup db_error | NodeRevoked

definition authenticate_node_jwt ::
  "server_ext \<Rightarrow> instant \<Rightarrow> AppState \<Rightarrow> string \<Rightarrow> (auth_error, AuthenticatedNode) outcome" where
  "authenticate_node_jwt X now s token =
     (case x_jwt_decode X (env_jwt_secret (st_env s)) now token of
        None \<Rightarrow> Err BadToken
      | Some claims \<Rightarrow>
          (case get_node_claim_by_id (st_db s) (njc_node_id claims) of
             Err e \<Rightarrow> Err (NodeLookup e)
           | Panic \<Rightarrow> Panic
           | Ok node \<Rightarrow>
               if ncl_revoked node then Err NodeRevoked
               else Ok \<lparr>an_node_id = njc_node_id claims\<rparr>))"

section \<open>Challenges\<close>

text \<open>\<open>generate_challenge\<close>: 32 random bytes (an argument) in base64.\<close>

definition generate_challenge :: "server_ext \<Rightarrow> bytes \<Rightarrow> string" where
  "generate_challenge X random = x_b64_encode X random"

definition create_auth_challenge ::
  "server_ext \<Rightarrow> bytes \<Rightarrow> instant \<Rightarrow> uuid \<Rightarrow> AppState \<Rightarrow> AppState \<times> response" where
  "create_auth_challenge X random now node_id s =
     (let challenge = generate_challenge X random in
      case get_node_claim_by_id_optional (st_db s) node_id of
        Err _ \<Rightarrow> (s, Failure 500 ''CHALLENGE_LOOKUP_FAILED'')
      | Panic \<Rightarrow> (s, Failure 500 ''CHALLENGE_LOOKUP_FAILED'')
      | Ok None \<Rightarrow> (s, ChallengeOk challenge)
      | Ok (Some node) \<Rightarrow>
          if ncl_revoked node then (s, ChallengeOk challenge)
          else
            (let expires_at = now + env_challenge_ttl_secs (st_env s) * nanos_per_sec in
             case upsert_auth_challenge (st_db s) (ncl_id node) challenge expires_at of
               (db', Ok _) \<Rightarrow> (s\<lparr>st_db := db'\<rparr>, ChallengeOk challenge)
             | (db', _) \<Rightarrow> (s\<lparr>st_db := db'\<rparr>, Failure 500 ''CHALLENGE_WRITE_FAILED'')))"

text \<open>
  \<open>verify_auth_challenge\<close> in its three phases: load the node and the challenge, delete
  the challenge, check expiry and signature and issue the token. A phase either produces the
  final response or what the next phase needs.
\<close>

definition verify_load ::
  "VerifyRequest \<Rightarrow> AppState \<Rightarrow> response + (NodeClaimRecord \<times> AuthChallengeRecord)" where
  "verify_load req s =
     (case get_node_claim_by_id (st_db s) (vr_node_id req) of
        Ok node \<Rightarrow>
          if ncl_revoked node then Inl unauthorized_verify
          else
            (case get_auth_challenge (st_db s) (vr_node_id req) (trim (vr_challenge req)) of
               Ok (Some record) \<Rightarrow> Inr (node, record)
             | Ok None \<Rightarrow> Inl unauthorized_verify
             | _ \<Rightarrow> Inl (Failure 500 ''AUTH_CHALLENGE_LOOKUP_FAILED''))
      | _ \<Rightarrow> Inl unauthorized_verify)"

definition verify_consume :: "VerifyRequest \<Rightarrow> AppState \<Rightarrow> AppState \<times> response option" where
  "verify_consume req s =
     (case consume_auth_challenge (st_db s) (vr_node_id req) (trim (vr_challenge req)) of
        (db', Ok _) \<Rightarrow> (s\<lparr>st_db := db'\<rparr>, None)
      | (db', _) \<Rightarrow> (s\<lparr>st_db := db'\<rparr>, Some (Failure 500 ''AUTH_CHALLENGE_CONSUME_FAILED'')))"

definition verify_finish ::
  "server_ext \<Rightarrow> instant \<Rightarrow> VerifyRequest \<Rightarrow> NodeClaimRecord \<Rightarrow> AuthChallengeRecord \<Rightarrow> AppState \<Rightarrow> response" where
  "verify_finish X now req node record s =
     (if ac_expires_at record \<le> now then unauthorized_verify
      else case verify_signature X (ncl_public_key node) (trim (vr_challenge req)) (trim (vr_signature req)) of
        Ok _ \<Rightarrow>
          (case issue_node_jwt X (st_env s) now (vr_node_id req) of
             None \<Rightarrow> Failure 500 ''AUTH_JWT_ISSUE_FAILED''
           | Some (access_token, expires_at) \<Rightarrow>
               VerifyOk \<lparr>vs_access_token = access_token, vs_expires_at = expires_at\<rparr>)
      | _ \<Rightarrow> unauthorized_verify)"

definition verify_auth_challenge ::
  "server_ext \<Rightarrow> instant \<Rightarrow> VerifyRequest \<Rightarrow> AppState \<Rightarrow> AppState \<times> response" where
  "verify_auth_challenge X now req s =
     (case verify_load req s of
        Inl resp \<Rightarrow> (s, resp)
      | Inr (node, record) \<Rightarrow>
          (case verify_consume req s of
             (s', Some resp) \<Rightarrow> (s', resp)
           | (s', None) \<Rightarrow> (s', verify_finish X now req node record s')))"

section \<open>Heartbeat endpoint\<close>

definition heartbeat :: "instant \<Rightarrow> AuthenticatedNode \<Rightarrow> AppState \<Rightarrow> AppState \<times> response" where
  "heartbeat now auth s =
     (case touch_node_last_seen (st_db s) now (an_node_id auth) of
        (db', Ok _) \<Rightarrow> (s\<lparr>st_db := db'\<rparr>, HeartbeatOk (an_node_id auth) now)
      | (db', _) \<Rightarrow> (s\<lparr>st_db := db'\<rparr>, Failure 500 ''''))"

text \<open>The middleware \<open>require_node_jwt\<close> runs the handler only for an authenticated node.\<close>

definition require_node_jwt ::
  "server_ext \<Rightarrow> instant \<Rightarrow> HeaderMap \<Rightarrow> (AuthenticatedNode \<Rightarrow> AppState \<Rightarrow> AppState \<times> response)
     \<Rightarrow> AppState \<Rightarrow> AppState \<times> response" where
  "require_node_jwt X now headers next_handler s =
     (case extract_bearer_token headers of
        Ok token \<Rightarrow>
          (case authenticate_node_jwt X now s token of
             Ok auth \<Rightarrow> next_handler auth s
           | _ \<Rightarrow> (s, Failure 401 ''''))
      | _ \<Rightarrow> (s, Failure 401 ''''))"

section \<open>Concurrent verification requests\<close>

text \<open>
  Several verify requests in flight. Each is at one of the points between its database
  phases; a step advances one of them. The database and the clock are shared.
\<close>

datatype verify_pc =
    VStart
  | VLoaded NodeClaimRecord AuthChallengeRecord
  | VConsumed NodeClaimRecord AuthChallengeRecord
  | VDone response

fun verify_step ::
  "server_ext \<Rightarrow> instant \<Rightarrow> VerifyRequest \<Rightarrow> verify_pc \<times> AppState \<Rightarrow> verify_pc \<times> AppState" where
  "verify_step X now req (VStart, s) =
     (case verify_load req s of
        Inl resp \<Rightarrow> (VDone resp, s)
      | Inr (node, record) \<Rightarrow> (VLoaded node record, s))"
| "verify_step X now req (VLoaded node record, s) =
     (case verify_consume req s of
        (s', Some resp) \<Rightarrow> (VDone resp, s')
      | (s', None) \<Rightarrow> (VConsumed node record, s'))"
| "verify_step X now req (VConsumed node record, s) =
     (VDone (verify_finish X now req node record s), s)"
| "verify_step X now req (VDone resp, s) = (VDone resp, s)"

text \<open>A schedule is a list of request numbers; each entry advances that request by one step.\<close>

fun verify_run ::
  "server_ext \<Rightarrow> instant \<Rightarrow> VerifyRequest \<Rightarrow> nat list \<Rightarrow> (nat \<Rightarrow> verify_pc) \<times> AppState
     \<Rightarrow> (nat \<Rightarrow> verify_pc) \<times> AppState" where
  "verify_run X now req [] cfg = cfg"
| "verify_run X now req (i # is) (pcs, s) =
     (case verify_step X now req (pcs i, s) of
        (pc', s') \<Rightarrow> verify_run X now req is (pcs(i := pc'), s'))"

section \<open>Lemmas\<close>

lemma verify_load_Inr:
  "verify_load req s = Inr (node, record) \<longleftrightarrow>
     get_node_claim_by_id (st_db s) (vr_node_id req) = Ok node \<and> \<not> ncl_revoked node \<and>
     get_auth_challenge (st_db s) (vr_node_id req) (trim (vr_challenge req)) = Ok (Some record)"
  by (auto simp: verify_load_def split: outcome.splits option.splits if_splits)

lemma verify_load_not_ok: "verify_load req s \<noteq> Inl (VerifyOk v)"
  by (auto simp: verify_load_def split: outcome.splits option.splits if_splits)

lemma verify_consume_fields:
  "fst (verify_consume req s) =
     s\<lparr>st_db := fst (consume_auth_challenge (st_db s) (vr_node_id req) (trim (vr_challenge req)))\<rparr>"
  by (auto simp: verify_consume_def split: prod.splits outcome.splits)

lemma verify_consume_done:
  "snd (verify_consume req s) = None \<longleftrightarrow> \<not> db_down (st_db s) Q_consume_auth_challenge"
  by (auto simp: verify_consume_def consume_auth_challenge_def)

lemma verify_consume_not_ok: "snd (verify_consume req s) \<noteq> Some (VerifyOk v)"
  by (auto simp: verify_consume_def split: prod.splits outcome.splits)

lemma verify_ok_inv:
  assumes "verify_auth_challenge X now req s = (s', VerifyOk v)"
  obtains node rec where "verify_load req s = Inr (node, rec)"
    and "\<not> db_down (st_db s) Q_consume_auth_challenge"
    and "s' = fst (verify_consume req s)"
    and "verify_finish X now req node rec s' = VerifyOk v"
proof -
  from assms obtain node rec where load: "verify_load req s = Inr (node, rec)"
    by (auto simp: verify_auth_challenge_def verify_load_not_ok split: sum.splits)
  then have "verify_consume req s = (s', None) \<and> verify_finish X now req node rec s' = VerifyOk v"
    using assms verify_consume_not_ok [of req s v]
    by (auto simp: verify_auth_challenge_def split: prod.splits option.splits)
  then show thesis
    using that [OF load] verify_consume_done [of req s] by auto
qed

lemma verify_finish_ok:
  "verify_finish X now req node record s = VerifyOk v \<longleftrightarrow>
     now < ac_expires_at record \<and>
     verify_signature X (ncl_public_key node) (trim (vr_challenge req)) (trim (vr_signature req)) = Ok () \<and>
     issue_node_jwt X (st_env s) now (vr_node_id req) = Some (vs_access_token v, vs_expires_at v)"
  by (cases v)
    (auto simp: verify_finish_def not_le [symmetric] split: outcome.splits option.splits prod.splits)

text \<open>A challenge that is not stored cannot be verified.\<close>

lemma verify_needs_challenge:
  assumes "find (\<lambda>r. ac_node_id r = vr_node_id req \<and> ac_challenge r = trim (vr_challenge req))
             (t_auth_challenges (st_db s)) = None"
  shows "snd (verify_auth_challenge X now req s) \<noteq> VerifyOk v"
proof
  assume "snd (verify_auth_challenge X now req s) = VerifyOk v"
  then obtain s' where "verify_auth_challenge X now req s = (s', VerifyOk v)"
    by (metis prod.collapse)
  then obtain node rec where "verify_load req s = Inr (node, rec)"
    by (rule verify_ok_inv)
  with assms show False
    by (auto simp: verify_load_Inr get_auth_challenge_def fetch_optional_def split: if_splits)
qed

lemma consumed_challenge_gone:
  assumes "snd (verify_consume req s) = None"
  shows "find (\<lambda>r. ac_node_id r = vr_node_id req \<and> ac_challenge r = trim (vr_challenge req))
           (t_auth_challenges (st_db (fst (verify_consume req s)))) = None"
  using assms verify_consume_done [of req s]
  by (auto simp: verify_consume_fields consume_auth_challenge_def find_None_all)

lemma node_by_id_row:
  "get_node_claim_by_id db nid = Ok node \<longleftrightarrow>
     \<not> db_down db Q_get_node_claim_by_id \<and>
     (\<exists>row. node_by_id db nid = Some row \<and> node = node_claim_of row)"
  by (auto simp: get_node_claim_by_id_def fetch_one_def split: option.splits)

lemma get_auth_challenge_row:
  "get_auth_challenge db nid c = Ok (Some rec) \<Longrightarrow>
     rec \<in> set (t_auth_challenges db) \<and> ac_node_id rec = nid \<and> ac_challenge rec = c"
  by (auto simp: get_auth_challenge_def fetch_optional_def split: if_splits dest!: find_Some_set)

section \<open>Properties\<close>

text \<open>A request that succeeds in the example server.\<close>

definition example_verify_req :: VerifyRequest where
  "example_verify_req = \<lparr>vr_node_id = 1, vr_challenge = ''xyz'', vr_signature = ''xyz''\<rparr>"

definition example_verified :: VerifyResponse where
  "example_verified = \<lparr>vs_access_token = ''jwt1'', vs_expires_at = 50 + 3600 * nanos_per_sec\<rparr>"

lemma trim_example: "trim ''xyz'' = ''xyz''"
  by (simp add: trim_def trim_matches_def trim_end_matches_def is_whitespace_def)

lemma example_verify_load:
  "verify_load example_verify_req example_state =
     Inr (node_claim_of example_row, \<lparr>ac_node_id = 1, ac_challenge = ''xyz'', ac_expires_at = 100\<rparr>)"
  by (simp add: verify_load_Inr example_verify_req_def example_defs trim_example node_claim_of_def
      get_node_claim_by_id_def get_auth_challenge_def fetch_one_def fetch_optional_def node_by_id_def)

lemma example_issue:
  "issue_node_jwt example_ext (st_env example_state) 50 1 = Some (''jwt1'', 50 + 3600 * nanos_per_sec)"
  by (simp add: issue_node_jwt_def example_defs)

lemma example_signature:
  "verify_signature example_ext (row_public_key example_row) ''xyz'' ''xyz'' = Ok ()"
  by (simp add: verify_signature_def example_defs example_key_def)

lemma example_verify:
  "verify_auth_challenge example_ext 50 example_verify_req example_state
     = (fst (verify_consume example_verify_req example_state), VerifyOk example_verified)"
proof -
  have none: "snd (verify_consume example_verify_req example_state) = None"
    by (simp add: verify_consume_done example_defs)
  have "verify_finish example_ext 50 example_verify_req (node_claim_of example_row)
      \<lparr>ac_node_id = 1, ac_challenge = ''xyz'', ac_expires_at = 100\<rparr>
      (fst (verify_consume example_verify_req example_state)) = VerifyOk example_verified"
    using example_signature example_issue
    by (simp add: verify_finish_ok verify_consume_fields example_verify_req_def trim_example
        node_claim_of_def example_verified_def)
  then show ?thesis
    using none example_verify_load
    by (simp add: verify_auth_challenge_def case_prod_unfold)
qed

lemma example_challenge: "generate_challenge example_ext [120, 121, 122] = ''xyz''"
  by (simp add: generate_challenge_def example_ext_def char_of_def bit_iff_odd)

text \<open>
  C12: a verification request is answered with a token only if the node is registered and not
  revoked, the challenge is the one stored for that node and has not expired, and the signature
  over it verifies under the public key in the node's row; the token is the one issued for that
  node at that moment and the stored challenge is deleted.
\<close>

theorem verify_ok_sound:
  assumes "verify_auth_challenge X now req s = (s', VerifyOk v)"
  shows "\<exists>row rec. node_by_id (st_db s) (vr_node_id req) = Some row \<and> \<not> row_revoked row \<and>
     rec \<in> set (t_auth_challenges (st_db s)) \<and> ac_node_id rec = vr_node_id req \<and>
     ac_challenge rec = trim (vr_challenge req) \<and> now < ac_expires_at rec \<and>
     verify_signature X (row_public_key row) (trim (vr_challenge req)) (trim (vr_signature req)) = Ok () \<and>
     issue_node_jwt X (st_env s) now (vr_node_id req) = Some (vs_access_token v, vs_expires_at v) \<and>
     (\<forall>r \<in> set (t_auth_challenges (st_db s')).
        \<not> (ac_node_id r = vr_node_id req \<and> ac_challenge r = trim (vr_challenge req)))"
proof -
  obtain node rec where load: "verify_load req s = Inr (node, rec)"
    and up: "\<not> db_down (st_db s) Q_consume_auth_challenge"
    and s': "s' = fst (verify_consume req s)"
    and fin: "verify_finish X now req node rec s' = VerifyOk v"
    using assms by (rule verify_ok_inv)
  from load obtain row where row: "node_by_id (st_db s) (vr_node_id req) = Some row"
    "node = node_claim_of row" "\<not> row_revoked row"
    by (auto simp: verify_load_Inr node_by_id_row node_claim_of_def)
  have "snd (verify_consume req s) = None"
    using up by (simp add: verify_consume_done)
  note gone = consumed_challenge_gone [OF this, folded s']
  have "rec \<in> set (t_auth_challenges (st_db s)) \<and> ac_node_id rec = vr_node_id req \<and>
      ac_challenge rec = trim (vr_challenge req)"
    using load by (auto simp: verify_load_Inr dest: get_auth_challenge_row)
  moreover have "now < ac_expires_at rec \<and>
      verify_signature X (row_public_key row) (trim (vr_challenge req)) (trim (vr_signature req)) = Ok () \<and>
      issue_node_jwt X (st_env s) now (vr_node_id req) = Some (vs_access_token v, vs_expires_at v)"
    using fin row(2) by (simp add: verify_finish_ok s' verify_consume_fields node_claim_of_def)
  ultimately show ?thesis
    using row gone by (auto simp: find_None_all)
qed

theorem verify_ok_sound_witness:
  "\<exists>row rec. node_by_id (st_db example_state) 1 = Some row \<and> \<not> row_revoked row \<and>
     rec \<in> set (t_auth_challenges (st_db example_state)) \<and> 50 < ac_expires_at rec \<and>
     verify_signature example_ext (row_public_key row) ''xyz'' ''xyz'' = Ok ()"
  using verify_ok_sound [OF example_verify]
  by (auto simp: example_verify_req_def trim_example)

text \<open>
  Run one after the other, a challenge is good for one attempt: once a request has got
  past the deletion, whatever its signature was worth, no later request with the same challenge
  is given a token, at any time and with any signature.
\<close>

theorem challenge_one_time:
  assumes "verify_load req s = Inr (node, rec)"
    and "\<not> db_down (st_db s) Q_consume_auth_challenge"
    and "vr_node_id req' = vr_node_id req" "trim (vr_challenge req') = trim (vr_challenge req)"
  shows "snd (verify_auth_challenge X now' req' (fst (verify_auth_challenge X now req s))) \<noteq> VerifyOk v"
proof -
  have none: "snd (verify_consume req s) = None"
    using assms(2) by (simp add: verify_consume_done)
  then have "fst (verify_auth_challenge X now req s) = fst (verify_consume req s)"
    using assms(1) by (auto simp: verify_auth_challenge_def split: prod.splits)
  then show ?thesis
    using consumed_challenge_gone [OF none] assms(3,4) verify_needs_challenge by simp
qed

theorem challenge_one_time_witness:
  "snd (verify_auth_challenge example_ext 50 example_verify_req
     (fst (verify_auth_challenge example_ext 50 example_verify_req example_state)))
     \<noteq> VerifyOk example_verified"
  by (rule challenge_one_time [OF example_verify_load]) (simp_all add: example_defs)

text \<open>
  C28: interleaved, it is not: the deletion does not check that a row was there, so two
  copies of a request that would succeed alone both obtain a token when each loads the challenge
  before either deletes it.
\<close>

theorem challenge_replay_interleaved:
  assumes "verify_auth_challenge X now req s = (s', VerifyOk v)"
  shows "fst (verify_run X now req [0, 1, 0, 1, 0, 1] (\<lambda>_. VStart, s)) 0 = VDone (VerifyOk v) \<and>
         fst (verify_run X now req [0, 1, 0, 1, 0, 1] (\<lambda>_. VStart, s)) 1 = VDone (VerifyOk v)"
proof -
  obtain node rec where load: "verify_load req s = Inr (node, rec)"
    and up: "\<not> db_down (st_db s) Q_consume_auth_challenge"
    and s': "s' = fst (verify_consume req s)"
    and fin: "verify_finish X now req node rec s' = VerifyOk v"
    using assms by (rule verify_ok_inv)
  have c1: "verify_consume req s = (s', None)"
    using up s' verify_consume_done [of req s] by (simp add: prod_eq_iff)
  have up': "\<not> db_down (st_db s') Q_consume_auth_challenge"
    using up by (simp add: s' verify_consume_fields consume_auth_challenge_def)
  define s'' where "s'' = fst (verify_consume req s')"
  have c2: "verify_consume req s' = (s'', None)"
    using up' verify_consume_done [of req s'] by (simp add: s''_def prod_eq_iff)
  have "verify_finish X now req node rec s'' = VerifyOk v"
    using fin by (simp add: verify_finish_ok s''_def s' verify_consume_fields)
  with load c1 c2 fin show ?thesis
    by simp
qed

theorem challenge_replay_interleaved_witness:
  "fst (verify_run example_ext 50 example_verify_req [0, 1, 0, 1, 0, 1] (\<lambda>_. VStart, example_state)) 0
     = VDone (VerifyOk example_verified) \<and>
   fst (verify_run example_ext 50 example_verify_req [0, 1, 0, 1, 0, 1] (\<lambda>_. VStart, example_state)) 1
     = VDone (VerifyOk example_verified)"
  by (rule challenge_replay_interleaved [OF example_verify])

text \<open>
  Advancing one request through its three phases without interruption is exactly the
  handler.
\<close>

theorem verify_phases_refine_handler:
  "verify_run X now req [i, i, i] (\<lambda>_. VStart, s) =
     ((\<lambda>_. VStart)(i := VDone (snd (verify_auth_challenge X now req s))),
      fst (verify_auth_challenge X now req s))"
  by (auto simp: verify_auth_challenge_def split: sum.splits prod.splits option.splits)

text \<open>
  Asking for a challenge tells nothing about the node: with the database available the
  answer is the fresh challenge for every identifier, and unless the node is registered and not
  revoked nothing is stored.
\<close>

theorem challenge_uniform_response:
  assumes "\<not> db_down (st_db s) Q_get_node_claim_by_id_optional"
    and "\<not> db_down (st_db s) Q_upsert_auth_challenge"
  shows "snd (create_auth_challenge X random now node_id s) = ChallengeOk (generate_challenge X random) \<and>
    ((case node_by_id (st_db s) node_id of None \<Rightarrow> True | Some row \<Rightarrow> row_revoked row) \<longrightarrow>
       fst (create_auth_challenge X random now node_id s) = s)"
  using assms
  by (auto simp: create_auth_challenge_def get_node_claim_by_id_optional_def fetch_optional_def
      upsert_auth_challenge_def Let_def node_claim_of_def split: option.splits)

theorem challenge_uniform_response_witness:
  "snd (create_auth_challenge example_ext [120, 121, 122] 0 2 example_state) = ChallengeOk ''xyz'' \<and>
   fst (create_auth_challenge example_ext [120, 121, 122] 0 2 example_state) = example_state"
proof -
  have "node_by_id (st_db example_state) 2 = None" "\<And>q. \<not> db_down (st_db example_state) q"
    by (simp_all add: example_defs node_by_id_def)
  then show ?thesis
    using challenge_uniform_response [of example_state example_ext "[120, 121, 122]" 0 2]
    by (simp add: example_challenge)
qed

text \<open>
  The protocol completes: after a challenge was created for a registered, unrevoked node and
  while it is fresh, a request carrying it with a signature that verifies under the node's key
  is answered with a token for that node.
\<close>

lemma challenge_then_verify:
  assumes "db_wf (st_db s)" and up: "\<And>q. \<not> db_down (st_db s) q"
    and row: "node_by_id (st_db s) nid = Some row" "\<not> row_revoked row"
    and ch: "trim (generate_challenge X random) = generate_challenge X random"
    and fresh: "now' < now + env_challenge_ttl_secs (st_env s) * nanos_per_sec"
    and sig: "verify_signature X (row_public_key row) (generate_challenge X random) (trim sg) = Ok ()"
    and jwt: "issue_node_jwt X (st_env s) now' nid = Some (tok, e)"
  shows "snd (verify_auth_challenge X now'
      \<lparr>vr_node_id = nid, vr_challenge = generate_challenge X random, vr_signature = sg\<rparr>
      (fst (create_auth_challenge X random now nid s)))
    = VerifyOk \<lparr>vs_access_token = tok, vs_expires_at = e\<rparr>"
proof -
  let ?c = "generate_challenge X random"
  let ?exp = "now + env_challenge_ttl_secs (st_env s) * nanos_per_sec"
  let ?db = "fst (upsert_auth_challenge (st_db s) nid ?c ?exp)"
  let ?req = "\<lparr>vr_node_id = nid, vr_challenge = ?c, vr_signature = sg\<rparr>"
  have nid: "row_id row = nid"
    using row(1) by (auto simp: node_by_id_def dest: find_Some_set)
  have created: "fst (create_auth_challenge X random now nid s) = s\<lparr>st_db := ?db\<rparr>"
    using up row nid
    by (auto simp: create_auth_challenge_def get_node_claim_by_id_optional_def fetch_optional_def
        node_claim_of_def upsert_auth_challenge_def Let_def)
  have same: "t_nodes ?db = t_nodes (st_db s)" "db_down ?db = db_down (st_db s)"
    using up by (simp_all add: upsert_auth_challenge_def Let_def)
  have "verify_load ?req (s\<lparr>st_db := ?db\<rparr>)
      = Inr (node_claim_of row, \<lparr>ac_node_id = nid, ac_challenge = ?c, ac_expires_at = ?exp\<rparr>)"
    using get_challenge_after_upsert [OF assms(1) up up, of nid ?c ?exp] row same up ch
    by (simp add: verify_load_Inr node_by_id_row node_by_id_def node_claim_of_def)
  moreover have "verify_consume ?req (s\<lparr>st_db := ?db\<rparr>)
      = (fst (verify_consume ?req (s\<lparr>st_db := ?db\<rparr>)), None)"
    using verify_consume_done [of ?req "s\<lparr>st_db := ?db\<rparr>"] up same by (simp add: prod_eq_iff)
  ultimately show ?thesis
    using fresh sig jwt ch
    by (simp add: created verify_auth_challenge_def verify_finish_ok verify_consume_fields
        node_claim_of_def case_prod_unfold)
qed

text \<open>
  The heartbeat endpoint changes the time stamp of the authenticated node and of no other
  row; without a valid bearer token for a registered, unrevoked node it changes nothing.
\<close>

theorem heartbeat_touches_own_row:
  "case extract_bearer_token headers of
     Ok token \<Rightarrow>
       (case authenticate_node_jwt X now s token of
          Ok auth \<Rightarrow>
            st_db (fst (require_node_jwt X now headers (heartbeat now) s)) =
              (if db_down (st_db s) Q_touch_node_last_seen then st_db s
               else (st_db s)\<lparr>t_nodes := map (\<lambda>r. if row_id r = an_node_id auth
                      then r\<lparr>row_last_seen := Some now\<rparr> else r) (t_nodes (st_db s))\<rparr>)
        | _ \<Rightarrow> require_node_jwt X now headers (heartbeat now) s = (s, Failure 401 ''''))
   | _ \<Rightarrow> require_node_jwt X now headers (heartbeat now) s = (s, Failure 401 '''')"
  by (auto simp: require_node_jwt_def heartbeat_def touch_node_last_seen_def split: outcome.splits)

end
