(* ===== verification/Server_Node.thy ===== *)
theory Server_Node
  imports Node_Auth
begin

text \<open>
  The node side of the server (\<open>server/src/node.rs\<close>): the websocket a node keeps open, from
  its authentication frame over the message loop to the clean-up, and the HTTP endpoint that
  claims a node. A websocket task is a function of the events its stream yields; its writer
  task is \<open>write_step\<close>, one frame at a time.
\<close>

section \<open>Authentication of the socket\<close>

datatype node_ws_error =
    ClosedBeforeAuth | ExpectedBinary | StreamError
  | AuthFrame frame_decode_error | ExpectedNodeFrame | ExpectedAuth
  | AuthResponseNotSent | JwtFailed auth_error | JwtNodeMismatch uuid
  | RevokedNode | MissingNode | NodeDbError db_error

text \<open>
  Every rejection after the frame was read queues an \<open>AuthResponse\<close> on the channel first; if
  that send fails, its error is the one reported.
\<close>

definition reject_node ::
  "server_ext \<Rightarrow> chan_id \<Rightarrow> uuid \<Rightarrow> node_ws_error \<Rightarrow> AppState \<Rightarrow> AppState \<times> (node_ws_error, uuid) outcome" where
  "reject_node X tx nid err s =
     (case send_to_node tx (NAuthResponse nid False (x_version X)) s of
        (s', True) \<Rightarrow> (s', Err err)
      | (s', False) \<Rightarrow> (s', Err AuthResponseNotSent))"

definition wait_for_node_auth ::
  "server_ext \<Rightarrow> instant \<Rightarrow> chan_id \<Rightarrow> ws_event list \<Rightarrow> AppState
     \<Rightarrow> AppState \<times> (node_ws_error, uuid) outcome" where
  "wait_for_node_auth X now tx evs s =
     (case evs of
        [] \<Rightarrow> (s, Err ClosedBeforeAuth)
      | WsError # _ \<Rightarrow> (s, Err StreamError)
      | WsClose # _ \<Rightarrow> (s, Err ClosedBeforeAuth)
      | WsOther # _ \<Rightarrow> (s, Err ExpectedBinary)
      | WsBinary data # _ \<Rightarrow>
          (case Frame_decode Native64 (x_codec X) data of
             Panic \<Rightarrow> (s, Panic)
           | Err e \<Rightarrow> (s, Err (AuthFrame e))
           | Ok frame \<Rightarrow>
               (case fr_data frame of
                  Web _ \<Rightarrow> (s, Err ExpectedNodeFrame)
                | Node (NAuth token node_id _) \<Rightarrow>
                    (case authenticate_node_jwt X now s token of
                       Err e \<Rightarrow> reject_node X tx uuid_nil (JwtFailed e) s
                     | Panic \<Rightarrow> (s, Panic)
                     | Ok auth \<Rightarrow>
                         if an_node_id auth \<noteq> node_id
                         then reject_node X tx (an_node_id auth) (JwtNodeMismatch (an_node_id auth)) s
                         else
                           (case get_node_claim_by_id_optional (st_db s) (an_node_id auth) of
                              Ok (Some node_claim) \<Rightarrow>
                                if ncl_revoked node_claim
                                then reject_node X tx (an_node_id auth) RevokedNode s
                                else
                                  (case send_to_node tx (NAuthResponse (an_node_id auth) True (x_version X)) s of
                                     (s', True) \<Rightarrow> (s', Ok node_id)
                                   | (s', False) \<Rightarrow> (s', Err AuthResponseNotSent))
                            | Ok None \<Rightarrow> reject_node X tx (an_node_id auth) MissingNode s
                            | Err e \<Rightarrow> reject_node X tx (an_node_id auth) (NodeDbError e) s
                            | Panic \<Rightarrow> (s, Panic)))
                | Node _ \<Rightarrow> (s, Err ExpectedAuth))))"

section \<open>Message handlers\<close>

definition handle_frame_response :: "NodeFrameData \<Rightarrow> uuid \<Rightarrow> AppState \<Rightarrow> AppState" where
  "handle_frame_response node_frame node_id s =
     (case node_frame of
        NWebFrame frame fid \<Rightarrow>
          (case fid of
             ConnectionId cid \<Rightarrow> fst (notify_client_by_cid cid frame s)
           | SessionId sid \<Rightarrow>
               (case get_connection_id_by_sid s sid node_id of
                  Ok cid \<Rightarrow> fst (notify_client_by_cid cid frame s)
                | _ \<Rightarrow> s))
      | _ \<Rightarrow> s)"

definition handle_tunnel_closed :: "u8 \<Rightarrow> uuid \<Rightarrow> u32 \<Rightarrow> uuid \<Rightarrow> msg_id \<Rightarrow> AppState \<Rightarrow> AppState" where
  "handle_tunnel_closed protocol cid sid node_id mid s =
     (let s1 = s\<lparr>st_tunnel_sessions :=
                   dm_remove (TunnelSessionKey_new node_id sid) (st_tunnel_sessions s)\<rparr>
      in fst (notify_client_by_cid cid (WTunnelClosed protocol sid mid) s1))"

definition handle_tunnel_opened :: "u8 \<Rightarrow> uuid \<Rightarrow> u32 \<Rightarrow> uuid \<Rightarrow> msg_id \<Rightarrow> AppState \<Rightarrow> AppState" where
  "handle_tunnel_opened protocol cid sid node_id mid s =
     (let s1 = s\<lparr>st_tunnel_sessions :=
                   dm_insert (TunnelSessionKey_new node_id sid) (cid, node_id) (st_tunnel_sessions s)\<rparr>
      in fst (notify_client_by_cid cid (WTunnelOpened protocol sid mid) s1))"

text \<open>
  \<open>notify_all_clients_for_closed_tunnel\<close>: collect the sessions of the node, then for each
  remove the entry and tell its client; the count is a \<open>u32\<close> of the successful sends.
\<close>

fun close_sessions ::
  "(TunnelSessionKey \<times> uuid \<times> uuid) list \<Rightarrow> u32 \<Rightarrow> AppState \<Rightarrow> AppState \<times> u32" where
  "close_sessions [] count s = (s, count)"
| "close_sessions ((key, cid, _) # rest) count s =
     (let s1 = s\<lparr>st_tunnel_sessions := dm_remove key (st_tunnel_sessions s)\<rparr>
      in case notify_client_by_cid cid (WTunnelClosed 0 (tsk_sid key) None) s1 of
           (s2, r) \<Rightarrow> close_sessions rest (if is_ok r then count + 1 else count) s2)"

definition notify_all_clients_for_closed_tunnel :: "uuid \<Rightarrow> AppState \<Rightarrow> AppState \<times> u32" where
  "notify_all_clients_for_closed_tunnel nid s =
     close_sessions
       (filter (\<lambda>(key, _). tsk_node_id key = nid) (dm_iter (st_tunnel_sessions s))) 0 s"

definition disconnect_node :: "server_ext \<Rightarrow> uuid \<Rightarrow> AppState \<Rightarrow> AppState" where
  "disconnect_node X nid s =
     (case dm_get (st_nodes s) nid of
        None \<Rightarrow> s
      | Some info \<Rightarrow>
          (let s1 = s\<lparr>st_nodes := dm_remove nid (st_nodes s)\<rparr>;
               s2 = s1\<lparr>st_memory_db :=
                        fst (set_node_disconnected X (nc_node_record info) (st_memory_db s1))\<rparr>
           in fst (notify_all_clients_for_closed_tunnel nid s2)))"

datatype heartbeat_error = NodeNotFound uuid

definition handle_node_heartbeat ::
  "server_ext \<Rightarrow> instant \<Rightarrow> uuid \<Rightarrow> Stats \<Rightarrow> u64 \<Rightarrow> AppState
     \<Rightarrow> AppState \<times> (heartbeat_error, unit) outcome" where
  "handle_node_heartbeat X now node_id stats sent_at s =
     (case dm_get (st_nodes s) node_id of
        None \<Rightarrow> (s, Err (NodeNotFound node_id))
      | Some info \<Rightarrow>
          (let received = now_millis now;
               latency = saturating_sub received sent_at;
               s1 = fst (send_to_node (nc_tx info) (NHeartbeatAck sent_at received) s)
           in case get_extended_stats X now info latency of
                None \<Rightarrow> (s1, Ok ())
              | Some extended_stats \<Rightarrow>
                  (case update_node_stats X (nc_node_record info) (st_server s1) extended_stats
                          (st_memory_db s1) of
                     (m, False) \<Rightarrow> (s1\<lparr>st_memory_db := m\<rparr>, Ok ())
                   | (m, True) \<Rightarrow>
                       (let node' = (nc_node info)\<lparr>nd_last_stats := Some stats, nd_last_heartbeat := now\<rparr>
                        in (s1\<lparr>st_memory_db := m,
                               st_nodes := dm_insert node_id (info\<lparr>nc_node := node'\<rparr>) (st_nodes s1)\<rparr>,
                            Ok ())))))"

section \<open>The socket task\<close>

text \<open>
  One round of the loop in \<open>handle_node_messages\<close>: the new state and whether the loop
  goes on.
\<close>

definition handle_node_frame ::
  "server_ext \<Rightarrow> instant \<Rightarrow> uuid \<Rightarrow> NodeFrameData \<Rightarrow> AppState \<Rightarrow> AppState \<times> bool" where
  "handle_node_frame X now node_id node_frame s =
     (case node_frame of
        NHeartbeat stats sent_at \<Rightarrow>
          (case handle_node_heartbeat X now node_id stats sent_at s of (s', r) \<Rightarrow> (s', is_ok r))
      | NAuth _ _ _ \<Rightarrow> (s, True)
      | NTunnelOpened protocol cid sid mid \<Rightarrow>
          (handle_tunnel_opened protocol cid sid node_id mid s, True)
      | NWebFrame _ _ \<Rightarrow> (handle_frame_response node_frame node_id s, True)
      | NTunnelClosed protocol cid sid mid \<Rightarrow>
          (handle_tunnel_closed protocol cid sid node_id mid s, True)
      | _ \<Rightarrow> (s, True))"

definition handle_node_event ::
  "server_ext \<Rightarrow> instant \<Rightarrow> uuid \<Rightarrow> ws_event \<Rightarrow> AppState \<Rightarrow> AppState \<times> bool" where
  "handle_node_event X now node_id ev s =
     (case ev of
        WsError \<Rightarrow> (s, False)
      | WsClose \<Rightarrow> (s, False)
      | WsOther \<Rightarrow> (s, True)
      | WsBinary data \<Rightarrow>
          (case Frame_decode Native64 (x_codec X) data of
             Ok frame \<Rightarrow>
               (case fr_data frame of
                  Node node_frame \<Rightarrow> handle_node_frame X now node_id node_frame s
                | Web _ \<Rightarrow> (s, False))
           | _ \<Rightarrow> (s, False)))"

text \<open>Every event carries the clock at which it is handled.\<close>

fun handle_node_messages ::
  "server_ext \<Rightarrow> uuid \<Rightarrow> (instant \<times> ws_event) list \<Rightarrow> AppState \<Rightarrow> AppState" where
  "handle_node_messages X node_id [] s = s"
| "handle_node_messages X node_id ((now, ev) # evs) s =
     (case handle_node_event X now node_id ev s of
        (s', True) \<Rightarrow> handle_node_messages X node_id evs s'
      | (s', False) \<Rightarrow> s')"

text \<open>
  The first half of \<open>handle_node_socket\<close>: create the channel, authenticate, load the
  record, publish and register. On failure the function returns, which drops both ends of the
  channel; the writer task was not spawned yet.
\<close>

definition alloc_node_chan :: "AppState \<Rightarrow> AppState \<times> chan_id" where
  "alloc_node_chan s =
     (s\<lparr>st_node_chans := (st_node_chans s)(st_next_chan s := chan_new 256),
        st_next_chan := st_next_chan s + 1\<rparr>, st_next_chan s)"

definition close_node_chan :: "chan_id \<Rightarrow> AppState \<Rightarrow> AppState" where
  "close_node_chan tx s =
     s\<lparr>st_node_chans := (st_node_chans s)(tx := chan_close (st_node_chans s tx))\<rparr>"

definition node_socket_open ::
  "server_ext \<Rightarrow> instant \<Rightarrow> IpAddr \<Rightarrow> ws_event list \<Rightarrow> AppState \<Rightarrow> AppState \<times> (uuid \<times> chan_id) option" where
  "node_socket_open X now ip evs s =
     (case alloc_node_chan s of
        (s0, tx) \<Rightarrow>
          (case wait_for_node_auth X now tx evs s0 of
             (s1, Ok node_id) \<Rightarrow>
               (case get_node_by_id (st_db s1) node_id of
                  Ok node_record \<Rightarrow>
                    (let m = fst (set_node_connected X node_record (st_server s1) (st_memory_db s1));
                         conn = NodeConnection_new now (st_id s1) ip tx node_record
                     in (s1\<lparr>st_memory_db := m, st_nodes := dm_insert node_id conn (st_nodes s1)\<rparr>,
                         Some (node_id, tx)))
                | _ \<Rightarrow> (close_node_chan tx s1, None))
           | (s1, _) \<Rightarrow> (close_node_chan tx s1, None)))"

text \<open>The writer task takes one frame off the channel and writes it; an error ends it.\<close>

definition node_write_step ::
  "server_ext \<Rightarrow> chan_id \<Rightarrow> AppState \<Rightarrow> (AppState \<times> bytes option) option" where
  "node_write_step X tx s =
     (case chan_recv (st_node_chans s tx) of
        None \<Rightarrow> None
      | Some (f, c) \<Rightarrow>
          (let s' = s\<lparr>st_node_chans := (st_node_chans s)(tx := c)\<rparr>
           in case Frame_encode (x_codec X) (Frame_from_node f) of
                Ok bs \<Rightarrow> Some (s', Some bs)
              | _ \<Rightarrow> Some (close_node_chan tx s', None)))"

definition node_socket_end :: "server_ext \<Rightarrow> uuid \<Rightarrow> chan_id \<Rightarrow> AppState \<Rightarrow> AppState" where
  "node_socket_end X node_id tx s = disconnect_node X node_id (close_node_chan tx s)"

definition handle_node_socket ::
  "server_ext \<Rightarrow> instant \<Rightarrow> IpAddr \<Rightarrow> ws_event list \<Rightarrow> (instant \<times> ws_event) list \<Rightarrow> AppState \<Rightarrow> AppState" where
  "handle_node_socket X now ip first rest s =
     (case node_socket_open X now ip first s of
        (s1, None) \<Rightarrow> s1
      | (s1, Some (node_id, tx)) \<Rightarrow>
          node_socket_end X node_id tx (handle_node_messages X node_id rest s1))"

section \<open>Claiming a node\<close>

record ClaimNodeRequest =
  cn_public_key :: string
  cn_hostname :: string
  cn_metadata :: json

datatype CredentialValidationError = Unauthorized string | Internal string

definition validate_creds ::
  "server_ext \<Rightarrow> instant \<Rightarrow> Database \<Rightarrow> string \<Rightarrow> string \<Rightarrow> (CredentialValidationError, TokenRecord) outcome" where
  "validate_creds X now db token_id token_secret =
     (case get_token_by_id db token_id of
        Ok rec \<Rightarrow>
          if (case tk_expires_at rec of Some e \<Rightarrow> e < now | None \<Rightarrow> False)
          then Err (Unauthorized ''token has expired'')
          else if \<not> x_password_hash_parses X (tk_token_hash rec)
          then Err (Internal ''failed to parse stored password hash'')
          else if x_verify_password X token_secret (tk_token_hash rec) then Ok rec
          else Err (Unauthorized ''failed to verify token'')
      | _ \<Rightarrow> Err (Internal ''failed to validate token''))"

definition claim_node ::
  "server_ext \<Rightarrow> instant \<Rightarrow> uuid \<Rightarrow> HeaderMap \<Rightarrow> ClaimNodeRequest \<Rightarrow> AppState \<Rightarrow> AppState \<times> response" where
  "claim_node X now new_id headers payload s =
     (let key = trim (cn_public_key payload); hostname = trim (cn_hostname payload) in
      if key = [] then (s, Failure 400 ''BAD_REQUEST_PUBLIC_KEY_REQUIRED'')
      else if hostname = [] then (s, Failure 400 ''BAD_REQUEST_HOSTNAME_REQUIRED'')
      else case extract_bearer_token headers of
        Ok bearer \<Rightarrow>
          (case extract_creds bearer of
             Ok (token_id, token_secret) \<Rightarrow>
               (case validate_creds X now (st_db s) token_id token_secret of
                  Ok token \<Rightarrow>
                    if ''server:register'' \<notin> set (tk_scopes token)
                    then (s, Failure 401 ''AUTH_SCOPE_MISSING'')
                    else
                      (case get_node_by_public_key (st_db s) key of
                         Ok existing \<Rightarrow>
                           if (case existing of Some n \<Rightarrow> ncl_user_id n \<noteq> tk_user_id token | None \<Rightarrow> False)
                           then (s, Failure 401 ''CLAIM_PUBLIC_KEY_OWNERSHIP_CONFLICT'')
                           else
                             (case claim_node_by_public_key (st_db s) new_id now (tk_user_id token)
                                     key hostname (cn_metadata payload) of
                                (db', Ok node) \<Rightarrow> (s\<lparr>st_db := db'\<rparr>, ClaimOk (ncl_id node))
                              | (db', _) \<Rightarrow> (s\<lparr>st_db := db'\<rparr>, Failure 500 ''CLAIM_WRITE_FAILED''))
                       | _ \<Rightarrow> (s, Failure 500 ''CLAIM_LOOKUP_FAILED''))
                | Err (Unauthorized _) \<Rightarrow> (s, Failure 401 ''AUTH_TOKEN_UNAUTHORIZED'')
                | _ \<Rightarrow> (s, Failure 500 ''AUTH_TOKEN_VALIDATION_FAILED''))
           | _ \<Rightarrow> (s, Failure 401 ''AUTH_TOKEN_FORMAT_INVALID''))
      | _ \<Rightarrow> (s, Failure 401 ''AUTH_HEADER_INVALID''))"

section \<open>Lemmas\<close>

lemma close_sessions_fields [srv_simps]:
  "st_id (fst (close_sessions L n s)) = st_id s"
  "st_server (fst (close_sessions L n s)) = st_server s"
  "st_env (fst (close_sessions L n s)) = st_env s"
  "st_db (fst (close_sessions L n s)) = st_db s"
  "st_memory_db (fst (close_sessions L n s)) = st_memory_db s"
  "st_nodes (fst (close_sessions L n s)) = st_nodes s"
  "st_connections (fst (close_sessions L n s)) = st_connections s"
  "st_node_chans (fst (close_sessions L n s)) = st_node_chans s"
  "st_next_chan (fst (close_sessions L n s)) = st_next_chan s"
  by (induction L n s rule: close_sessions.induct)
    (simp_all add: Let_def case_prod_unfold srv_simps)

lemma close_sessions_removes:
  "st_tunnel_sessions (fst (close_sessions L n s)) = fold dm_remove (map fst L) (st_tunnel_sessions s)"
  by (induction L n s rule: close_sessions.induct)
    (simp_all add: Let_def case_prod_unfold srv_simps)

lemma close_sessions_queue:
  "web_queue (fst (close_sessions L n s)) tx = web_queue s tx @
     map (\<lambda>(key, _). WTunnelClosed 0 (tsk_sid key) None)
       (filter (\<lambda>(_, cid, _). client_chan s cid = Some tx) L)"
  by (induction L n s rule: close_sessions.induct)
    (simp_all add: Let_def case_prod_unfold srv_simps notify_queue)

lemma close_sessions_count:
  "snd (close_sessions L n s)
     = n + word_of_nat (length (filter (\<lambda>(_, cid, _). client_chan s cid \<noteq> None) L))"
  by (induction L arbitrary: n s)
    (auto simp: Let_def case_prod_unfold srv_simps notify_result)

text \<open>Collecting the sessions of a node and removing them leaves exactly the others.\<close>

lemma close_node_sessions:
  assumes "dm_wf (st_tunnel_sessions s)"
  shows "dm_get (st_tunnel_sessions (fst (notify_all_clients_for_closed_tunnel nid s))) key
       = (if tsk_node_id key = nid then None else dm_get (st_tunnel_sessions s) key)"
  using dm.collect_then_remove [OF assms, of "\<lambda>key _. tsk_node_id key = nid" key]
  by (auto simp: notify_all_clients_for_closed_tunnel_def close_sessions_removes
      dm.get_retain [OF assms] split: option.splits)

lemma notify_all_fields [srv_simps]:
  "st_nodes (fst (notify_all_clients_for_closed_tunnel nid s)) = st_nodes s"
  "st_connections (fst (notify_all_clients_for_closed_tunnel nid s)) = st_connections s"
  "st_memory_db (fst (notify_all_clients_for_closed_tunnel nid s)) = st_memory_db s"
  "st_node_chans (fst (notify_all_clients_for_closed_tunnel nid s)) = st_node_chans s"
  "st_next_chan (fst (notify_all_clients_for_closed_tunnel nid s)) = st_next_chan s"
  "st_db (fst (notify_all_clients_for_closed_tunnel nid s)) = st_db s"
  by (simp_all add: notify_all_clients_for_closed_tunnel_def srv_simps)

lemma notify_all_wf:
  assumes "state_wf s"
  shows "state_wf (fst (notify_all_clients_for_closed_tunnel nid s))"
proof (rule state_wf_intro [OF assms])
  show "sessions_keyed (fst (notify_all_clients_for_closed_tunnel nid s))"
    using assms close_node_sessions [of s nid]
    by (auto simp: state_wf_def sessions_keyed_def split: if_splits)
  show "dm_wf (st_tunnel_sessions (fst (notify_all_clients_for_closed_tunnel nid s)))"
    using assms
    by (simp add: notify_all_clients_for_closed_tunnel_def close_sessions_removes state_wf_def
        dm.wf_remove_all)
qed (use assms in \<open>auto simp: srv_simps state_wf_def chans_allocated_def chans_separate_def\<close>)

lemma disconnect_node_wf:
  assumes "state_wf s"
  shows "state_wf (disconnect_node X nid s)"
proof (cases "dm_get (st_nodes s) nid")
  case (Some info)
  define s2 where "s2 = s\<lparr>st_nodes := dm_remove nid (st_nodes s),
    st_memory_db := fst (set_node_disconnected X (nc_node_record info) (st_memory_db s))\<rparr>"
  have "state_wf s2"
    by (rule state_wf_intro [OF assms])
      (use assms in \<open>auto simp: s2_def state_wf_def chans_allocated_def chans_separate_def sessions_keyed_def
        dm_simps dm.wf_remove split: if_splits\<close>)
  then show ?thesis
    using Some notify_all_wf by (simp add: disconnect_node_def s2_def Let_def)
qed (use assms in \<open>simp add: disconnect_node_def\<close>)

lemma tunnel_insert_wf:
  assumes "state_wf s"
  shows "state_wf (s\<lparr>st_tunnel_sessions :=
    dm_insert (TunnelSessionKey_new nid sid) (cid, nid) (st_tunnel_sessions s)\<rparr>)"
  by (rule state_wf_intro [OF assms])
    (use assms in \<open>auto simp: state_wf_def chans_allocated_def chans_separate_def sessions_keyed_def dm_simps
      dm.wf_insert TunnelSessionKey_new_def split: if_splits\<close>)

lemma tunnel_remove_wf:
  assumes "state_wf s"
  shows "state_wf (s\<lparr>st_tunnel_sessions := dm_remove key (st_tunnel_sessions s)\<rparr>)"
  by (rule state_wf_intro [OF assms])
    (use assms in \<open>auto simp: state_wf_def chans_allocated_def chans_separate_def sessions_keyed_def dm_simps
      dm.wf_remove split: if_splits\<close>)

lemma node_update_wf:
  assumes "state_wf s" "dm_get (st_nodes s) nid = Some info" "nc_tx info' = nc_tx info"
  shows "state_wf (s\<lparr>st_memory_db := m, st_nodes := dm_insert nid info' (st_nodes s)\<rparr>)"
  by (rule state_wf_intro [OF assms(1)])
    (use assms in \<open>auto simp: state_wf_def chans_allocated_def chans_separate_def sessions_keyed_def dm_simps
      dm.wf_insert split: if_splits\<close>)

lemma heartbeat_wf:
  assumes "state_wf s"
  shows "state_wf (fst (handle_node_heartbeat X now nid stats sent_at s))"
proof (cases "dm_get (st_nodes s) nid")
  case (Some info)
  define s1 where "s1 = fst (send_to_node (nc_tx info) (NHeartbeatAck sent_at (now_millis now)) s)"
  have "state_wf s1" "dm_get (st_nodes s1) nid = Some info"
    using assms Some by (simp_all add: s1_def state_wf_send_to_node srv_simps)
  then show ?thesis
    using Some
    by (auto simp: handle_node_heartbeat_def s1_def [symmetric] Let_def node_update_wf
        split: option.splits prod.splits bool.splits)
qed (use assms in \<open>simp add: handle_node_heartbeat_def\<close>)

lemma handle_frame_response_wf: "state_wf s \<Longrightarrow> state_wf (handle_frame_response f nid s)"
  by (simp add: handle_frame_response_def state_wf_notify
      split: NodeFrameData.splits WebFrameId.splits outcome.splits)

lemma handle_node_frame_wf:
  assumes "state_wf s"
  shows "state_wf (fst (handle_node_frame X now nid f s))"
  using assms heartbeat_wf [OF assms]
  by (cases f)
    (simp_all add: handle_node_frame_def handle_tunnel_opened_def handle_tunnel_closed_def
      state_wf_notify tunnel_insert_wf tunnel_remove_wf handle_frame_response_wf case_prod_unfold)

lemma handle_node_event_wf:
  "state_wf s \<Longrightarrow> state_wf (fst (handle_node_event X now nid ev s))"
  by (auto simp: handle_node_event_def handle_node_frame_wf
      split: ws_event.splits outcome.splits FrameData.splits)

lemma handle_node_messages_wf:
  "state_wf s \<Longrightarrow> state_wf (handle_node_messages X nid evs s)"
proof (induction X nid evs s rule: handle_node_messages.induct)
  case (2 X nid now ev evs s)
  then show ?case
    using handle_node_event_wf [OF 2(2), of X now nid ev]
    by (auto split: prod.splits bool.splits)
qed simp

lemma reject_node_Err: "\<exists>e. snd (reject_node X tx nid err s) = Err e"
  by (auto simp: reject_node_def split: prod.splits bool.splits)

lemma reject_node_state: "fst (reject_node X tx nid err s)
    = fst (send_to_node tx (NAuthResponse nid False (x_version X)) s)"
  by (auto simp: reject_node_def split: prod.splits bool.splits)

text \<open>Authentication sends at most one frame, on the socket's own channel.\<close>

lemma wait_for_node_auth_state:
  "fst (wait_for_node_auth X now tx evs s) = s \<or>
   (\<exists>f. fst (wait_for_node_auth X now tx evs s) = fst (send_to_node tx f s))"
proof (cases evs)
  case (Cons ev rest)
  then show ?thesis
  proof (cases ev)
    case (WsBinary data)
    with Cons show ?thesis
      by (auto simp: wait_for_node_auth_def reject_node_state
          split: outcome.splits FrameData.splits NodeFrameData.splits option.splits prod.splits bool.splits)
        (metis fst_conv)+
  qed (simp_all add: wait_for_node_auth_def)
qed (simp add: wait_for_node_auth_def)

lemma wait_for_node_auth_Ok:
  assumes "wait_for_node_auth X now tx evs s = (s', Ok nid)"
  obtains data rest frame token version claims row
  where "evs = WsBinary data # rest" "Frame_decode Native64 (x_codec X) data = Ok frame"
    and "fr_data frame = Node (NAuth token nid version)"
    and "x_jwt_decode X (env_jwt_secret (st_env s)) now token = Some claims" "njc_node_id claims = nid"
    and "node_by_id (st_db s) nid = Some row" "\<not> row_revoked row"
    and "s' = fst (send_to_node tx (NAuthResponse nid True (x_version X)) s)"
proof -
  have no_reject: "reject_node X tx n e s \<noteq> (s', Ok nid)" for n e
    using reject_node_Err [of X tx n e s] by auto
  from assms obtain data rest where evs: "evs = WsBinary data # rest"
    by (auto simp: wait_for_node_auth_def split: list.splits ws_event.splits)
  with assms obtain frame where dec: "Frame_decode Native64 (x_codec X) data = Ok frame"
    by (auto simp: wait_for_node_auth_def split: outcome.splits)
  with assms evs obtain token n version where frame: "fr_data frame = Node (NAuth token n version)"
    by (auto simp: wait_for_node_auth_def split: FrameData.splits NodeFrameData.splits)
  with assms evs dec obtain auth where auth: "authenticate_node_jwt X now s token = Ok auth"
    by (auto simp: wait_for_node_auth_def no_reject split: outcome.splits)
  with assms evs dec frame no_reject have n: "an_node_id auth = n"
    by (auto simp: wait_for_node_auth_def split: if_splits)
  with assms evs dec frame auth no_reject obtain claim where
    claim: "get_node_claim_by_id_optional (st_db s) n = Ok (Some claim)" "\<not> ncl_revoked claim"
    by (auto simp: wait_for_node_auth_def split: outcome.splits option.splits if_splits)
  with assms evs dec frame auth n have fin: "nid = n"
    "s' = fst (send_to_node tx (NAuthResponse n True (x_version X)) s)"
    by (auto simp: wait_for_node_auth_def split: prod.splits bool.splits)
  from claim obtain row where row: "node_by_id (st_db s) n = Some row" "\<not> row_revoked row"
    by (auto simp: get_node_claim_by_id_optional_def fetch_optional_def node_claim_of_def
        split: if_splits)
  from auth n obtain claims where
    "x_jwt_decode X (env_jwt_secret (st_env s)) now token = Some claims" "njc_node_id claims = n"
    by (auto simp: authenticate_node_jwt_def split: option.splits outcome.splits if_splits)
  with fin row show thesis
    using that [OF evs dec] frame by simp
qed

text \<open>A successful opening registers the connection; a failed one only leaves a dead channel.\<close>

lemma node_socket_open_Some:
  assumes "node_socket_open X now ip evs s = (s', Some (nid, tx))"
  obtains s1 rec where "tx = st_next_chan s"
    and "wait_for_node_auth X now tx evs (fst (alloc_node_chan s)) = (s1, Ok nid)"
    and "get_node_by_id (st_db s1) nid = Ok rec"
    and "s' = s1\<lparr>st_memory_db := fst (set_node_connected X rec (st_server s1) (st_memory_db s1)),
           st_nodes := dm_insert nid (NodeConnection_new now (st_id s1) ip tx rec) (st_nodes s1)\<rparr>"
proof -
  obtain s1 r where w: "wait_for_node_auth X now (st_next_chan s) evs (fst (alloc_node_chan s)) = (s1, r)"
    by (cases "wait_for_node_auth X now (st_next_chan s) evs (fst (alloc_node_chan s))")
  with assms obtain n where r: "r = Ok n"
    by (auto simp: node_socket_open_def alloc_node_chan_def split: outcome.splits)
  with assms w obtain rec where "get_node_by_id (st_db s1) n = Ok rec"
    by (auto simp: node_socket_open_def alloc_node_chan_def split: outcome.splits)
  with assms w r that show thesis
    by (auto simp: node_socket_open_def alloc_node_chan_def Let_def)
qed

lemma node_socket_open_None:
  assumes "node_socket_open X now ip evs s = (s', None)"
  shows "s' = close_node_chan (st_next_chan s)
     (fst (wait_for_node_auth X now (st_next_chan s) evs (fst (alloc_node_chan s))))"
  using assms
  by (auto simp: node_socket_open_def alloc_node_chan_def Let_def
      split: prod.splits outcome.splits)

lemma alloc_node_chan_wf: "state_wf s \<Longrightarrow> state_wf (fst (alloc_node_chan s))"
  by (auto simp: alloc_node_chan_def state_wf_def chans_allocated_def chans_separate_def sessions_keyed_def
      intro: less_SucI)

lemma wait_for_node_auth_wf:
  "state_wf s \<Longrightarrow> state_wf (fst (wait_for_node_auth X now tx evs s))"
  using wait_for_node_auth_state [of X now tx evs s] state_wf_send_to_node by metis

lemma node_socket_open_wf:
  assumes "state_wf s"
  shows "state_wf (fst (node_socket_open X now ip evs s))"
proof (cases "snd (node_socket_open X now ip evs s)")
  case None
  then show ?thesis
    using node_socket_open_None [of X now ip evs s] assms
    by (metis alloc_node_chan_wf close_node_chan_def prod.collapse state_wf_update(2)
        wait_for_node_auth_wf)
next
  case (Some p)
  then obtain nid tx where "node_socket_open X now ip evs s
      = (fst (node_socket_open X now ip evs s), Some (nid, tx))"
    by (metis prod.collapse)
  then obtain s1 rec where tx: "tx = st_next_chan s"
    and w: "wait_for_node_auth X now tx evs (fst (alloc_node_chan s)) = (s1, Ok nid)"
    and s': "fst (node_socket_open X now ip evs s)
      = s1\<lparr>st_memory_db := fst (set_node_connected X rec (st_server s1) (st_memory_db s1)),
           st_nodes := dm_insert nid (NodeConnection_new now (st_id s1) ip tx rec) (st_nodes s1)\<rparr>"
    by (rule node_socket_open_Some)
  have wf: "state_wf s1"
    using wait_for_node_auth_wf [OF alloc_node_chan_wf [OF assms], of X now tx evs] w by simp
  have next_chan: "st_next_chan s1 = st_next_chan s + 1" and nodes: "st_nodes s1 = st_nodes s"
    using wait_for_node_auth_state [of X now tx evs "fst (alloc_node_chan s)"] w
    by (auto simp: srv_simps alloc_node_chan_def)
  have fresh: "\<forall>i c. dm_get (st_nodes s1) i = Some c \<longrightarrow> nc_tx c \<noteq> st_next_chan s"
    using assms by (fastforce simp: nodes state_wf_def chans_allocated_def)
  show ?thesis
    unfolding s' using wf next_chan fresh
    by (intro state_wf_intro [OF wf];
      auto simp: state_wf_def chans_allocated_def chans_separate_def sessions_keyed_def dm_simps
        dm.wf_insert tx NodeConnection_new_def split: if_splits; blast)
qed

lemma node_socket_end_wf: "state_wf s \<Longrightarrow> state_wf (node_socket_end X nid tx s)"
  by (simp add: node_socket_end_def close_node_chan_def disconnect_node_wf)

section \<open>Properties\<close>

text \<open>Node 1 of the example server opens its socket.\<close>

abbreviation example_auth :: "ws_event list" where
  "example_auth \<equiv> [WsBinary (node_msg 10 0)]"

lemma example_authenticated:
  "st_db s = example_db \<Longrightarrow> authenticate_node_jwt example_ext now s ''jwt1'' = Ok \<lparr>an_node_id = 1\<rparr>"
  by (simp add: authenticate_node_jwt_def example_ext_def get_node_claim_by_id_def fetch_one_def
      example_db_def node_by_id_def example_row_def node_claim_of_def)

lemma example_wait:
  assumes "st_db s = example_db" "\<not> ch_closed (st_node_chans s tx)"
  shows "wait_for_node_auth example_ext now tx example_auth s
    = (fst (send_to_node tx (NAuthResponse 1 True ''1.0'') s), Ok 1)"
proof -
  have "Frame_decode Native64 example_codec (node_msg 10 0)
      = Ok \<lparr>fr_version = 1, fr_encoding = MessagePack, fr_data = Node (NAuth ''jwt1'' 1 ''1.0'')\<rparr>"
    using decode_node_msg [of 0 10] by (simp add: example_node_frames_def)
  moreover have "get_node_claim_by_id_optional (st_db s) 1 = Ok (Some (node_claim_of example_row))"
    "\<not> ncl_revoked (node_claim_of example_row)"
    using assms(1) by (simp_all add: get_node_claim_by_id_optional_def fetch_optional_def example_db_def
        node_by_id_def example_row_def node_claim_of_def)
  moreover have "x_codec example_ext = example_codec" "x_version example_ext = ''1.0''"
    by (simp_all add: example_ext_def)
  moreover have "snd (send_to_node tx f s)" for f
    using assms(2) by (simp add: chan_simps)
  ultimately show ?thesis
    using example_authenticated [OF assms(1), of now]
    by (simp add: wait_for_node_auth_def case_prod_unfold)
qed

lemma example_open:
  assumes "st_db s = example_db"
  shows "node_socket_open example_ext now ip example_auth s
    = (fst (node_socket_open example_ext now ip example_auth s), Some (1, st_next_chan s))"
proof -
  obtain s0 where s0: "alloc_node_chan s = (s0, st_next_chan s)" "st_db s0 = example_db"
    "\<not> ch_closed (st_node_chans s0 (st_next_chan s))"
    using assms by (simp add: alloc_node_chan_def chan_simps)
  have "get_node_by_id example_db 1 = Ok example_record"
    by (simp add: get_node_by_id_def fetch_one_def example_db_def node_by_id_def example_row_def
        example_record_def node_record_of_def)
  then show ?thesis
    using s0 example_wait [OF s0(2,3), of now]
    by (simp add: node_socket_open_def srv_simps Let_def)
qed

lemma example_open_fields:
  assumes "st_db s = example_db"
  shows "st_db (fst (node_socket_open example_ext now ip example_auth s)) = example_db"
proof -
  obtain s1 rec where "wait_for_node_auth example_ext now (st_next_chan s) example_auth
      (fst (alloc_node_chan s)) = (s1, Ok 1)"
    and s': "fst (node_socket_open example_ext now ip example_auth s)
      = s1\<lparr>st_memory_db := fst (set_node_connected example_ext rec (st_server s1) (st_memory_db s1)),
           st_nodes := dm_insert 1 (NodeConnection_new now (st_id s1) ip (st_next_chan s) rec) (st_nodes s1)\<rparr>"
    using example_open [OF assms, of now ip] by (rule node_socket_open_Some)
  then have "st_db s1 = example_db"
    using wait_for_node_auth_state [of example_ext now "st_next_chan s" example_auth "fst (alloc_node_chan s)"]
    by (auto simp: srv_simps alloc_node_chan_def assms)
  then show ?thesis
    by (simp add: s')
qed

text \<open>
  C16: a websocket is registered as a node only after its first message was an
  authentication frame whose token decodes to that very node, and the node has a row that is not
  revoked. It is then registered under that identifier with a fresh channel that holds
  the positive answer.
\<close>

theorem node_registration_sound:
  assumes "node_socket_open X now ip evs s = (s', Some (nid, tx))"
  shows "\<exists>data rest frame token version claims row.
     evs = WsBinary data # rest \<and> Frame_decode Native64 (x_codec X) data = Ok frame \<and>
     fr_data frame = Node (NAuth token nid version) \<and>
     x_jwt_decode X (env_jwt_secret (st_env s)) now token = Some claims \<and> njc_node_id claims = nid \<and>
     node_by_id (st_db s) nid = Some row \<and> \<not> row_revoked row \<and>
     dm_get (st_nodes s') nid = Some (NodeConnection_new now (st_id s) ip tx (node_record_of row)) \<and>
     (\<forall>n. n \<noteq> nid \<longrightarrow> dm_get (st_nodes s') n = dm_get (st_nodes s) n) \<and>
     tx = st_next_chan s \<and> node_queue s' tx = [NAuthResponse nid True (x_version X)]"
proof -
  let ?s0 = "fst (alloc_node_chan s)"
  obtain s1 rec where tx: "tx = st_next_chan s"
    and w: "wait_for_node_auth X now tx evs ?s0 = (s1, Ok nid)"
    and rec: "get_node_by_id (st_db s1) nid = Ok rec"
    and s': "s' = s1\<lparr>st_memory_db := fst (set_node_connected X rec (st_server s1) (st_memory_db s1)),
           st_nodes := dm_insert nid (NodeConnection_new now (st_id s1) ip tx rec) (st_nodes s1)\<rparr>"
    using assms by (rule node_socket_open_Some)
  obtain data rest frame token version claims row where
    auth: "evs = WsBinary data # rest" "Frame_decode Native64 (x_codec X) data = Ok frame"
      "fr_data frame = Node (NAuth token nid version)"
      "x_jwt_decode X (env_jwt_secret (st_env ?s0)) now token = Some claims" "njc_node_id claims = nid"
      "node_by_id (st_db ?s0) nid = Some row" "\<not> row_revoked row"
    and s1: "s1 = fst (send_to_node tx (NAuthResponse nid True (x_version X)) ?s0)"
    using w by (rule wait_for_node_auth_Ok)
  have same: "st_env ?s0 = st_env s" "st_db ?s0 = st_db s" "st_id ?s0 = st_id s" "st_nodes ?s0 = st_nodes s"
    by (simp_all add: alloc_node_chan_def)
  have "rec = node_record_of row"
    using rec auth(6) by (auto simp: s1 srv_simps get_node_by_id_def fetch_one_def split: if_splits)
  moreover have "node_queue s1 tx = [NAuthResponse nid True (x_version X)]"
    by (simp add: s1 node_queue_send alloc_node_chan_def tx chan_simps)
  ultimately show ?thesis
    using auth tx by (auto simp: s' s1 same srv_simps dm_simps)
qed

theorem node_registration_sound_witness:
  "let s' = fst (node_socket_open example_ext 10 (V4 1) example_auth empty_state) in
     dm_get (st_nodes s') 1 = Some (NodeConnection_new 10 42 (V4 1) 0 example_record) \<and>
     node_queue s' 0 = [NAuthResponse 1 True ''1.0'']"
proof -
  have "st_db empty_state = example_db"
    by (simp add: empty_state_def)
  from node_registration_sound [OF example_open [OF this, of 10 "V4 1"]]
  show ?thesis
    by (auto simp: empty_state_def example_db_def node_by_id_def example_record_def example_ext_def
        example_row_def Let_def)
qed

text \<open>
  A rejected websocket changes nothing but its own channel: no registry, session,
  database row or Redis key. That channel is closed with at most one frame in it, and since
  the writer task is only spawned after success nobody ever receives that frame.
\<close>

theorem node_rejection_changes_nothing:
  assumes "node_socket_open X now ip evs s = (s', None)"
  shows "\<exists>c. s' = s\<lparr>st_node_chans := (st_node_chans s)(st_next_chan s := c),
                 st_next_chan := st_next_chan s + 1\<rparr> \<and>
             ch_closed c \<and> length (ch_queue c) \<le> 1"
proof -
  let ?tx = "st_next_chan s" let ?s0 = "fst (alloc_node_chan s)"
  have s0: "?s0 = s\<lparr>st_node_chans := (st_node_chans s)(?tx := chan_new 256), st_next_chan := ?tx + 1\<rparr>"
    by (simp add: alloc_node_chan_def)
  consider "fst (wait_for_node_auth X now ?tx evs ?s0) = ?s0"
    | f where "fst (wait_for_node_auth X now ?tx evs ?s0) = fst (send_to_node ?tx f ?s0)"
    using wait_for_node_auth_state by blast
  then show ?thesis
  proof cases
    case 1
    then show ?thesis
      using node_socket_open_None [OF assms]
      by (auto simp: s0 close_node_chan_def chan_simps intro!: exI [of _ "chan_close (chan_new 256)"])
  next
    case 2
    then show ?thesis
      using node_socket_open_None [OF assms]
      by (auto simp: s0 close_node_chan_def send_to_node_def chan_send_def chan_simps
          intro!: exI [of _ "chan_close ((chan_new 256)\<lparr>ch_queue := [f]\<rparr>)"])
  qed
qed

theorem node_rejection_changes_nothing_witness:
  "\<exists>c. fst (node_socket_open example_ext 10 (V4 1) [WsOther] empty_state)
      = empty_state\<lparr>st_node_chans := (st_node_chans empty_state)(0 := c), st_next_chan := 1\<rparr> \<and>
     ch_closed c \<and> length (ch_queue c) \<le> 1"
proof -
  have "node_socket_open example_ext 10 (V4 1) [WsOther] empty_state
      = (fst (node_socket_open example_ext 10 (V4 1) [WsOther] empty_state), None)"
    by (simp add: node_socket_open_def wait_for_node_auth_def alloc_node_chan_def)
  from node_rejection_changes_nothing [OF this] show ?thesis
    by (simp add: empty_state_def)
qed

text \<open>
  Whatever a node sends, from the opening of its socket to the clean-up, the shared
  state stays well formed: one entry per key, every tunnel session filed under the node that
  serves it, every registered sender backed by a channel.
\<close>

theorem node_socket_preserves_wf:
  assumes "state_wf s"
  shows "state_wf (handle_node_socket X now ip first rest s)"
  using node_socket_open_wf [OF assms, of X now ip first]
  by (auto simp: handle_node_socket_def handle_node_messages_wf node_socket_end_wf
      split: prod.splits option.splits)

theorem node_socket_preserves_wf_witness:
  "state_wf (handle_node_socket example_ext 10 (V4 1) example_auth [(11, WsBinary (node_msg 21 1))] empty_state)"
  by (rule node_socket_preserves_wf [OF empty_state_wf])

text \<open>
  A message from one node cannot touch another: the registry entries and the tunnel
  sessions of every other node, the web connections and the database are unchanged.
\<close>

theorem node_event_isolation:
  "st_connections (fst (handle_node_event X now nid ev s)) = st_connections s \<and>
   st_db (fst (handle_node_event X now nid ev s)) = st_db s \<and>
   (\<forall>n. n \<noteq> nid \<longrightarrow>
      dm_get (st_nodes (fst (handle_node_event X now nid ev s))) n = dm_get (st_nodes s) n) \<and>
   (\<forall>key. tsk_node_id key \<noteq> nid \<longrightarrow>
      dm_get (st_tunnel_sessions (fst (handle_node_event X now nid ev s))) key
        = dm_get (st_tunnel_sessions s) key)"
proof -
  have hb: "st_connections (fst (handle_node_heartbeat X now nid st t s)) = st_connections s \<and>
      st_db (fst (handle_node_heartbeat X now nid st t s)) = st_db s \<and>
      (\<forall>n. n \<noteq> nid \<longrightarrow>
        dm_get (st_nodes (fst (handle_node_heartbeat X now nid st t s))) n = dm_get (st_nodes s) n) \<and>
      st_tunnel_sessions (fst (handle_node_heartbeat X now nid st t s)) = st_tunnel_sessions s" for st t
    by (auto simp: handle_node_heartbeat_def Let_def srv_simps dm_simps
        split: option.splits prod.splits bool.splits)
  have fr: "st_connections (handle_frame_response f nid s) = st_connections s \<and>
      st_db (handle_frame_response f nid s) = st_db s \<and>
      st_nodes (handle_frame_response f nid s) = st_nodes s \<and>
      st_tunnel_sessions (handle_frame_response f nid s) = st_tunnel_sessions s" for f
    by (auto simp: handle_frame_response_def srv_simps
        split: NodeFrameData.splits WebFrameId.splits outcome.splits)
  have "st_connections (fst (handle_node_frame X now nid f s)) = st_connections s \<and>
      st_db (fst (handle_node_frame X now nid f s)) = st_db s \<and>
      (\<forall>n. n \<noteq> nid \<longrightarrow>
        dm_get (st_nodes (fst (handle_node_frame X now nid f s))) n = dm_get (st_nodes s) n) \<and>
      (\<forall>key. tsk_node_id key \<noteq> nid \<longrightarrow>
        dm_get (st_tunnel_sessions (fst (handle_node_frame X now nid f s))) key
          = dm_get (st_tunnel_sessions s) key)" for f
    using hb fr
    by (cases f)
      (auto simp: handle_node_frame_def handle_tunnel_opened_def handle_tunnel_closed_def
        case_prod_unfold srv_simps dm_simps TunnelSessionKey_new_def)
  then show ?thesis
    by (auto simp: handle_node_event_def split: ws_event.splits outcome.splits FrameData.splits)
qed

theorem node_event_isolation_witness:
  "dm_get (st_nodes (fst (handle_node_event example_ext 10 2 (WsBinary (node_msg 21 1)) example_state))) 1
     = dm_get (st_nodes example_state) 1"
  using node_event_isolation [of example_ext 10 2 "WsBinary (node_msg 21 1)" example_state] by simp

text \<open>
  C21: when a node's socket ends, its registration and all its tunnel sessions go, the
  sessions of other nodes stay, its Redis key is deleted, and every client with an open channel
  is sent one close notice per session it had on that node, in registry order, and nothing else.
\<close>

theorem disconnect_node_closes_sessions:
  assumes "state_wf s" and "dm_get (st_nodes s) nid = Some info"
  shows "let s' = disconnect_node X nid s in
    (\<forall>n. dm_get (st_nodes s') n = (if n = nid then None else dm_get (st_nodes s) n)) \<and>
    (\<forall>key. dm_get (st_tunnel_sessions s') key
       = (if tsk_node_id key = nid then None else dm_get (st_tunnel_sessions s) key)) \<and>
    (\<forall>tx. web_queue s' tx = web_queue s tx @
       map (\<lambda>(key, _). WTunnelClosed 0 (tsk_sid key) None)
         (filter (\<lambda>(key, cid, _). tsk_node_id key = nid \<and> client_chan s cid = Some tx)
            (dm_iter (st_tunnel_sessions s)))) \<and>
    rd_log (st_memory_db s') = rd_log (st_memory_db s) @ [DEL (node_key X (nc_node_record info))]"
proof -
  define s' where "s' = disconnect_node X nid s"
  define s2 where "s2 = s\<lparr>st_nodes := dm_remove nid (st_nodes s),
    st_memory_db := fst (set_node_disconnected X (nc_node_record info) (st_memory_db s))\<rparr>"
  have s': "s' = fst (notify_all_clients_for_closed_tunnel nid s2)"
    using assms(2) by (simp add: s'_def disconnect_node_def s2_def Let_def)
  have "dm_wf (st_tunnel_sessions s2)"
    using assms(1) by (simp add: s2_def state_wf_def)
  note sessions = close_node_sessions [OF this, of nid, folded s']
  have queue: "web_queue s' tx = web_queue s tx @
       map (\<lambda>(key, _). WTunnelClosed 0 (tsk_sid key) None)
         (filter (\<lambda>(key, cid, _). tsk_node_id key = nid \<and> client_chan s cid = Some tx)
            (dm_iter (st_tunnel_sessions s)))" for tx
    by (simp add: s' notify_all_clients_for_closed_tunnel_def close_sessions_queue s2_def srv_simps
        case_prod_unfold)
  have "rd_log (st_memory_db s') = rd_log (st_memory_db s) @ [DEL (node_key X (nc_node_record info))]"
    by (simp add: s' srv_simps s2_def set_node_disconnected_def rd_exec_def)
  moreover have "dm_get (st_nodes s') n = (if n = nid then None else dm_get (st_nodes s) n)" for n
    by (simp add: s' srv_simps s2_def dm_simps)
  ultimately show ?thesis
    using sessions queue by (simp add: s2_def s'_def [symmetric] Let_def)
qed

theorem disconnect_node_closes_sessions_witness:
  "web_queue (disconnect_node example_ext 1 example_state) 1 = [WTunnelClosed 0 9 None] \<and>
   dm_get (st_tunnel_sessions (disconnect_node example_ext 1 example_state)) (TunnelSessionKey_new 1 9) = None"
proof -
  have "dm_get (st_nodes example_state) 1 = Some (NodeConnection_new 0 42 (V4 1) 0 example_record)"
    by (simp add: example_state_def empty_state_def dm_get_def)
  from disconnect_node_closes_sessions [OF example_state_wf this, of example_ext]
  show ?thesis
    by (simp add: Let_def TunnelSessionKey_new_def)
      (simp add: example_defs dm_iter_def client_chan_def chan_new_def)
qed

text \<open>
  C31: a node that reconnects before its old socket is cleaned up loses its new
  registration: ending the old socket removes the entry of the new one, whose channel stays open,
  and the next heartbeat on the new socket is refused, which ends it too.
\<close>

theorem stale_socket_evicts_reconnect:
  assumes "node_socket_open X t1 ip1 evs1 s = (s1, Some (nid, tx1))"
    and "node_socket_open X t2 ip2 evs2 s1 = (s2, Some (nid, tx2))"
  shows "let s3 = node_socket_end X nid tx1 s2 in
    tx1 \<noteq> tx2 \<and> dm_get (st_nodes s3) nid = None \<and> \<not> ch_closed (st_node_chans s3 tx2) \<and>
    handle_node_frame X now nid (NHeartbeat stats sent_at) s3 = (s3, False)"
proof -
  define s3 where "s3 = node_socket_end X nid tx1 s2"
  obtain a where a: "tx1 = st_next_chan s"
    "wait_for_node_auth X t1 tx1 evs1 (fst (alloc_node_chan s)) = (a, Ok nid)"
    "st_next_chan s1 = st_next_chan a"
    using assms(1) by (rule node_socket_open_Some) auto
  obtain b rec where b: "tx2 = st_next_chan s1"
    "wait_for_node_auth X t2 tx2 evs2 (fst (alloc_node_chan s1)) = (b, Ok nid)"
    "s2 = b\<lparr>st_memory_db := fst (set_node_connected X rec (st_server b) (st_memory_db b)),
           st_nodes := dm_insert nid (NodeConnection_new t2 (st_id b) ip2 tx2 rec) (st_nodes b)\<rparr>"
    using assms(2) by (rule node_socket_open_Some)
  have "st_next_chan a = st_next_chan s + 1"
    using wait_for_node_auth_state [of X t1 tx1 evs1 "fst (alloc_node_chan s)"] a(2)
    by (auto simp: srv_simps alloc_node_chan_def)
  then have ne: "tx1 \<noteq> tx2"
    using a b by simp
  have "\<not> ch_closed (st_node_chans b tx2)"
    using wait_for_node_auth_state [of X t2 tx2 evs2 "fst (alloc_node_chan s1)"] b(1,2)
    by (auto simp: chan_simps alloc_node_chan_def)
  then have "\<not> ch_closed (st_node_chans s3 tx2) \<and> dm_get (st_nodes s3) nid = None"
    using ne
    by (simp add: s3_def node_socket_end_def disconnect_node_def close_node_chan_def b(3) srv_simps
        dm_simps Let_def split: option.splits)
  with ne show ?thesis
    by (simp add: handle_node_frame_def handle_node_heartbeat_def s3_def [symmetric])
qed

theorem stale_socket_evicts_reconnect_witness:
  "let s1 = fst (node_socket_open example_ext 10 (V4 1) example_auth empty_state);
       s2 = fst (node_socket_open example_ext 20 (V4 1) example_auth s1)
   in dm_get (st_nodes (node_socket_end example_ext 1 0 s2)) 1 = None"
proof -
  define s1 where "s1 = fst (node_socket_open example_ext 10 (V4 1) example_auth empty_state)"
  have db: "st_db empty_state = example_db" "st_db s1 = example_db"
    by (simp_all add: empty_state_def s1_def example_open_fields)
  have "st_next_chan empty_state = 0"
    by (simp add: empty_state_def)
  with stale_socket_evicts_reconnect [OF example_open [OF db(1), of 10 "V4 1", folded s1_def]
      example_open [OF db(2), of 20 "V4 1"]]
  show ?thesis
    by (simp add: Let_def s1_def)
qed

text \<open>
  A frame a node addresses to one of its tunnel sessions reaches the client that the
  registry records for that node and session, and nobody else; a frame addressed to a connection
  reaches that connection whether or not the node has a session with it.
\<close>

theorem node_frame_routing:
  assumes "sessions_keyed s"
  shows "web_queue (handle_frame_response (NWebFrame f (SessionId sid)) nid s) tx = web_queue s tx @
      (case dm_get (st_tunnel_sessions s) (TunnelSessionKey_new nid sid) of
         None \<Rightarrow> [] | Some (cid, _) \<Rightarrow> if client_chan s cid = Some tx then [f] else []) \<and>
    web_queue (handle_frame_response (NWebFrame f (ConnectionId cid)) nid s) tx = web_queue s tx @
      (if client_chan s cid = Some tx then [f] else [])"
proof -
  have "nid' = nid" if "dm_get (st_tunnel_sessions s) (TunnelSessionKey_new nid sid) = Some (c, nid')"
    for c nid'
    using assms that by (fastforce simp: sessions_keyed_def TunnelSessionKey_new_def)
  then show ?thesis
    by (auto simp: handle_frame_response_def get_connection_id_by_sid_def notify_queue
        split: option.splits)
qed

theorem node_frame_routing_witness:
  "web_queue (handle_frame_response (NWebFrame WHeartbeat (SessionId 9)) 1 example_state) 1
     = [WHeartbeat]"
  using node_frame_routing [of example_state WHeartbeat 9 1 1 5] example_state_wf
  by (simp add: state_wf_def) (simp add: example_defs client_chan_def chan_new_def)

text \<open>
  A heartbeat from a registered node is always acknowledged and never ends the loop, but
  the time stamp and the statistics are recorded only if the statistics could be encoded and
  Redis accepted the update; otherwise the entry keeps its old time stamp, and the stale-node
  sweep still counts from there.
\<close>

theorem node_heartbeat_effect:
  assumes "dm_get (st_nodes s) nid = Some info"
  shows "let (s', r) = handle_node_heartbeat X now nid stats sent_at s;
             latency = saturating_sub (now_millis now) sent_at
         in r = Ok () \<and>
            node_queue s' (nc_tx info) = node_queue s (nc_tx info) @
              (if ch_closed (st_node_chans s (nc_tx info)) then []
               else [NHeartbeatAck sent_at (now_millis now)]) \<and>
            dm_get (st_nodes s') nid = Some
              (case get_extended_stats X now info latency of
                 None \<Rightarrow> info
               | Some es \<Rightarrow>
                   if snd (update_node_stats X (nc_node_record info) (st_server s) es (st_memory_db s))
                   then info\<lparr>nc_node := (nc_node info)\<lparr>nd_last_stats := Some stats, nd_last_heartbeat := now\<rparr>\<rparr>
                   else info)"
  using assms
  by (auto simp: handle_node_heartbeat_def Let_def srv_simps dm_simps node_queue_send
      split: option.splits prod.splits bool.splits)

theorem node_heartbeat_effect_witness:
  "snd (handle_node_heartbeat example_ext 10 1 example_stats 0 example_state) = Ok ()"
proof -
  have "dm_get (st_nodes example_state) 1 = Some (NodeConnection_new 0 42 (V4 1) 0 example_record)"
    by (simp add: example_state_def empty_state_def dm_get_def)
  from node_heartbeat_effect [OF this, of example_ext 10 example_stats 0] show ?thesis
    by (simp add: Let_def case_prod_unfold)
qed

lemma find_append:
  "find P (xs @ ys) = (case find P xs of None \<Rightarrow> find P ys | Some x \<Rightarrow> Some x)"
  by (induction xs) auto

lemma validate_creds_Ok:
  assumes "validate_creds X now db tid secret = Ok tok"
  shows "tok \<in> set (t_pat_tokens db) \<and> tk_token_id tok = tid \<and>
    (\<forall>e. tk_expires_at tok = Some e \<longrightarrow> now \<le> e) \<and> x_verify_password X secret (tk_token_hash tok)"
proof -
  obtain rec where rec: "get_token_by_id db tid = Ok rec"
    using assms by (auto simp: validate_creds_def split: outcome.splits)
  then have "rec \<in> set (t_pat_tokens db)" "tk_token_id rec = tid"
    by (auto simp: get_token_by_id_def fetch_one_def split: if_splits option.splits dest!: find_Some_set)
  with rec assms show ?thesis
    by (auto simp: validate_creds_def split: if_splits option.splits)
qed

lemma claim_node_Ok:
  assumes "claim_node X now new_id headers payload s = (s', ClaimOk nid)"
  obtains bearer tid secret tok existing node
  where "extract_bearer_token headers = Ok bearer" "extract_creds bearer = Ok (tid, secret)"
    and "validate_creds X now (st_db s) tid secret = Ok tok" "''server:register'' \<in> set (tk_scopes tok)"
    and "get_node_by_public_key (st_db s) (trim (cn_public_key payload)) = Ok existing"
    and "\<And>n. existing = Some n \<Longrightarrow> ncl_user_id n = tk_user_id tok"
    and "claim_node_by_public_key (st_db s) new_id now (tk_user_id tok) (trim (cn_public_key payload))
           (trim (cn_hostname payload)) (cn_metadata payload) = (st_db s', Ok node)"
    and "nid = ncl_id node"
proof -
  obtain bearer where b: "extract_bearer_token headers = Ok bearer"
    using assms by (auto simp: claim_node_def Let_def split: if_splits outcome.splits)
  obtain tid secret where c: "extract_creds bearer = Ok (tid, secret)"
    using assms b by (auto simp: claim_node_def Let_def split: if_splits outcome.splits)
  obtain tok where t: "validate_creds X now (st_db s) tid secret = Ok tok"
    using assms b c
    by (auto simp: claim_node_def Let_def split: if_splits outcome.splits CredentialValidationError.splits)
  have sc: "''server:register'' \<in> set (tk_scopes tok)"
    using assms b c t by (auto simp: claim_node_def Let_def split: if_splits)
  obtain ex where e: "get_node_by_public_key (st_db s) (trim (cn_public_key payload)) = Ok ex"
    using assms b c t sc by (auto simp: claim_node_def Let_def split: if_splits outcome.splits)
  have own: "\<And>n. ex = Some n \<Longrightarrow> ncl_user_id n = tk_user_id tok"
    using assms b c t sc e by (auto simp: claim_node_def Let_def split: if_splits)
  have "\<exists>node. claim_node_by_public_key (st_db s) new_id now (tk_user_id tok) (trim (cn_public_key payload))
           (trim (cn_hostname payload)) (cn_metadata payload) = (st_db s', Ok node) \<and> nid = ncl_id node"
    using assms b c t sc e own
    by (auto simp: claim_node_def Let_def split: if_splits option.splits prod.splits outcome.splits)
  with b c t sc e own that show thesis
    by blast
qed

lemma claim_row_effect:
  assumes claim: "claim_node_by_public_key db new_id now u key h m = (db', Ok node)"
    and owner: "\<And>old. node_by_key db key = Some old \<Longrightarrow> row_user_id old = u"
  shows "\<exists>row. node_by_key db' key = Some row \<and> row_id row = ncl_id node \<and> row_user_id row = u \<and>
     (\<forall>r \<in> set (t_nodes db). \<exists>r' \<in> set (t_nodes db').
        row_id r' = row_id r \<and> row_user_id r' = row_user_id r \<and> row_revoked r' = row_revoked r \<and>
        (row_public_key r \<noteq> key \<longrightarrow> r' = r))"
proof (cases "node_by_key db key")
  case None
  define x where "x = \<lparr>row_id = new_id, row_user_id = u, row_name = None, row_public_key = key,
      row_hostname = h, row_metadata = m, row_created_at = now, row_last_seen = None,
      row_revoked = False\<rparr>"
  have "db' = db\<lparr>t_nodes := t_nodes db @ [x]\<rparr>" "ncl_id node = new_id"
    using None claim
    by (auto simp: claim_node_by_public_key_def node_claim_of_def Let_def x_def split: if_splits)
  with None show ?thesis
    by (auto simp: node_by_key_def find_append x_def)
next
  case (Some old)
  define upd where "upd = (\<lambda>r :: node_row. if row_public_key r = key
      then r\<lparr>row_hostname := h, row_metadata := m\<rparr> else r)"
  have db': "db' = db\<lparr>t_nodes := map upd (t_nodes db)\<rparr>" "ncl_id node = row_id old"
    using claim Some
    by (auto simp: claim_node_by_public_key_def node_claim_of_def Let_def upd_def split: if_splits)
  have "node_by_key db' key = Some (upd old)"
    using Some find_map_same [of "\<lambda>r. row_public_key r = key" upd "t_nodes db"]
    by (simp add: db' node_by_key_def upd_def)
  moreover have "row_id (upd r) = row_id r \<and> row_user_id (upd r) = row_user_id r \<and>
      row_revoked (upd r) = row_revoked r \<and> (row_public_key r \<noteq> key \<longrightarrow> upd r = r)" for r
    by (simp add: upd_def)
  ultimately show ?thesis
    using db' owner [OF Some] by auto
qed

text \<open>
  C27: claiming a node succeeds only for a bearer of an unexpired access token whose secret
  verifies and that has the registration scope. Afterwards the public key has one row, with the
  returned identifier, and it belongs to that user; no row changes its identifier, its owner or its
  revocation, and rows of other keys are untouched.
\<close>

theorem claim_node_sound:
  assumes "claim_node X now new_id headers payload s = (s', ClaimOk nid)"
  shows "\<exists>bearer tid secret tok row. extract_bearer_token headers = Ok bearer \<and>
     extract_creds bearer = Ok (tid, secret) \<and>
     tok \<in> set (t_pat_tokens (st_db s)) \<and> tk_token_id tok = tid \<and>
     (\<forall>e. tk_expires_at tok = Some e \<longrightarrow> now \<le> e) \<and> x_verify_password X secret (tk_token_hash tok) \<and>
     ''server:register'' \<in> set (tk_scopes tok) \<and>
     node_by_key (st_db s') (trim (cn_public_key payload)) = Some row \<and>
     row_id row = nid \<and> row_user_id row = tk_user_id tok \<and>
     (\<forall>r \<in> set (t_nodes (st_db s)). \<exists>r' \<in> set (t_nodes (st_db s')).
        row_id r' = row_id r \<and> row_user_id r' = row_user_id r \<and> row_revoked r' = row_revoked r \<and>
        (row_public_key r \<noteq> trim (cn_public_key payload) \<longrightarrow> r' = r))"
proof -
  let ?key = "trim (cn_public_key payload)"
  obtain bearer tid secret tok existing node where
    ok: "extract_bearer_token headers = Ok bearer" "extract_creds bearer = Ok (tid, secret)"
      "validate_creds X now (st_db s) tid secret = Ok tok" "''server:register'' \<in> set (tk_scopes tok)"
    and ex: "get_node_by_public_key (st_db s) ?key = Ok existing"
      "\<And>n. existing = Some n \<Longrightarrow> ncl_user_id n = tk_user_id tok"
    and claim: "claim_node_by_public_key (st_db s) new_id now (tk_user_id tok) ?key
           (trim (cn_hostname payload)) (cn_metadata payload) = (st_db s', Ok node)"
      "nid = ncl_id node"
    using assms by (rule claim_node_Ok) blast
  have "existing = map_option node_claim_of (node_by_key (st_db s) ?key)"
    using ex(1) by (auto simp: get_node_by_public_key_def fetch_optional_def split: if_splits)
  then have "row_user_id old = tk_user_id tok" if "node_by_key (st_db s) ?key = Some old" for old
    using ex(2) that by (simp add: node_claim_of_def)
  from claim_row_effect [OF claim(1) this] claim(2) show ?thesis
    using ok validate_creds_Ok [OF ok(3)] by blast
qed

theorem claim_node_sound_witness:
  "let headers = (\<lambda>h. if h = ''authorization'' then Some (HText ''Bearer pat_a.b'') else None);
       payload = \<lparr>cn_public_key = ''newkey'', cn_hostname = ''h'', cn_metadata = ''{}''\<rparr>;
       s' = fst (claim_node example_ext 10 77 headers payload example_state)
   in \<exists>row. node_by_key (st_db s') ''newkey'' = Some row \<and> row_user_id row = 7"
proof -
  let ?h = "\<lambda>h. if h = ''authorization'' then Some (HText ''Bearer pat_a.b'') else None"
  let ?p = "\<lparr>cn_public_key = ''newkey'', cn_hostname = ''h'', cn_metadata = ''{}''\<rparr>"
  have key: "example_key \<noteq> ''newkey''"
    by (auto simp: example_key_def dest: arg_cong [of _ _ length])
  have trims: "trim ''newkey'' = ''newkey''" "trim ''h'' = ''h''" "trim ''pat_a.b'' = ''pat_a.b''"
    by (simp_all add: trim_def trim_matches_def trim_end_matches_def is_whitespace_def)
  have "extract_bearer_token ?h = Ok ''pat_a.b''"
    by (simp add: extract_bearer_token_def strip_prefix_def starts_with_def trims)
  moreover have "extract_creds ''pat_a.b'' = Ok (''a'', ''b'')"
    by (simp add: extract_creds_def trims strip_prefix_def starts_with_def)
  moreover have db: "st_db example_state = example_db"
    by (simp add: example_state_def empty_state_def)
  moreover have "validate_creds example_ext 10 example_db ''a'' ''b'' = Ok (hd (t_pat_tokens example_db))"
    "''server:register'' \<in> set (tk_scopes (hd (t_pat_tokens example_db)))"
    by (simp_all add: validate_creds_def get_token_by_id_def fetch_one_def example_db_def example_ext_def)
  moreover have "get_node_by_public_key example_db ''newkey'' = Ok None"
    by (simp add: get_node_by_public_key_def fetch_optional_def example_db_def node_by_key_def
        example_row_def key)
  moreover obtain db' n where
    "claim_node_by_public_key example_db 77 10 (tk_user_id (hd (t_pat_tokens example_db))) ''newkey'' ''h'' ''{}''
       = (db', Ok n)" "ncl_id n = 77"
    by (simp add: claim_node_by_public_key_def example_db_def node_by_key_def example_row_def
        key node_claim_of_def Let_def)
  ultimately have claim: "claim_node example_ext 10 77 ?h ?p example_state
      = (fst (claim_node example_ext 10 77 ?h ?p example_state), ClaimOk 77)"
    by (simp add: claim_node_def Let_def trims)
  show ?thesis
    using claim_node_sound [OF claim] by (auto simp: trims db Let_def) (auto simp: example_db_def)
qed

end
