(* ===== verification/Server_Web.thy ===== *)
theory Server_Web
  imports Server_Node
begin

text \<open>
  The browser side of the server (\<open>server/src/web.rs\<close>): authentication of a web client,
  the message loop with one handler per request, and the clean-up when the client goes.
\<close>

section \<open>Authentication\<close>

datatype web_ws_error =
    WebClosedBeforeAuth | WebExpectedBinary | WebStreamError
  | WebAuthFrame frame_decode_error | ExpectedWebFrame | WebExpectedAuth
  | WebResponseNotSent | WebJwtFailed | BadSubject | BadNodeId | NodeLoadFailed db_error | NotOwner

datatype web_jwt_error = WebBadToken | SubNotUuid | UserLookup db_error | UserNotFound

definition authenticate_web_jwt ::
  "server_ext \<Rightarrow> instant \<Rightarrow> AppState \<Rightarrow> string \<Rightarrow> (web_jwt_error, WebJwtClaims) outcome" where
  "authenticate_web_jwt X now s token =
     (case x_jwt_decode_web X (env_jwt_secret (st_env s)) now token of
        None \<Rightarrow> Err WebBadToken
      | Some claims \<Rightarrow>
          (case x_parse_uuid X (wjc_sub claims) of
             None \<Rightarrow> Err SubNotUuid
           | Some user_id \<Rightarrow>
               (case user_exists (st_db s) user_id of
                  Err e \<Rightarrow> Err (UserLookup e)
                | Panic \<Rightarrow> Panic
                | Ok found \<Rightarrow> if \<not> found then Err UserNotFound else Ok claims)))"

text \<open>A rejection queues an error frame; if that fails, its error is the one reported.\<close>

definition reject_web ::
  "chan_id \<Rightarrow> string \<Rightarrow> msg_id \<Rightarrow> web_ws_error \<Rightarrow> AppState \<Rightarrow> AppState \<times> (web_ws_error, 'a) outcome" where
  "reject_web tx message mid err s =
     (case send_to_web tx (WError Authentication message mid) s of
        (s', True) \<Rightarrow> (s', Err err)
      | (s', False) \<Rightarrow> (s', Err WebResponseNotSent))"

definition validate_jwt ::
  "server_ext \<Rightarrow> instant \<Rightarrow> chan_id \<Rightarrow> string \<Rightarrow> msg_id \<Rightarrow> AppState
     \<Rightarrow> AppState \<times> (web_ws_error, WebJwtClaims) outcome" where
  "validate_jwt X now tx token mid s =
     (case authenticate_web_jwt X now s token of
        Ok claims \<Rightarrow> (s, Ok claims)
      | _ \<Rightarrow> reject_web tx ''failed to validate token'' mid WebJwtFailed s)"

definition validate_user_node ::
  "server_ext \<Rightarrow> chan_id \<Rightarrow> WebJwtClaims \<Rightarrow> string \<Rightarrow> msg_id \<Rightarrow> AppState
     \<Rightarrow> AppState \<times> (web_ws_error, unit) outcome" where
  "validate_user_node X tx claims target mid s =
     (case x_parse_uuid X (wjc_sub claims) of
        None \<Rightarrow> (s, Err BadSubject)
      | Some user_id \<Rightarrow>
          (case x_parse_uuid X target of
             None \<Rightarrow> (s, Err BadNodeId)
           | Some node_id \<Rightarrow>
               (case get_node_by_id (st_db s) node_id of
                  Err e \<Rightarrow> reject_web tx ''failed to validate node ownership'' mid (NodeLoadFailed e) s
                | Panic \<Rightarrow> (s, Panic)
                | Ok node \<Rightarrow>
                    if nr_user_id node \<noteq> user_id
                    then reject_web tx ''you do not own this node'' mid NotOwner s
                    else (s, Ok ()))))"

definition successful_auth ::
  "chan_id \<Rightarrow> uuid \<Rightarrow> string \<Rightarrow> msg_id \<Rightarrow> AppState \<Rightarrow> AppState \<times> (web_ws_error, unit) outcome" where
  "successful_auth tx cid version mid s =
     (case send_to_web tx (WAuthSuccess cid version mid) s of
        (s', True) \<Rightarrow> (s', Ok ())
      | (s', False) \<Rightarrow> (s', Err WebResponseNotSent))"

text \<open>
  \<open>wait_for_auth\<close>. The connection id is a fresh random UUID, here an argument. Debug builds
  skip both checks.
\<close>

definition check_web_auth ::
  "server_ext \<Rightarrow> instant \<Rightarrow> chan_id \<Rightarrow> string \<Rightarrow> string \<Rightarrow> msg_id \<Rightarrow> AppState
     \<Rightarrow> AppState \<times> (web_ws_error, unit) outcome" where
  "check_web_auth X now tx token target mid s =
     (if x_debug_assertions X then (s, Ok ())
      else case validate_jwt X now tx token mid s of
        (s1, Ok claims) \<Rightarrow> validate_user_node X tx claims target mid s1
      | (s1, Err e) \<Rightarrow> (s1, Err e)
      | (s1, Panic) \<Rightarrow> (s1, Panic))"

definition wait_for_web_auth ::
  "server_ext \<Rightarrow> instant \<Rightarrow> uuid \<Rightarrow> chan_id \<Rightarrow> ws_event list \<Rightarrow> AppState
     \<Rightarrow> AppState \<times> (web_ws_error, uuid) outcome" where
  "wait_for_web_auth X now cid tx evs s =
     (case evs of
        [] \<Rightarrow> (s, Err WebClosedBeforeAuth)
      | WsError # _ \<Rightarrow> (s, Err WebStreamError)
      | WsClose # _ \<Rightarrow> (s, Err WebClosedBeforeAuth)
      | WsOther # _ \<Rightarrow> (s, Err WebExpectedBinary)
      | WsBinary data # _ \<Rightarrow>
          (case Frame_decode Native64 (x_codec X) data of
             Panic \<Rightarrow> (s, Panic)
           | Err e \<Rightarrow> (s, Err (WebAuthFrame e))
           | Ok frame \<Rightarrow>
               (case fr_data frame of
                  Node _ \<Rightarrow> (s, Err ExpectedWebFrame)
                | Web (WAuth token node_id version mid) \<Rightarrow>
                    (case check_web_auth X now tx token node_id mid s of
                       (s1, Ok _) \<Rightarrow>
                         (case successful_auth tx cid version mid s1 of
                            (s2, Ok _) \<Rightarrow> (s2, Ok cid)
                          | (s2, Err e) \<Rightarrow> (s2, Err e)
                          | (s2, Panic) \<Rightarrow> (s2, Panic))
                     | (s1, Err e) \<Rightarrow> (s1, Err e)
                     | (s1, Panic) \<Rightarrow> (s1, Panic))
                | Web _ \<Rightarrow> (s, Err WebExpectedAuth))))"

section \<open>Requests\<close>

text \<open>
  Every session request looks the session up, takes the node's sender out of the registry and
  forwards a frame built from the request; a failure at any point is logged and dropped.
\<close>

definition forward_to_session ::
  "server_ext \<Rightarrow> uuid \<Rightarrow> string \<Rightarrow> u32 \<Rightarrow> NodeFrameData \<Rightarrow> AppState \<Rightarrow> AppState" where
  "forward_to_session X cid target sid frame s =
     (case get_node_id_by_cid_and_sid X s cid target sid of
        Ok node_id \<Rightarrow>
          (case dm_get (st_nodes s) node_id of
             None \<Rightarrow> s
           | Some info \<Rightarrow> fst (send_to_node (nc_tx info) frame s))
      | _ \<Rightarrow> s)"

definition handle_web_tunnel_data ::
  "server_ext \<Rightarrow> uuid \<Rightarrow> u8 \<Rightarrow> u32 \<Rightarrow> string \<Rightarrow> bytes \<Rightarrow> AppState \<Rightarrow> AppState" where
  "handle_web_tunnel_data X cid protocol sid node_id data s =
     forward_to_session X cid node_id sid (NTunnelData protocol cid sid data) s"

definition handle_sftp_list ::
  "server_ext \<Rightarrow> uuid \<Rightarrow> u32 \<Rightarrow> string \<Rightarrow> string \<Rightarrow> msg_id \<Rightarrow> AppState \<Rightarrow> AppState" where
  "handle_sftp_list X cid sid target path mid s =
     forward_to_session X cid target sid (NSFTPList cid path sid mid) s"

definition handle_sftp_download_start ::
  "server_ext \<Rightarrow> uuid \<Rightarrow> u32 \<Rightarrow> string \<Rightarrow> msg_id \<Rightarrow> SFTPDownloadStart \<Rightarrow> AppState \<Rightarrow> AppState" where
  "handle_sftp_download_start X cid sid target mid download s =
     forward_to_session X cid target sid (NSFTPDownloadStart cid sid mid download) s"

definition handle_sftp_download_chunk_request ::
  "server_ext \<Rightarrow> uuid \<Rightarrow> u32 \<Rightarrow> string \<Rightarrow> msg_id \<Rightarrow> u32 \<Rightarrow> u32 \<Rightarrow> AppState \<Rightarrow> AppState" where
  "handle_sftp_download_chunk_request X cid sid target mid download_id chunk_index s =
     forward_to_session X cid target sid (NSFTPDownloadChunkRequest cid sid mid download_id chunk_index) s"

definition handle_sftp_upload_start ::
  "server_ext \<Rightarrow> uuid \<Rightarrow> u32 \<Rightarrow> string \<Rightarrow> msg_id \<Rightarrow> SFTPUploadStart \<Rightarrow> AppState \<Rightarrow> AppState" where
  "handle_sftp_upload_start X cid sid target mid upload s =
     forward_to_session X cid target sid (NSFTPUploadStart cid sid mid upload) s"

definition handle_sftp_upload ::
  "server_ext \<Rightarrow> uuid \<Rightarrow> u32 \<Rightarrow> string \<Rightarrow> msg_id \<Rightarrow> SFTPUploadChunk \<Rightarrow> AppState \<Rightarrow> AppState" where
  "handle_sftp_upload X cid sid target mid chunk s =
     forward_to_session X cid target sid (NSFTPUpload cid sid mid chunk) s"

definition handle_sftp_delete ::
  "server_ext \<Rightarrow> uuid \<Rightarrow> u32 \<Rightarrow> string \<Rightarrow> msg_id \<Rightarrow> SFTPDelete \<Rightarrow> AppState \<Rightarrow> AppState" where
  "handle_sftp_delete X cid sid target mid data s =
     forward_to_session X cid target sid (NSFTPDelete cid sid mid data) s"

definition handle_web_resize ::
  "server_ext \<Rightarrow> uuid \<Rightarrow> u32 \<Rightarrow> string \<Rightarrow> u32 \<Rightarrow> u32 \<Rightarrow> u32 \<Rightarrow> u32 \<Rightarrow> AppState \<Rightarrow> AppState" where
  "handle_web_resize X cid sid target cols rows px_width px_height s =
     forward_to_session X cid target sid (NSSHWindowResize cid sid cols rows px_width px_height) s"

definition handle_web_open_tunnel ::
  "server_ext \<Rightarrow> uuid \<Rightarrow> u8 \<Rightarrow> string \<Rightarrow> msg_id \<Rightarrow> string option \<Rightarrow> string option \<Rightarrow> AppState \<Rightarrow> AppState" where
  "handle_web_open_tunnel X cid protocol target mid username password s =
     (case x_parse_uuid X target of
        None \<Rightarrow> s
      | Some node_id \<Rightarrow>
          (case dm_get (st_nodes s) node_id of
             None \<Rightarrow>
               fst (notify_client_by_cid cid
                 (WError Generic (''Node[id='' @ x_uuid_str X node_id @ ''] could not be found'') mid) s)
           | Some info \<Rightarrow>
               fst (send_to_node (nc_tx info) (NOpenTunnel protocol cid username password mid) s)))"

definition update_web_heartbeat :: "instant \<Rightarrow> uuid \<Rightarrow> AppState \<Rightarrow> AppState" where
  "update_web_heartbeat now cid s =
     (case dm_get (st_connections s) cid of
        None \<Rightarrow> s
      | Some info \<Rightarrow>
          s\<lparr>st_connections := dm_insert cid (info\<lparr>wc_last_heartbeat := now\<rparr>) (st_connections s)\<rparr>)"

section \<open>The socket task\<close>

fun handle_web_frame ::
  "server_ext \<Rightarrow> instant \<Rightarrow> uuid \<Rightarrow> WebFrameData \<Rightarrow> AppState \<Rightarrow> AppState \<times> bool" where
  "handle_web_frame X now cid WHeartbeat s = (update_web_heartbeat now cid s, True)"
| "handle_web_frame X now cid (WAuth _ _ _ _) s = (s, False)"
| "handle_web_frame X now cid (WAuthSuccess _ _ _) s = (s, False)"
| "handle_web_frame X now cid (WOpenTunnel protocol target username password mid) s =
     (handle_web_open_tunnel X cid protocol target mid username password s, True)"
| "handle_web_frame X now cid (WTunnelOpened _ _ _) s = (s, False)"
| "handle_web_frame X now cid (WTunnelData protocol node_id sid data) s =
     (handle_web_tunnel_data X cid protocol sid node_id data s, True)"
| "handle_web_frame X now cid (WTunnelClosed _ _ _) s = (s, False)"
| "handle_web_frame X now cid (WSSHWindowResize node_id sid cols rows px_width px_height) s =
     (handle_web_resize X cid sid node_id cols rows px_width px_height s, True)"
| "handle_web_frame X now cid (WSFTPList node_id path sid mid) s =
     (handle_sftp_list X cid sid node_id path mid s, True)"
| "handle_web_frame X now cid (WSFTPListItems _ _ _ _) s = (s, False)"
| "handle_web_frame X now cid (WSFTPDownloadStart node_id sid mid download) s =
     (handle_sftp_download_start X cid sid node_id mid download s, True)"
| "handle_web_frame X now cid (WSFTPDownloadStartResponse _ _ _) s = (s, False)"
| "handle_web_frame X now cid (WSFTPDownloadChunkRequest node_id sid mid download_id chunk_index) s =
     (handle_sftp_download_chunk_request X cid sid node_id mid download_id chunk_index s, True)"
| "handle_web_frame X now cid (WSFTPDownloadChunk _ _ _) s = (s, False)"
| "handle_web_frame X now cid (WSFTPUploadStart node_id sid mid upload) s =
     (handle_sftp_upload_start X cid sid node_id mid upload s, True)"
| "handle_web_frame X now cid (WSFTPUploadStartResponse _ _ _) s = (s, False)"
| "handle_web_frame X now cid (WSFTPUpload node_id sid mid chunk) s =
     (handle_sftp_upload X cid sid node_id mid chunk s, True)"
| "handle_web_frame X now cid (WSFTPUploadChunkAck _ _ _) s = (s, False)"
| "handle_web_frame X now cid (WSFTPDelete node_id sid mid data) s =
     (handle_sftp_delete X cid sid node_id mid data s, True)"
| "handle_web_frame X now cid (WError _ _ _) s = (s, False)"

definition handle_web_event ::
  "server_ext \<Rightarrow> instant \<Rightarrow> uuid \<Rightarrow> ws_event \<Rightarrow> AppState \<Rightarrow> AppState \<times> bool" where
  "handle_web_event X now cid ev s =
     (case ev of
        WsError \<Rightarrow> (s, False)
      | WsClose \<Rightarrow> (s, False)
      | WsOther \<Rightarrow> (s, True)
      | WsBinary data \<Rightarrow>
          (case Frame_decode Native64 (x_codec X) data of
             Ok frame \<Rightarrow>
               (case fr_data frame of
                  Web web_frame \<Rightarrow> handle_web_frame X now cid web_frame s
                | Node _ \<Rightarrow> (s, False))
           | _ \<Rightarrow> (s, False)))"

fun handle_web_messages ::
  "server_ext \<Rightarrow> uuid \<Rightarrow> (instant \<times> ws_event) list \<Rightarrow> AppState \<Rightarrow> AppState" where
  "handle_web_messages X cid [] s = s"
| "handle_web_messages X cid ((now, ev) # evs) s =
     (case handle_web_event X now cid ev s of
        (s', True) \<Rightarrow> handle_web_messages X cid evs s'
      | (s', False) \<Rightarrow> s')"

definition notify_nodes_client_disconnect :: "uuid \<Rightarrow> AppState \<Rightarrow> AppState" where
  "notify_nodes_client_disconnect cid s =
     fold (\<lambda>(_, conn) t. fst (send_to_node (nc_tx conn) (NConnectionDisconnect cid) t))
       (dm_iter (st_nodes s)) s"

definition disconnect_web_client :: "server_ext \<Rightarrow> uuid \<Rightarrow> AppState \<Rightarrow> AppState" where
  "disconnect_web_client X cid s =
     (case dm_get (st_connections s) cid of
        None \<Rightarrow> notify_nodes_client_disconnect cid s
      | Some info \<Rightarrow>
          (let s1 = s\<lparr>st_connections := dm_remove cid (st_connections s)\<rparr>;
               s2 = s1\<lparr>st_memory_db := fst (set_connection_disconnected X cid (st_memory_db s1))\<rparr>
           in notify_nodes_client_disconnect cid s2))"

definition alloc_web_chan :: "AppState \<Rightarrow> AppState \<times> chan_id" where
  "alloc_web_chan s =
     (s\<lparr>st_web_chans := (st_web_chans s)(st_next_chan s := chan_new 256),
        st_next_chan := st_next_chan s + 1\<rparr>, st_next_chan s)"

definition close_web_chan :: "chan_id \<Rightarrow> AppState \<Rightarrow> AppState" where
  "close_web_chan tx s =
     s\<lparr>st_web_chans := (st_web_chans s)(tx := chan_close (st_web_chans s tx))\<rparr>"

definition web_socket_open ::
  "server_ext \<Rightarrow> instant \<Rightarrow> uuid \<Rightarrow> IpAddr \<Rightarrow> ws_event list \<Rightarrow> AppState
     \<Rightarrow> AppState \<times> (uuid \<times> chan_id) option" where
  "web_socket_open X now new_cid ip evs s =
     (case alloc_web_chan s of
        (s0, tx) \<Rightarrow>
          (case wait_for_web_auth X now new_cid tx evs s0 of
             (s1, Ok cid) \<Rightarrow>
               (let s2 = s1\<lparr>st_connections := dm_insert cid (WebConnection_new now ip tx) (st_connections s1)\<rparr>;
                    m = fst (set_connection_connected X cid ip (st_server s2) (st_memory_db s2))
                in (s2\<lparr>st_memory_db := m\<rparr>, Some (cid, tx)))
           | (s1, _) \<Rightarrow> (close_web_chan tx s1, None)))"

definition web_write_step ::
  "server_ext \<Rightarrow> chan_id \<Rightarrow> AppState \<Rightarrow> (AppState \<times> bytes option) option" where
  "web_write_step X tx s =
     (case chan_recv (st_web_chans s tx) of
        None \<Rightarrow> None
      | Some (f, c) \<Rightarrow>
          (let s' = s\<lparr>st_web_chans := (st_web_chans s)(tx := c)\<rparr>
           in case Frame_encode (x_codec X) (Frame_from_web f) of
                Ok bs \<Rightarrow> Some (s', Some bs)
              | _ \<Rightarrow> Some (close_web_chan tx s', None)))"

definition web_socket_end :: "server_ext \<Rightarrow> uuid \<Rightarrow> chan_id \<Rightarrow> AppState \<Rightarrow> AppState" where
  "web_socket_end X cid tx s = disconnect_web_client X cid (close_web_chan tx s)"

definition handle_web_socket ::
  "server_ext \<Rightarrow> instant \<Rightarrow> uuid \<Rightarrow> IpAddr \<Rightarrow> ws_event list \<Rightarrow> (instant \<times> ws_event) list
     \<Rightarrow> AppState \<Rightarrow> AppState" where
  "handle_web_socket X now new_cid ip first rest s =
     (case web_socket_open X now new_cid ip first s of
        (s1, None) \<Rightarrow> s1
      | (s1, Some (cid, tx)) \<Rightarrow>
          web_socket_end X cid tx (handle_web_messages X cid rest s1))"

text \<open>The subprotocols \<open>ws_web_handler\<close> offers back: the trimmed, non-empty parts.\<close>

definition requested_protocols :: "HeaderMap \<Rightarrow> string list" where
  "requested_protocols headers =
     (case header_text headers ''sec-websocket-protocol'' of
        None \<Rightarrow> []
      | Some value \<Rightarrow> filter (\<lambda>part. part \<noteq> []) (map trim (split_on CHR '','' value)))"

section \<open>Lemmas\<close>

lemma state_wf_send_to_web: "state_wf (fst (send_to_web tx f s)) = state_wf s"
  by (rule state_wf_frame) (simp_all add: srv_simps)

lemma state_wf_intro_web:
  assumes "state_wf s"
    and "st_nodes s' = st_nodes s" "st_tunnel_sessions s' = st_tunnel_sessions s"
    and "st_next_chan s \<le> st_next_chan s'" "dm_wf (st_connections s')"
    and "\<And>k v. dm_get (st_connections s') k = Some v \<Longrightarrow> wc_tx v < st_next_chan s'"
    and "\<And>i j c d. dm_get (st_connections s') i = Some c \<Longrightarrow> dm_get (st_connections s') j = Some d \<Longrightarrow>
           wc_tx c = wc_tx d \<Longrightarrow> i = j"
  shows "state_wf s'"
proof -
  have "chans_allocated s'" "chans_separate s'" "sessions_keyed s'"
    using assms by (fastforce simp: state_wf_def chans_allocated_def chans_separate_def sessions_keyed_def)+
  then show ?thesis
    using assms by (simp add: state_wf_def)
qed

lemma reject_web_cases:
  obtains e where "reject_web tx m mid err s = (fst (send_to_web tx (WError Authentication m mid) s), Err e)"
  by (cases "send_to_web tx (WError Authentication m mid) s";
    cases "snd (send_to_web tx (WError Authentication m mid) s)") (auto simp: reject_web_def)

lemma validate_jwt_cases:
  obtains (ok) claims where "validate_jwt X now tx token mid s = (s, Ok claims)"
      "authenticate_web_jwt X now s token = Ok claims"
    | (err) f e where "validate_jwt X now tx token mid s = (fst (send_to_web tx f s), Err e)"
proof (cases "authenticate_web_jwt X now s token")
  case (Ok claims)
  then show thesis
    using ok by (simp add: validate_jwt_def)
next
  case (Err x)
  show thesis
    by (rule reject_web_cases [of tx "''failed to validate token''" mid WebJwtFailed s])
      (rule err, simp add: validate_jwt_def Err)
next
  case Panic
  show thesis
    by (rule reject_web_cases [of tx "''failed to validate token''" mid WebJwtFailed s])
      (rule err, simp add: validate_jwt_def Panic)
qed

lemma validate_user_node_cases:
  obtains (ok) user nid row where "validate_user_node X tx claims target mid s = (s, Ok ())"
      "x_parse_uuid X (wjc_sub claims) = Some user" "x_parse_uuid X target = Some nid"
      "node_by_id (st_db s) nid = Some row" "row_user_id row = user"
    | (quiet) r where "validate_user_node X tx claims target mid s = (s, r)" "\<not> is_ok r"
    | (err) f e where "validate_user_node X tx claims target mid s = (fst (send_to_web tx f s), Err e)"
proof (cases "x_parse_uuid X (wjc_sub claims)")
  case None
  then show thesis
    using quiet [of "Err BadSubject"] by (simp add: validate_user_node_def)
next
  case user: (Some user)
  show thesis
  proof (cases "x_parse_uuid X target")
    case None
    then show thesis
      using user quiet [of "Err BadNodeId"] by (simp add: validate_user_node_def)
  next
    case nid: (Some nid)
    show thesis
    proof (cases "get_node_by_id (st_db s) nid")
      case (Ok node)
      then obtain row where row: "node_by_id (st_db s) nid = Some row" "nr_user_id node = row_user_id row"
        by (auto simp: get_node_by_id_def fetch_one_def node_record_of_def split: if_splits option.splits)
      show thesis
      proof (cases "nr_user_id node = user")
        case True
        then show thesis
          using ok user nid row Ok by (simp add: validate_user_node_def)
      next
        case False
        show thesis
          by (rule reject_web_cases [of tx "''you do not own this node''" mid NotOwner s])
            (rule err, use False user nid Ok in \<open>simp add: validate_user_node_def\<close>)
      qed
    next
      case (Err e)
      show thesis
        by (rule reject_web_cases [of tx "''failed to validate node ownership''" mid "NodeLoadFailed e" s])
          (rule err, use user nid Err in \<open>simp add: validate_user_node_def\<close>)
    next
      case Panic
      then show thesis
        using user nid quiet [of Panic] by (simp add: validate_user_node_def)
    qed
  qed
qed

lemma check_web_auth_cases:
  obtains (bypass) "x_debug_assertions X" "check_web_auth X now tx token target mid s = (s, Ok ())"
    | (ok) claims user nid row where "check_web_auth X now tx token target mid s = (s, Ok ())"
      "authenticate_web_jwt X now s token = Ok claims"
      "x_parse_uuid X (wjc_sub claims) = Some user" "x_parse_uuid X target = Some nid"
      "node_by_id (st_db s) nid = Some row" "row_user_id row = user"
    | (quiet) r where "check_web_auth X now tx token target mid s = (s, r)" "\<not> is_ok r"
    | (err) f e where "check_web_auth X now tx token target mid s = (fst (send_to_web tx f s), Err e)"
proof (cases "x_debug_assertions X")
  case True
  then show thesis
    using bypass by (simp add: check_web_auth_def)
next
  case False
  show thesis
  proof (cases rule: validate_jwt_cases [of X now tx token mid s])
    case jwt: (ok claims)
    then have eq: "check_web_auth X now tx token target mid s = validate_user_node X tx claims target mid s"
      using False by (simp add: check_web_auth_def)
    show thesis
      by (cases rule: validate_user_node_cases [of X tx claims target mid s])
        (use eq jwt ok quiet err in auto)
  next
    case e: (err f e)
    then show thesis
      using False err [of f e] by (simp add: check_web_auth_def)
  qed
qed

lemma successful_auth_cases:
  obtains r where "successful_auth tx cid v mid s = (fst (send_to_web tx (WAuthSuccess cid v mid) s), r)"
  by (cases "send_to_web tx (WAuthSuccess cid v mid) s";
    cases "snd (send_to_web tx (WAuthSuccess cid v mid) s)") (auto simp: successful_auth_def)

text \<open>Authentication sends at most one frame, on the socket's own channel.\<close>

lemma wait_for_web_auth_frame:
  assumes "Frame_decode Native64 (x_codec X) data = Ok frame" "fr_data frame = Web (WAuth token target v mid)"
  shows "fst (wait_for_web_auth X now cid tx (WsBinary data # rest) s) = s \<or>
   (\<exists>f. fst (wait_for_web_auth X now cid tx (WsBinary data # rest) s) = fst (send_to_web tx f s))"
proof -
  obtain r where succ: "successful_auth tx cid v mid s = (fst (send_to_web tx (WAuthSuccess cid v mid) s), r)"
    by (rule successful_auth_cases)
  show ?thesis
  proof (cases rule: check_web_auth_cases [of X now tx token target mid s])
    case bypass
    then show ?thesis
      using assms succ by (cases r) (auto simp: wait_for_web_auth_def)
  next
    case (ok claims user nid row)
    then show ?thesis
      using assms succ by (cases r) (auto simp: wait_for_web_auth_def)
  next
    case (quiet r')
    then show ?thesis
      using assms by (cases r') (auto simp: wait_for_web_auth_def)
  next
    case (err f e)
    then show ?thesis
      using assms by (auto simp: wait_for_web_auth_def)
  qed
qed

lemma wait_for_web_auth_state:
  "fst (wait_for_web_auth X now cid tx evs s) = s \<or>
   (\<exists>f. fst (wait_for_web_auth X now cid tx evs s) = fst (send_to_web tx f s))"
proof (cases "\<exists>data rest frame token target v mid. evs = WsBinary data # rest \<and>
    Frame_decode Native64 (x_codec X) data = Ok frame \<and> fr_data frame = Web (WAuth token target v mid)")
  case True
  then show ?thesis
    using wait_for_web_auth_frame by blast
next
  case False
  then have "fst (wait_for_web_auth X now cid tx evs s) = s"
    by (auto simp: wait_for_web_auth_def
        split: list.splits ws_event.splits outcome.splits FrameData.splits WebFrameData.splits)
  then show ?thesis ..
qed

lemma wait_for_web_auth_Ok:
  assumes "wait_for_web_auth X now cid tx evs s = (s', Ok cid')"
  obtains data rest frame token target v mid
  where "evs = WsBinary data # rest" "Frame_decode Native64 (x_codec X) data = Ok frame"
    and "fr_data frame = Web (WAuth token target v mid)" "cid' = cid"
    and "check_web_auth X now tx token target mid s = (s, Ok ())"
    and "s' = fst (send_to_web tx (WAuthSuccess cid v mid) s)"
proof -
  from assms obtain data rest frame token target v mid where
    *: "evs = WsBinary data # rest" "Frame_decode Native64 (x_codec X) data = Ok frame"
    "fr_data frame = Web (WAuth token target v mid)"
    by (auto simp: wait_for_web_auth_def
        split: list.splits ws_event.splits outcome.splits FrameData.splits WebFrameData.splits)
  obtain s1 where chk: "check_web_auth X now tx token target mid s = (s1, Ok ())"
    using assms * by (auto simp: wait_for_web_auth_def split: prod.splits outcome.splits)
  have "s1 = s"
    by (cases rule: check_web_auth_cases [of X now tx token target mid s]) (use chk in auto)
  moreover have "cid' = cid" "s' = fst (send_to_web tx (WAuthSuccess cid v mid) s1)"
    using assms * chk
    by (auto simp: wait_for_web_auth_def successful_auth_def split: prod.splits outcome.splits bool.splits)
  ultimately show thesis
    using that * chk by blast
qed

text \<open>Opening and ending a socket.\<close>

lemma web_socket_open_Some:
  assumes "web_socket_open X now new_cid ip evs s = (s', Some (cid, tx))"
  obtains s1 where "tx = st_next_chan s"
    and "wait_for_web_auth X now new_cid tx evs (fst (alloc_web_chan s)) = (s1, Ok cid)"
    and "s' = s1\<lparr>st_connections := dm_insert cid (WebConnection_new now ip tx) (st_connections s1),
           st_memory_db := fst (set_connection_connected X cid ip (st_server s1) (st_memory_db s1))\<rparr>"
proof -
  obtain s1 r where w: "wait_for_web_auth X now new_cid (st_next_chan s) evs (fst (alloc_web_chan s)) = (s1, r)"
    by (cases "wait_for_web_auth X now new_cid (st_next_chan s) evs (fst (alloc_web_chan s))")
  with assms obtain c where "r = Ok c"
    by (auto simp: web_socket_open_def alloc_web_chan_def split: outcome.splits)
  with assms w that show thesis
    by (auto simp: web_socket_open_def alloc_web_chan_def Let_def)
qed

lemma web_socket_open_None:
  assumes "web_socket_open X now new_cid ip evs s = (s', None)"
  shows "s' = close_web_chan (st_next_chan s)
     (fst (wait_for_web_auth X now new_cid (st_next_chan s) evs (fst (alloc_web_chan s))))"
  using assms
  by (auto simp: web_socket_open_def alloc_web_chan_def Let_def split: prod.splits outcome.splits)

lemma alloc_web_chan_wf: "state_wf s \<Longrightarrow> state_wf (fst (alloc_web_chan s))"
  by (auto simp: alloc_web_chan_def state_wf_def chans_allocated_def chans_separate_def sessions_keyed_def
      intro: less_SucI)

lemma wait_for_web_auth_wf:
  "state_wf s \<Longrightarrow> state_wf (fst (wait_for_web_auth X now cid tx evs s))"
  using wait_for_web_auth_state [of X now cid tx evs s] state_wf_send_to_web by metis

lemma web_socket_open_wf:
  assumes "state_wf s"
  shows "state_wf (fst (web_socket_open X now new_cid ip evs s))"
proof (cases "snd (web_socket_open X now new_cid ip evs s)")
  case None
  then show ?thesis
    using web_socket_open_None [of X now new_cid ip evs s] assms
    by (metis alloc_web_chan_wf close_web_chan_def prod.collapse state_wf_update(3) wait_for_web_auth_wf)
next
  case (Some p)
  then obtain cid tx where "web_socket_open X now new_cid ip evs s
      = (fst (web_socket_open X now new_cid ip evs s), Some (cid, tx))"
    by (metis prod.collapse)
  then obtain s1 where tx: "tx = st_next_chan s"
    and w: "wait_for_web_auth X now new_cid tx evs (fst (alloc_web_chan s)) = (s1, Ok cid)"
    and s': "fst (web_socket_open X now new_cid ip evs s)
      = s1\<lparr>st_connections := dm_insert cid (WebConnection_new now ip tx) (st_connections s1),
           st_memory_db := fst (set_connection_connected X cid ip (st_server s1) (st_memory_db s1))\<rparr>"
    by (rule web_socket_open_Some)
  have wf: "state_wf s1"
    using wait_for_web_auth_wf [OF alloc_web_chan_wf [OF assms], of X now new_cid tx evs] w by simp
  have next_chan: "st_next_chan s1 = st_next_chan s + 1" and conns: "st_connections s1 = st_connections s"
    using wait_for_web_auth_state [of X now new_cid tx evs "fst (alloc_web_chan s)"] w
    by (auto simp: srv_simps alloc_web_chan_def)
  have fresh: "\<forall>i c. dm_get (st_connections s1) i = Some c \<longrightarrow> wc_tx c \<noteq> st_next_chan s"
    using assms by (fastforce simp: conns state_wf_def chans_allocated_def)
  show ?thesis
    unfolding s' using wf next_chan fresh
    by (intro state_wf_intro_web [OF wf];
      auto simp: state_wf_def chans_allocated_def chans_separate_def dm_simps dm.wf_insert tx
        WebConnection_new_def split: if_splits; blast)
qed

lemma update_web_heartbeat_wf:
  assumes "state_wf s"
  shows "state_wf (update_web_heartbeat now cid s)"
proof (cases "dm_get (st_connections s) cid")
  case (Some info)
  show ?thesis
    by (rule state_wf_intro_web [OF assms])
      (use assms Some in \<open>auto simp: update_web_heartbeat_def state_wf_def chans_allocated_def
        chans_separate_def dm_simps dm.wf_insert split: if_splits\<close>)
qed (use assms in \<open>simp add: update_web_heartbeat_def\<close>)

lemma forward_wf [simp]: "state_wf (forward_to_session X cid target sid f s) = state_wf s"
  by (simp add: forward_to_session_def state_wf_send_to_node split: outcome.splits option.splits)

lemma open_tunnel_wf [simp]: "state_wf (handle_web_open_tunnel X cid p t m u pw s) = state_wf s"
  by (simp add: handle_web_open_tunnel_def state_wf_send_to_node state_wf_notify split: option.splits)

lemmas web_forwarders = handle_web_tunnel_data_def handle_sftp_list_def handle_sftp_download_start_def
  handle_sftp_download_chunk_request_def handle_sftp_upload_start_def handle_sftp_upload_def
  handle_sftp_delete_def handle_web_resize_def

lemma handle_web_frame_wf: "state_wf s \<Longrightarrow> state_wf (fst (handle_web_frame X now cid f s))"
  by (cases f) (simp_all add: web_forwarders update_web_heartbeat_wf)

lemma handle_web_event_wf: "state_wf s \<Longrightarrow> state_wf (fst (handle_web_event X now cid ev s))"
  by (auto simp: handle_web_event_def handle_web_frame_wf
      split: ws_event.splits outcome.splits FrameData.splits)

lemma handle_web_messages_wf: "state_wf s \<Longrightarrow> state_wf (handle_web_messages X cid evs s)"
proof (induction X cid evs s rule: handle_web_messages.induct)
  case (2 X cid now ev evs s)
  then show ?case
    using handle_web_event_wf [OF 2(2), of X now cid ev]
    by (auto split: prod.splits bool.splits)
qed simp

text \<open>The broadcast to all nodes, as a fold over the registry.\<close>

abbreviation send_all :: "NodeFrameData \<Rightarrow> (uuid \<times> NodeConnection) list \<Rightarrow> AppState \<Rightarrow> AppState" where
  "send_all f \<equiv> fold (\<lambda>(_, conn) t. fst (send_to_node (nc_tx conn) f t))"

lemma send_all_fields [srv_simps]:
  "st_nodes (send_all f L s) = st_nodes s"
  "st_connections (send_all f L s) = st_connections s"
  "st_tunnel_sessions (send_all f L s) = st_tunnel_sessions s"
  "st_memory_db (send_all f L s) = st_memory_db s"
  "st_web_chans (send_all f L s) = st_web_chans s"
  "st_next_chan (send_all f L s) = st_next_chan s"
  "st_db (send_all f L s) = st_db s"
  by (induction L arbitrary: s) (auto simp: srv_simps case_prod_unfold)

lemma send_all_closed [chan_simps]:
  "ch_closed (st_node_chans (send_all f L s) tx) = ch_closed (st_node_chans s tx)"
  by (induction L arbitrary: s) (auto simp: chan_simps case_prod_unfold)

lemma send_all_queue:
  "node_queue (send_all f L s) tx = node_queue s tx @
     (if ch_closed (st_node_chans s tx) then []
      else replicate (length (filter (\<lambda>(_, c). nc_tx c = tx) L)) f)"
  by (induction L arbitrary: s) (auto simp: node_queue_send chan_simps case_prod_unfold)

lemma notify_nodes_wf [simp]: "state_wf (notify_nodes_client_disconnect cid s) = state_wf s"
  by (rule state_wf_frame) (simp_all add: notify_nodes_client_disconnect_def srv_simps)

lemma disconnect_web_client_wf:
  assumes "state_wf s"
  shows "state_wf (disconnect_web_client X cid s)"
proof (cases "dm_get (st_connections s) cid")
  case (Some info)
  have "state_wf (s\<lparr>st_connections := dm_remove cid (st_connections s)\<rparr>)"
    by (rule state_wf_intro_web [OF assms])
      (use assms in \<open>auto simp: state_wf_def chans_allocated_def chans_separate_def dm_simps
        dm.wf_remove split: if_splits\<close>)
  then show ?thesis
    using Some by (simp add: disconnect_web_client_def Let_def)
qed (use assms in \<open>simp add: disconnect_web_client_def\<close>)

lemma web_socket_end_wf: "state_wf s \<Longrightarrow> state_wf (web_socket_end X cid tx s)"
  by (simp add: web_socket_end_def close_web_chan_def disconnect_web_client_wf)

text \<open>With separate channels, one registered node accounts for one frame.\<close>

lemma registered_once:
  assumes "state_wf s" "dm_get (st_nodes s) nid = Some info"
  shows "length (filter (\<lambda>(_, c). nc_tx c = nc_tx info) (dm_iter (st_nodes s))) = 1"
proof -
  have wf: "dm_wf (st_nodes s)"
    using assms(1) by (simp add: state_wf_def)
  have sep: "i = nid" if "dm_get (st_nodes s) i = Some c" "nc_tx c = nc_tx info" for i c
    using assms that by (simp add: state_wf_def chans_separate_def)
  have mem: "(i, c) \<in> set (dm_iter (st_nodes s)) \<and> nc_tx c = nc_tx info \<longleftrightarrow> i = nid \<and> c = info" for i c
    using assms(2) sep [of i c] by (auto simp: dm.iter_get [OF wf])
  have "set (filter (\<lambda>(_, c). nc_tx c = nc_tx info) (dm_iter (st_nodes s))) = {(nid, info)}"
    using mem by auto
  moreover have "distinct (filter (\<lambda>(_, c). nc_tx c = nc_tx info) (dm_iter (st_nodes s)))"
    using dm.iter_distinct [OF wf] by (simp add: distinct_map)
  ultimately show ?thesis
    using distinct_card by fastforce
qed

section \<open>The contract of the session requests\<close>

text \<open>
  What a request of a client asks for: the node and session it names and the frame the node
  is to receive, with the client's own connection id in it. Other frames are no requests.
\<close>

fun web_request :: "uuid \<Rightarrow> WebFrameData \<Rightarrow> (string \<times> u32 \<times> NodeFrameData) option" where
  "web_request cid (WTunnelData p t sid d) = Some (t, sid, NTunnelData p cid sid d)"
| "web_request cid (WSSHWindowResize t sid c r w h) = Some (t, sid, NSSHWindowResize cid sid c r w h)"
| "web_request cid (WSFTPList t path sid m) = Some (t, sid, NSFTPList cid path sid m)"
| "web_request cid (WSFTPDownloadStart t sid m d) = Some (t, sid, NSFTPDownloadStart cid sid m d)"
| "web_request cid (WSFTPDownloadChunkRequest t sid m d i) = Some (t, sid, NSFTPDownloadChunkRequest cid sid m d i)"
| "web_request cid (WSFTPUploadStart t sid m u) = Some (t, sid, NSFTPUploadStart cid sid m u)"
| "web_request cid (WSFTPUpload t sid m c) = Some (t, sid, NSFTPUpload cid sid m c)"
| "web_request cid (WSFTPDelete t sid m d) = Some (t, sid, NSFTPDelete cid sid m d)"
| "web_request cid _ = None"

text \<open>The channel a session request may reach: the session must exist and belong to the client.\<close>

definition session_chan :: "server_ext \<Rightarrow> AppState \<Rightarrow> uuid \<Rightarrow> string \<Rightarrow> u32 \<Rightarrow> chan_id option" where
  "session_chan X s cid target sid =
     (case x_parse_uuid X target of
        None \<Rightarrow> None
      | Some nid \<Rightarrow>
          if dm_get (st_tunnel_sessions s) (TunnelSessionKey_new nid sid) = Some (cid, nid)
          then map_option nc_tx (dm_get (st_nodes s) nid) else None)"

lemma forward_session_chan:
  assumes "sessions_keyed s"
  shows "forward_to_session X cid target sid f s =
     (case session_chan X s cid target sid of None \<Rightarrow> s | Some tx \<Rightarrow> fst (send_to_node tx f s))"
proof (cases "\<exists>nid. get_node_id_by_cid_and_sid X s cid target sid = Ok nid")
  case True
  then obtain nid where nid: "get_node_id_by_cid_and_sid X s cid target sid = Ok nid" ..
  then have "session_chan X s cid target sid = map_option nc_tx (dm_get (st_nodes s) nid)"
    using lookup_node_ok [OF assms] by (simp add: session_chan_def)
  with nid show ?thesis
    by (simp add: forward_to_session_def split: option.splits)
next
  case False
  then have "session_chan X s cid target sid = None"
    using lookup_node_ok [OF assms] by (auto simp: session_chan_def split: option.splits)
  with False show ?thesis
    by (auto simp: forward_to_session_def split: outcome.splits)
qed

section \<open>Properties\<close>

text \<open>
  C9: every session request of a client implements the same contract: the corresponding node
  frame, stamped with the client's own id, is appended to the channel of the node named in the
  request if that node has the named session with this very client, and otherwise nothing
  happens; the connection stays up in either case.
\<close>

theorem web_request_forwarded:
  assumes "sessions_keyed s" and "web_request cid f = Some (target, sid, frame)"
  shows "handle_web_frame X now cid f s =
     ((case session_chan X s cid target sid of
         None \<Rightarrow> s | Some tx \<Rightarrow> fst (send_to_node tx frame s)), True)"
  using assms(2) forward_session_chan [OF assms(1)]
  by (cases "(cid, f)" rule: web_request.cases) (auto simp: web_forwarders)

theorem web_request_forwarded_witness:
  "node_queue (fst (handle_web_frame example_ext 10 5 (WTunnelData 0 ''n1'' 9 [65]) example_state)) 0
     = [NTunnelData 0 5 9 [65]]"
proof -
  have "sessions_keyed example_state"
    using example_state_wf by (simp add: state_wf_def)
  moreover have "session_chan example_ext example_state 5 ''n1'' 9 = Some 0"
    by (simp add: session_chan_def example_defs)
  moreover have "node_queue example_state 0 = []" "\<not> ch_closed (st_node_chans example_state 0)"
    by (simp_all add: example_defs chan_new_def)
  ultimately show ?thesis
    using web_request_forwarded [of example_state 5 "WTunnelData 0 ''n1'' 9 [65]"]
    by (simp add: node_queue_send)
qed

text \<open>
  A client cannot reach into another client's tunnel: a session request for a session
  that is absent or recorded for a different client changes nothing at all.
\<close>

theorem foreign_session_unreachable:
  assumes "sessions_keyed s" and "web_request cid f = Some (target, sid, frame)"
    and "x_parse_uuid X target = Some nid"
    and "\<nexists>n. dm_get (st_tunnel_sessions s) (TunnelSessionKey_new nid sid) = Some (cid, n)"
  shows "handle_web_frame X now cid f s = (s, True)"
proof -
  have "session_chan X s cid target sid = None"
    using assms(3,4) by (simp add: session_chan_def)
  then show ?thesis
    using assms(2) forward_session_chan [OF assms(1)]
    by (cases "(cid, f)" rule: web_request.cases) (auto simp: web_forwarders)
qed

theorem foreign_session_unreachable_witness:
  "handle_web_frame example_ext 10 6 (WTunnelData 0 ''n1'' 9 [65]) example_state = (example_state, True)"
  by (rule foreign_session_unreachable)
    (use example_state_wf in \<open>auto simp: state_wf_def example_defs\<close>)

text \<open>
  Opening a tunnel is not checked against ownership: whatever node a connected client
  names and whatever protocol byte it sends, the request goes to that node if it is registered,
  without a look at the database.
\<close>

theorem open_tunnel_unchecked:
  assumes "x_parse_uuid X target = Some nid" and "dm_get (st_nodes s) nid = Some info"
    and "\<not> ch_closed (st_node_chans s (nc_tx info))"
  shows "node_queue (fst (handle_web_frame X now cid (WOpenTunnel p target u pw mid) s)) (nc_tx info)
     = node_queue s (nc_tx info) @ [NOpenTunnel p cid u pw mid]"
  using assms by (simp add: handle_web_open_tunnel_def node_queue_send)

theorem open_tunnel_unchecked_witness:
  "node_queue (fst (handle_web_frame example_ext 10 6 (WOpenTunnel 200 ''n1'' None None None) example_state)) 0
     = [NOpenTunnel 200 6 None None None]"
  using open_tunnel_unchecked [of example_ext "''n1''" 1 example_state
      "NodeConnection_new 0 42 (V4 1) 0 example_record" 10 6 200 None None None]
  by (simp add: example_defs chan_new_def)

text \<open>
  C17: in a release build a client is connected only if its token decodes to a user that
  exists and the node it names is registered to that user; its fresh channel then holds exactly
  the success frame. A debug build skips the check.
\<close>

theorem web_registration_sound:
  assumes "web_socket_open X now new_cid ip evs s = (s', Some (cid, tx))"
    and "\<not> x_debug_assertions X"
  shows "\<exists>data rest frame token target v mid claims user nid row.
     evs = WsBinary data # rest \<and> Frame_decode Native64 (x_codec X) data = Ok frame \<and>
     fr_data frame = Web (WAuth token target v mid) \<and>
     x_jwt_decode_web X (env_jwt_secret (st_env s)) now token = Some claims \<and>
     x_parse_uuid X (wjc_sub claims) = Some user \<and> user \<in> set (t_users (st_db s)) \<and>
     x_parse_uuid X target = Some nid \<and> node_by_id (st_db s) nid = Some row \<and> row_user_id row = user \<and>
     cid = new_cid \<and> dm_get (st_connections s') cid = Some (WebConnection_new now ip tx) \<and>
     web_queue s' tx = [WAuthSuccess cid v mid]"
proof -
  let ?s0 = "fst (alloc_web_chan s)"
  obtain s1 where tx: "tx = st_next_chan s"
    and w: "wait_for_web_auth X now new_cid tx evs ?s0 = (s1, Ok cid)"
    and s': "s' = s1\<lparr>st_connections := dm_insert cid (WebConnection_new now ip tx) (st_connections s1),
           st_memory_db := fst (set_connection_connected X cid ip (st_server s1) (st_memory_db s1))\<rparr>"
    using assms(1) by (rule web_socket_open_Some)
  obtain data rest frame token target v mid where
    fr: "evs = WsBinary data # rest" "Frame_decode Native64 (x_codec X) data = Ok frame"
      "fr_data frame = Web (WAuth token target v mid)" "cid = new_cid"
    and chk: "check_web_auth X now tx token target mid ?s0 = (?s0, Ok ())"
    and s1: "s1 = fst (send_to_web tx (WAuthSuccess new_cid v mid) ?s0)"
    using w by (rule wait_for_web_auth_Ok)
  have same: "st_env ?s0 = st_env s" "st_db ?s0 = st_db s"
    by (simp_all add: alloc_web_chan_def)
  obtain claims user nid row where
    auth: "authenticate_web_jwt X now ?s0 token = Ok claims" "x_parse_uuid X (wjc_sub claims) = Some user"
      "x_parse_uuid X target = Some nid" "node_by_id (st_db ?s0) nid = Some row" "row_user_id row = user"
    by (cases rule: check_web_auth_cases [of X now tx token target mid ?s0]) (use chk assms(2) in auto)
  have user: "user \<in> set (t_users (st_db s))"
      "x_jwt_decode_web X (env_jwt_secret (st_env s)) now token = Some claims"
    using auth(1,2)
    by (auto simp: same authenticate_web_jwt_def user_exists_def fetch_one_def
        split: option.splits outcome.splits if_splits)
  have "web_queue s1 tx = [WAuthSuccess new_cid v mid]"
    by (simp add: s1 web_queue_send alloc_web_chan_def tx chan_simps)
  with fr auth user show ?thesis
    by (auto simp: s' same dm_simps)
qed

lemma example_web_check:
  assumes "st_db s = example_db"
  shows "check_web_auth example_ext now tx ''web'' ''n1'' mid s = (s, Ok ())"
  by (simp add: assms check_web_auth_def validate_jwt_def authenticate_web_jwt_def validate_user_node_def
      user_exists_def fetch_one_def get_node_by_id_def node_by_id_def example_ext_def example_db_def
      example_row_def node_record_of_def)

lemma example_web_open:
  assumes "st_db s = example_db"
  shows "web_socket_open example_ext now cid ip [WsBinary (web_msg 10 1)] s
    = (fst (web_socket_open example_ext now cid ip [WsBinary (web_msg 10 1)] s), Some (cid, st_next_chan s))"
proof -
  obtain s0 where s0: "alloc_web_chan s = (s0, st_next_chan s)" "st_db s0 = example_db"
    "\<not> ch_closed (st_web_chans s0 (st_next_chan s))"
    using assms by (simp add: alloc_web_chan_def chan_simps)
  have "Frame_decode Native64 (x_codec example_ext) (web_msg 10 1)
      = Ok \<lparr>fr_version = 1, fr_encoding = MessagePack, fr_data = Web (WAuth ''web'' ''n1'' ''1.0'' None)\<rparr>"
    using decode_web_msg [of 1 10] by (simp add: example_web_frames_def example_ext_def)
  then show ?thesis
    using s0 example_web_check [OF s0(2), of now "st_next_chan s" None]
    by (simp add: web_socket_open_def wait_for_web_auth_def successful_auth_def case_prod_unfold
        chan_simps Let_def)
qed

theorem web_registration_sound_witness:
  "let s' = fst (web_socket_open example_ext 10 5 (V4 2) [WsBinary (web_msg 10 1)] empty_state) in
     dm_get (st_connections s') 5 = Some (WebConnection_new 10 (V4 2) 0) \<and>
     (\<exists>v mid. web_queue s' 0 = [WAuthSuccess 5 v mid])"
proof -
  have "st_db empty_state = example_db" "st_next_chan empty_state = 0" "\<not> x_debug_assertions example_ext"
    by (simp_all add: empty_state_def example_ext_def)
  with web_registration_sound [OF example_web_open [of empty_state 10 5 "V4 2"]] show ?thesis
    by (auto simp: Let_def)
qed

text \<open>
  A rejected client leaves no trace outside its own channel, and the error frame that
  explains the rejection stays there: the channel is closed before a writer exists.
\<close>

theorem web_rejection_changes_nothing:
  assumes "web_socket_open X now new_cid ip evs s = (s', None)"
  shows "\<exists>c. s' = s\<lparr>st_web_chans := (st_web_chans s)(st_next_chan s := c),
                 st_next_chan := st_next_chan s + 1\<rparr> \<and>
             ch_closed c \<and> length (ch_queue c) \<le> 1"
proof -
  let ?tx = "st_next_chan s" let ?s0 = "fst (alloc_web_chan s)"
  have s0: "?s0 = s\<lparr>st_web_chans := (st_web_chans s)(?tx := chan_new 256), st_next_chan := ?tx + 1\<rparr>"
    by (simp add: alloc_web_chan_def)
  consider "fst (wait_for_web_auth X now new_cid ?tx evs ?s0) = ?s0"
    | f where "fst (wait_for_web_auth X now new_cid ?tx evs ?s0) = fst (send_to_web ?tx f ?s0)"
    using wait_for_web_auth_state by blast
  then show ?thesis
  proof cases
    case 1
    then show ?thesis
      using web_socket_open_None [OF assms]
      by (auto simp: s0 close_web_chan_def chan_simps intro!: exI [of _ "chan_close (chan_new 256)"])
  next
    case 2
    then show ?thesis
      using web_socket_open_None [OF assms]
      by (auto simp: s0 close_web_chan_def send_to_web_def chan_send_def chan_simps
          intro!: exI [of _ "chan_close ((chan_new 256)\<lparr>ch_queue := [f]\<rparr>)"])
  qed
qed

theorem web_rejection_changes_nothing_witness:
  "\<exists>c. fst (web_socket_open example_ext 10 5 (V4 2) [WsClose] empty_state)
      = empty_state\<lparr>st_web_chans := (st_web_chans empty_state)(0 := c), st_next_chan := 1\<rparr> \<and>
     ch_closed c \<and> length (ch_queue c) \<le> 1"
proof -
  have "web_socket_open example_ext 10 5 (V4 2) [WsClose] empty_state
      = (fst (web_socket_open example_ext 10 5 (V4 2) [WsClose] empty_state), None)"
    by (simp add: web_socket_open_def wait_for_web_auth_def alloc_web_chan_def)
  from web_rejection_changes_nothing [OF this] show ?thesis
    by (simp add: empty_state_def)
qed

text \<open>
  Whatever a client sends over the life of its socket, the shared state stays well
  formed.
\<close>

theorem web_socket_preserves_wf:
  assumes "state_wf s"
  shows "state_wf (handle_web_socket X now new_cid ip first rest s)"
  using web_socket_open_wf [OF assms, of X now new_cid ip first]
  by (auto simp: handle_web_socket_def handle_web_messages_wf web_socket_end_wf
      split: prod.splits option.splits)

theorem web_socket_preserves_wf_witness:
  "state_wf (handle_web_socket example_ext 10 5 (V4 2) [WsBinary (web_msg 10 1)]
     [(11, WsBinary (web_msg 1 0))] empty_state)"
  by (rule web_socket_preserves_wf [OF empty_state_wf])

text \<open>
  A message from one client leaves the nodes, the tunnel sessions, the database and all
  other clients alone: their entries and their channels are unchanged.
\<close>

theorem web_event_isolation:
  assumes "state_wf s" and "dm_get (st_connections s) cid = Some info"
  shows "let s' = fst (handle_web_event X now cid ev s) in
     st_nodes s' = st_nodes s \<and> st_tunnel_sessions s' = st_tunnel_sessions s \<and> st_db s' = st_db s \<and>
     (\<forall>c. c \<noteq> cid \<longrightarrow> dm_get (st_connections s') c = dm_get (st_connections s) c) \<and>
     (\<forall>tx. tx \<noteq> wc_tx info \<longrightarrow> web_queue s' tx = web_queue s tx)"
proof -
  have fwd: "st_nodes (forward_to_session X cid t sid f s) = st_nodes s"
    "st_tunnel_sessions (forward_to_session X cid t sid f s) = st_tunnel_sessions s"
    "st_db (forward_to_session X cid t sid f s) = st_db s"
    "st_connections (forward_to_session X cid t sid f s) = st_connections s"
    "st_web_chans (forward_to_session X cid t sid f s) = st_web_chans s" for t sid f
    by (simp_all add: forward_to_session_def srv_simps split: outcome.splits option.splits)
  have own: "client_chan s cid = Some tx \<Longrightarrow> tx = wc_tx info" for tx
    using assms(2) by (simp add: client_chan_def split: if_splits)
  have "let s' = fst (handle_web_frame X now cid f s) in
     st_nodes s' = st_nodes s \<and> st_tunnel_sessions s' = st_tunnel_sessions s \<and> st_db s' = st_db s \<and>
     (\<forall>c. c \<noteq> cid \<longrightarrow> dm_get (st_connections s') c = dm_get (st_connections s) c) \<and>
     (\<forall>tx. tx \<noteq> wc_tx info \<longrightarrow> web_queue s' tx = web_queue s tx)" for f
    using own
    by (cases f)
      (auto simp: Let_def web_forwarders fwd update_web_heartbeat_def handle_web_open_tunnel_def
        srv_simps dm_simps notify_queue split: option.splits)
  then show ?thesis
    by (auto simp: handle_web_event_def Let_def split: ws_event.splits outcome.splits FrameData.splits)
qed

theorem web_event_isolation_witness:
  "st_nodes (fst (handle_web_event example_ext 10 5 (WsBinary (web_msg 22 2)) example_state))
     = st_nodes example_state"
  using web_event_isolation [OF example_state_wf, of 5 "WebConnection_new 0 (V4 2) 1" example_ext 10
      "WsBinary (web_msg 22 2)"]
  by (simp add: Let_def) (simp add: example_state_def empty_state_def dm_get_def)

text \<open>
  When a client goes, its entry is removed and every registered node with an open channel
  is told exactly once; the tunnel sessions of the client stay in the registry, where the nodes'
  own close notices have to remove them.
\<close>

theorem disconnect_web_notifies_nodes:
  assumes "state_wf s"
  shows "let s' = disconnect_web_client X cid s in
     (\<forall>c. dm_get (st_connections s') c = (if c = cid then None else dm_get (st_connections s) c)) \<and>
     (\<forall>nid info. dm_get (st_nodes s) nid = Some info \<longrightarrow>
        node_queue s' (nc_tx info) = node_queue s (nc_tx info) @
          (if ch_closed (st_node_chans s (nc_tx info)) then [] else [NConnectionDisconnect cid])) \<and>
     st_tunnel_sessions s' = st_tunnel_sessions s"
proof -
  define s2 where "s2 = (case dm_get (st_connections s) cid of None \<Rightarrow> s
    | Some info \<Rightarrow> s\<lparr>st_connections := dm_remove cid (st_connections s),
        st_memory_db := fst (set_connection_disconnected X cid (st_memory_db s))\<rparr>)"
  have s': "disconnect_web_client X cid s = notify_nodes_client_disconnect cid s2"
    by (simp add: disconnect_web_client_def s2_def Let_def split: option.splits)
  have s2: "st_nodes s2 = st_nodes s" "st_node_chans s2 = st_node_chans s"
    "st_tunnel_sessions s2 = st_tunnel_sessions s"
    "dm_get (st_connections s2) c = (if c = cid then None else dm_get (st_connections s) c)" for c
    by (auto simp: s2_def dm_simps split: option.splits)
  show ?thesis
    using registered_once [OF assms]
    by (simp add: Let_def s' notify_nodes_client_disconnect_def srv_simps s2 send_all_queue)
qed

theorem disconnect_web_notifies_nodes_witness:
  "node_queue (disconnect_web_client example_ext 5 example_state) 0 = [NConnectionDisconnect 5]"
proof -
  let ?c = "NodeConnection_new 0 42 (V4 1) 0 example_record"
  have node: "dm_get (st_nodes example_state) 1 = Some ?c"
    by (simp add: example_state_def empty_state_def dm_get_def)
  have "node_queue (disconnect_web_client example_ext 5 example_state) (nc_tx ?c)
      = node_queue example_state (nc_tx ?c) @
        (if ch_closed (st_node_chans example_state (nc_tx ?c)) then [] else [NConnectionDisconnect 5])"
    using disconnect_web_notifies_nodes [OF example_state_wf, of example_ext 5] node
    unfolding Let_def by blast
  moreover have "nc_tx ?c = 0" "node_queue example_state 0 = []" "\<not> ch_closed (st_node_chans example_state 0)"
    by (simp_all add: example_state_def empty_state_def NodeConnection_new_def chan_new_def)
  ultimately show ?thesis
    by simp
qed

end
