(* ===== verification/Server_Tasks.thy ===== *)
theory Server_Tasks
  imports Server_Web
begin

text \<open>
  The periodic tasks of the server (\<open>server/src/tasks.rs\<close>): the sweep that drops silent
  connections and nodes, the refresh of the connections in Redis and the server's own entry there.
\<close>

definition CONNECTION_TIMEOUT :: int where
  "CONNECTION_TIMEOUT = 120 * nanos_per_sec"

text \<open>An entry is stale when its last heartbeat lies more than the timeout in the past.\<close>

definition stale :: "instant \<Rightarrow> instant \<Rightarrow> bool" where
  "stale now last_heartbeat =
     (case duration_since now last_heartbeat of
        Some elapsed \<Rightarrow> CONNECTION_TIMEOUT < elapsed
      | None \<Rightarrow> False)"

definition cleanup_dangling_connections :: "instant \<Rightarrow> AppState \<Rightarrow> AppState" where
  "cleanup_dangling_connections now s =
     (let s1 = s\<lparr>st_connections :=
                   dm_retain (\<lambda>_ conn. \<not> stale now (wc_last_heartbeat conn)) (st_connections s)\<rparr>
      in s1\<lparr>st_nodes :=
              dm_retain (\<lambda>_ node. \<not> stale now (nd_last_heartbeat (nc_node node))) (st_nodes s1)\<rparr>)"

definition refresh_connections_task :: "server_ext \<Rightarrow> instant \<Rightarrow> AppState \<Rightarrow> AppState" where
  "refresh_connections_task X now s =
     (let s1 = cleanup_dangling_connections now s in
      fold (\<lambda>(cid, conn_info) t.
              t\<lparr>st_memory_db := fst (refresh_connection X cid (wc_ip conn_info) (st_server t) (st_memory_db t))\<rparr>)
        (dm_iter (st_connections s1)) s1)"

text \<open>
  \<open>keep_server_alive_task\<close>; \<open>stats_json\<close> renders the three counts as the JSON text
  \<open>serde_json\<close> produces.
\<close>

definition keep_server_alive_task ::
  "server_ext \<Rightarrow> (nat \<Rightarrow> nat \<Rightarrow> nat \<Rightarrow> string) \<Rightarrow> AppState \<Rightarrow> AppState" where
  "keep_server_alive_task X stats_json s =
     (case x_server_json X (st_server s) of
        None \<Rightarrow> s
      | Some payload \<Rightarrow>
          (let stats = stats_json (length (st_nodes s)) (length (st_connections s))
                         (length (st_tunnel_sessions s))
           in s\<lparr>st_memory_db := fst (save_server X (st_id s) payload stats (st_memory_db s))\<rparr>))"

section \<open>Lemmas\<close>

lemma cleanup_fields [srv_simps]:
  "st_tunnel_sessions (cleanup_dangling_connections now s) = st_tunnel_sessions s"
  "st_node_chans (cleanup_dangling_connections now s) = st_node_chans s"
  "st_web_chans (cleanup_dangling_connections now s) = st_web_chans s"
  "st_next_chan (cleanup_dangling_connections now s) = st_next_chan s"
  "st_memory_db (cleanup_dangling_connections now s) = st_memory_db s"
  "st_server (cleanup_dangling_connections now s) = st_server s"
  "st_db (cleanup_dangling_connections now s) = st_db s"
  by (simp_all add: cleanup_dangling_connections_def Let_def)

lemma cleanup_get:
  assumes "state_wf s"
  shows "dm_get (st_nodes (cleanup_dangling_connections now s)) nid =
      (case dm_get (st_nodes s) nid of None \<Rightarrow> None
       | Some c \<Rightarrow> if stale now (nd_last_heartbeat (nc_node c)) then None else Some c)"
    "dm_get (st_connections (cleanup_dangling_connections now s)) cid =
      (case dm_get (st_connections s) cid of None \<Rightarrow> None
       | Some c \<Rightarrow> if stale now (wc_last_heartbeat c) then None else Some c)"
  using assms
  by (auto simp: cleanup_dangling_connections_def Let_def state_wf_def dm.get_retain split: option.splits)

lemma cleanup_wf:
  assumes "state_wf s"
  shows "state_wf (cleanup_dangling_connections now s)"
proof -
  let ?s = "cleanup_dangling_connections now s"
  have sub: "dm_get (st_nodes ?s) i = Some c \<Longrightarrow> dm_get (st_nodes s) i = Some c"
    "dm_get (st_connections ?s) i = Some d \<Longrightarrow> dm_get (st_connections s) i = Some d" for i c d
    by (auto simp: cleanup_get [OF assms] split: option.splits if_splits)
  have "dm_wf (st_nodes ?s)" "dm_wf (st_connections ?s)"
    using assms by (simp_all add: state_wf_def cleanup_dangling_connections_def Let_def dm.wf_retain)
  moreover have "chans_allocated ?s"
    using assms sub by (fastforce simp: state_wf_def chans_allocated_def srv_simps)
  moreover have "chans_separate ?s"
    using assms sub unfolding state_wf_def chans_separate_def by metis
  ultimately show ?thesis
    using assms by (simp add: state_wf_def srv_simps sessions_keyed_def)
qed

lemma refresh_fold_fields:
  fixes F :: "(uuid \<times> WebConnection) \<Rightarrow> AppState \<Rightarrow> MemoryDB"
  shows
  "st_nodes (fold (\<lambda>e t. t\<lparr>st_memory_db := F e t\<rparr>) L s) = st_nodes s"
  "st_connections (fold (\<lambda>e t. t\<lparr>st_memory_db := F e t\<rparr>) L s) = st_connections s"
  "st_tunnel_sessions (fold (\<lambda>e t. t\<lparr>st_memory_db := F e t\<rparr>) L s) = st_tunnel_sessions s"
  "st_next_chan (fold (\<lambda>e t. t\<lparr>st_memory_db := F e t\<rparr>) L s) = st_next_chan s"
  "st_node_chans (fold (\<lambda>e t. t\<lparr>st_memory_db := F e t\<rparr>) L s) = st_node_chans s"
  "st_web_chans (fold (\<lambda>e t. t\<lparr>st_memory_db := F e t\<rparr>) L s) = st_web_chans s"
  by (induction L arbitrary: s) simp_all

lemma refresh_task_fields [srv_simps]:
  "st_nodes (refresh_connections_task X now s) = st_nodes (cleanup_dangling_connections now s)"
  "st_connections (refresh_connections_task X now s) = st_connections (cleanup_dangling_connections now s)"
  "st_tunnel_sessions (refresh_connections_task X now s) = st_tunnel_sessions s"
  "st_next_chan (refresh_connections_task X now s) = st_next_chan s"
  "st_node_chans (refresh_connections_task X now s) = st_node_chans s"
  "st_web_chans (refresh_connections_task X now s) = st_web_chans s"
  by (simp_all add: refresh_connections_task_def Let_def case_prod_unfold refresh_fold_fields srv_simps)

lemma refresh_task_wf: "state_wf s \<Longrightarrow> state_wf (refresh_connections_task X now s)"
  by (subst state_wf_frame [of _ "cleanup_dangling_connections now s"]) (simp_all add: srv_simps cleanup_wf)

lemma keep_alive_wf: "state_wf (keep_server_alive_task X j s) = state_wf s"
  by (simp add: keep_server_alive_task_def Let_def split: option.splits)

section \<open>Properties\<close>

text \<open>
  The sweep removes exactly the nodes and clients whose last heartbeat is more than 120
  seconds old, keeps an entry whose heartbeat lies in the future, and preserves the invariant.
\<close>

theorem sweep_removes_exactly_stale:
  assumes "state_wf s"
  shows "let s' = refresh_connections_task X now s in state_wf s' \<and>
    (\<forall>nid. dm_get (st_nodes s') nid =
      (case dm_get (st_nodes s) nid of None \<Rightarrow> None
       | Some c \<Rightarrow> if 120 * nanos_per_sec < now - nd_last_heartbeat (nc_node c) then None else Some c)) \<and>
    (\<forall>cid. dm_get (st_connections s') cid =
      (case dm_get (st_connections s) cid of None \<Rightarrow> None
       | Some c \<Rightarrow> if 120 * nanos_per_sec < now - wc_last_heartbeat c then None else Some c))"
proof -
  have "stale now t \<longleftrightarrow> 120 * nanos_per_sec < now - t" for t
    by (auto simp: stale_def duration_since_def CONNECTION_TIMEOUT_def nanos_per_sec_def)
  then show ?thesis
    using refresh_task_wf [OF assms] by (simp add: Let_def srv_simps cleanup_get [OF assms] cong: option.case_cong)
qed

theorem sweep_removes_exactly_stale_witness:
  "dm_get (st_nodes (refresh_connections_task example_ext (121 * nanos_per_sec) example_state)) 1 = None"
proof -
  have "dm_get (st_nodes example_state) 1 = Some (NodeConnection_new 0 42 (V4 1) 0 example_record)"
    by (simp add: example_state_def empty_state_def dm_get_def)
  then show ?thesis
    using sweep_removes_exactly_stale [OF example_state_wf, of example_ext "121 * nanos_per_sec"]
    by (simp add: Let_def NodeConnection_new_def nanos_per_sec_def)
qed

text \<open>
  The sweep drops a node without closing its tunnels: its sessions stay in the registry
  and no client is told, and when the socket of that node ends later the clean-up finds no entry
  and does nothing either.
\<close>

theorem swept_node_leaves_sessions:
  assumes "state_wf s" and "dm_get (st_nodes s) nid = Some info"
    and "stale now (nd_last_heartbeat (nc_node info))"
  shows "let s' = node_socket_end X nid tx (refresh_connections_task X now s) in
     dm_get (st_nodes s') nid = None \<and> st_tunnel_sessions s' = st_tunnel_sessions s \<and>
     (\<forall>t. web_queue s' t = web_queue s t)"
proof -
  have "dm_get (st_nodes (refresh_connections_task X now s)) nid = None"
    using assms by (simp add: srv_simps cleanup_get [OF assms(1)])
  then show ?thesis
    by (simp add: Let_def node_socket_end_def close_node_chan_def disconnect_node_def srv_simps)
qed

theorem swept_node_leaves_sessions_witness:
  "dm_get (st_tunnel_sessions (node_socket_end example_ext 1 0
      (refresh_connections_task example_ext (121 * nanos_per_sec) example_state)))
     (TunnelSessionKey_new 1 9) = Some (5, 1)"
proof -
  have node: "dm_get (st_nodes example_state) 1 = Some (NodeConnection_new 0 42 (V4 1) 0 example_record)"
    "dm_get (st_tunnel_sessions example_state) (TunnelSessionKey_new 1 9) = Some (5, 1)"
    by (simp_all add: example_state_def empty_state_def dm_get_def)
  have "stale (121 * nanos_per_sec)
      (nd_last_heartbeat (nc_node (NodeConnection_new 0 42 (V4 1) 0 example_record)))"
    by (simp add: stale_def duration_since_def CONNECTION_TIMEOUT_def NodeConnection_new_def nanos_per_sec_def)
  from swept_node_leaves_sessions [OF example_state_wf node(1) this, of example_ext 0] node(2)
  show ?thesis
    by (simp add: Let_def)
qed

end
