(* ===== verification/Transition.thy ===== *)
theory Transition
  imports Main
begin

text \<open>
  Interfaces for transition systems: an invariant that every step keeps, and the simulation of a
  detailed system by an abstract one. The server, the agent, the browser channel and the
  key space of Redis are interpretations.
\<close>

locale invariant_system =
  fixes step :: "'s \<Rightarrow> 's \<Rightarrow> bool"
    and inv :: "'s \<Rightarrow> bool"
  assumes step_inv: "step s t \<Longrightarrow> inv s \<Longrightarrow> inv t"
begin

lemma reachable_inv: "step\<^sup>*\<^sup>* s t \<Longrightarrow> inv s \<Longrightarrow> inv t"
  by (induction rule: rtranclp_induct) (auto intro: step_inv)

text \<open>A further property need only be kept in states that satisfy the invariant.\<close>

lemma reachable_inv_under:
  assumes "step\<^sup>*\<^sup>* s t" "inv s" "P s"
    and "\<And>u v. step u v \<Longrightarrow> inv u \<Longrightarrow> P u \<Longrightarrow> P v"
  shows "P t"
  using assms(1,2,3)
proof (induction rule: rtranclp_induct)
  case (step u v)
  then show ?case
    using reachable_inv assms(4) by blast
qed

end

text \<open>Every step of the detailed system is a sequence, maybe empty, of abstract steps.\<close>

locale simulation = invariant_system +
  fixes astep :: "'a \<Rightarrow> 'a \<Rightarrow> bool"
    and abs :: "'b \<Rightarrow> 'a"
  assumes sim: "step s t \<Longrightarrow> inv s \<Longrightarrow> astep\<^sup>*\<^sup>* (abs s) (abs t)"
begin

lemma reachable_sim:
  assumes "step\<^sup>*\<^sup>* s t" "inv s"
  shows "astep\<^sup>*\<^sup>* (abs s) (abs t)"
  using assms
proof (induction rule: rtranclp_induct)
  case (step u v)
  then show ?case
    using reachable_inv sim by (meson rtranclp_trans)
qed simp

text \<open>What every abstract step keeps holds of the abstraction of every reachable state.\<close>

lemma transfer_invariant:
  assumes "step\<^sup>*\<^sup>* s t" "inv s" "I (abs s)"
    and "\<And>a b. astep a b \<Longrightarrow> I a \<Longrightarrow> I b"
  shows "I (abs t)"
proof -
  have "astep\<^sup>*\<^sup>* (abs s) (abs t)"
    using assms(1,2) by (rule reachable_sim)
  then show ?thesis
    using assms(3,4) by (induction rule: rtranclp_induct) auto
qed

end

section \<open>Labelled runs\<close>

text \<open>A run with the labels of its steps, oldest first.\<close>

inductive run :: "('l \<Rightarrow> 's \<Rightarrow> 's \<Rightarrow> bool) \<Rightarrow> 's \<Rightarrow> 'l list \<Rightarrow> 's \<Rightarrow> bool" for act s where
  run_start: "run act s [] s"
| run_step: "run act s tr t \<Longrightarrow> act l t u \<Longrightarrow> run act s (tr @ [l]) u"

lemma run_single: "act l s t \<Longrightarrow> run act s [l] t"
  using run_step [OF run_start] by fastforce

text \<open>An invariant that also speaks of what has happened.\<close>

locale history_system =
  fixes act :: "'l \<Rightarrow> 's \<Rightarrow> 's \<Rightarrow> bool"
    and hinv :: "'l list \<Rightarrow> 's \<Rightarrow> bool"
  assumes act_hinv: "act l s t \<Longrightarrow> hinv tr s \<Longrightarrow> hinv (tr @ [l]) t"
begin

lemma run_hinv:
  assumes "run act s tr t" "hinv [] s"
  shows "hinv tr t"
  using assms by (induction rule: run.induct) (auto intro: act_hinv)

end

end
