(* ===== verification/Server_System.thy ===== *)
theory Server_System
  imports Server_Tasks Transition
begin

text \<open>
  The server as a whole: socket tasks of nodes and clients, the periodic tasks and the HTTP
  endpoints, interleaved in any order. A socket task is the pair of the identifier it authenticated
  as and its channel; one step handles one event of one task, lets one writer send one frame, or
  runs one periodic task or one request.
\<close>

record system =
  sy_state :: AppState
  sy_node_tasks :: "(uuid \<times> chan_id) set"
  sy_web_tasks :: "(uuid \<times> chan_id) set"

text \<open>What a step does that is seen outside: a message read or written, a socket accepted or gone.\<close>

datatype action =
    NodeUp uuid chan_id | NodeRecv uuid chan_id ws_event | NodeSend uuid chan_id "bytes option" | NodeGone uuid chan_id
  | WebUp uuid chan_id | WebRecv uuid chan_id ws_event | WebSend uuid chan_id "bytes option" | WebGone uuid chan_id
  | Silent

inductive server_act :: "server_ext \<Rightarrow> action \<Rightarrow> system \<Rightarrow> system \<Rightarrow> bool" for X where
  node_open:
    "node_socket_open X now ip evs (sy_state y) = (s', Some (nid, tx)) \<Longrightarrow>
     server_act X (NodeUp nid tx) y (y\<lparr>sy_state := s', sy_node_tasks := insert (nid, tx) (sy_node_tasks y)\<rparr>)"
| node_reject:
    "node_socket_open X now ip evs (sy_state y) = (s', None) \<Longrightarrow>
     server_act X Silent y (y\<lparr>sy_state := s'\<rparr>)"
| node_event:
    "(nid, tx) \<in> sy_node_tasks y \<Longrightarrow> handle_node_event X now nid ev (sy_state y) = (s', True) \<Longrightarrow>
     server_act X (NodeRecv nid tx ev) y (y\<lparr>sy_state := s'\<rparr>)"
| node_stop:
    "(nid, tx) \<in> sy_node_tasks y \<Longrightarrow> handle_node_event X now nid ev (sy_state y) = (s', False) \<Longrightarrow>
     server_act X (NodeRecv nid tx ev) y (y\<lparr>sy_state := node_socket_end X nid tx s',
                        sy_node_tasks := sy_node_tasks y - {(nid, tx)}\<rparr>)"
| node_eof:
    "(nid, tx) \<in> sy_node_tasks y \<Longrightarrow>
     server_act X (NodeGone nid tx) y (y\<lparr>sy_state := node_socket_end X nid tx (sy_state y),
                        sy_node_tasks := sy_node_tasks y - {(nid, tx)}\<rparr>)"
| node_write:
    "(nid, tx) \<in> sy_node_tasks y \<Longrightarrow> node_write_step X tx (sy_state y) = Some (s', out) \<Longrightarrow>
     server_act X (NodeSend nid tx out) y (y\<lparr>sy_state := s'\<rparr>)"
| web_open:
    "web_socket_open X now new_cid ip evs (sy_state y) = (s', Some (cid, tx)) \<Longrightarrow>
     server_act X (WebUp cid tx) y (y\<lparr>sy_state := s', sy_web_tasks := insert (cid, tx) (sy_web_tasks y)\<rparr>)"
| web_reject:
    "web_socket_open X now new_cid ip evs (sy_state y) = (s', None) \<Longrightarrow>
     server_act X Silent y (y\<lparr>sy_state := s'\<rparr>)"
| web_event:
    "(cid, tx) \<in> sy_web_tasks y \<Longrightarrow> handle_web_event X now cid ev (sy_state y) = (s', True) \<Longrightarrow>
     server_act X (WebRecv cid tx ev) y (y\<lparr>sy_state := s'\<rparr>)"
| web_stop:
    "(cid, tx) \<in> sy_web_tasks y \<Longrightarrow> handle_web_event X now cid ev (sy_state y) = (s', False) \<Longrightarrow>
     server_act X (WebRecv cid tx ev) y (y\<lparr>sy_state := web_socket_end X cid tx s',
                        sy_web_tasks := sy_web_tasks y - {(cid, tx)}\<rparr>)"
| web_eof:
    "(cid, tx) \<in> sy_web_tasks y \<Longrightarrow>
     server_act X (WebGone cid tx) y (y\<lparr>sy_state := web_socket_end X cid tx (sy_state y),
                        sy_web_tasks := sy_web_tasks y - {(cid, tx)}\<rparr>)"
| web_write:
    "(cid, tx) \<in> sy_web_tasks y \<Longrightarrow> web_write_step X tx (sy_state y) = Some (s', out) \<Longrightarrow>
     server_act X (WebSend cid tx out) y (y\<lparr>sy_state := s'\<rparr>)"
| refresh:
    "server_act X Silent y (y\<lparr>sy_state := refresh_connections_task X now (sy_state y)\<rparr>)"
| keep_alive:
    "server_act X Silent y (y\<lparr>sy_state := keep_server_alive_task X stats_json (sy_state y)\<rparr>)"
| challenge:
    "server_act X Silent y (y\<lparr>sy_state := fst (create_auth_challenge X random now nid (sy_state y))\<rparr>)"
| verify:
    "server_act X Silent y (y\<lparr>sy_state := fst (verify_auth_challenge X now req (sy_state y))\<rparr>)"
| node_heartbeat:
    "server_act X Silent y (y\<lparr>sy_state := fst (require_node_jwt X now headers (heartbeat now) (sy_state y))\<rparr>)"
| claim:
    "server_act X Silent y (y\<lparr>sy_state := fst (claim_node X now new_id headers payload (sy_state y))\<rparr>)"

inductive_cases server_actE: "server_act X l y y'"

definition server_step :: "server_ext \<Rightarrow> system \<Rightarrow> system \<Rightarrow> bool" where
  "server_step X y y' \<longleftrightarrow> (\<exists>l. server_act X l y y')"

lemma server_stepI: "server_act X l y y' \<Longrightarrow> server_step X y y'"
  by (auto simp: server_step_def)

lemma server_stepE:
  assumes "server_step X y y'"
  obtains l where "server_act X l y y'"
  using assms by (auto simp: server_step_def)

abbreviation server_reachable :: "server_ext \<Rightarrow> system \<Rightarrow> system \<Rightarrow> bool" where
  "server_reachable X \<equiv> (server_step X)\<^sup>*\<^sup>*"

text \<open>
  The invariant: the shared state is well formed, and a registration never outlives its
  socket: the channel in a registry entry belongs to a task that is still running.
\<close>

definition system_inv :: "system \<Rightarrow> bool" where
  "system_inv y \<longleftrightarrow> state_wf (sy_state y) \<and>
     (\<forall>nid info. dm_get (st_nodes (sy_state y)) nid = Some info \<longrightarrow> (nid, nc_tx info) \<in> sy_node_tasks y) \<and>
     (\<forall>cid info. dm_get (st_connections (sy_state y)) cid = Some info \<longrightarrow> (cid, wc_tx info) \<in> sy_web_tasks y)"

section \<open>What a step does to the registries\<close>

text \<open>The senders in the registries, all that the second half of the invariant looks at.\<close>

definition node_txs :: "AppState \<Rightarrow> uuid \<Rightarrow> chan_id option" where
  "node_txs s nid = map_option nc_tx (dm_get (st_nodes s) nid)"

definition web_txs :: "AppState \<Rightarrow> uuid \<Rightarrow> chan_id option" where
  "web_txs s cid = map_option wc_tx (dm_get (st_connections s) cid)"

lemma system_inv_txs:
  "system_inv y \<longleftrightarrow> state_wf (sy_state y) \<and>
     (\<forall>nid tx. node_txs (sy_state y) nid = Some tx \<longrightarrow> (nid, tx) \<in> sy_node_tasks y) \<and>
     (\<forall>cid tx. web_txs (sy_state y) cid = Some tx \<longrightarrow> (cid, tx) \<in> sy_web_tasks y)"
  by (fastforce simp: system_inv_def node_txs_def web_txs_def)

lemma txs_frame:
  "st_nodes s' = st_nodes s \<Longrightarrow> node_txs s' = node_txs s"
  "st_connections s' = st_connections s \<Longrightarrow> web_txs s' = web_txs s"
  by (simp_all add: node_txs_def web_txs_def fun_eq_iff)

lemma heartbeat_txs:
  "node_txs (fst (handle_node_heartbeat X now nid st t s)) = node_txs s"
  "st_connections (fst (handle_node_heartbeat X now nid st t s)) = st_connections s"
  by (auto simp: handle_node_heartbeat_def node_txs_def Let_def srv_simps dm_simps fun_eq_iff
      split: option.splits prod.splits bool.splits)

lemma node_frame_txs:
  "node_txs (fst (handle_node_frame X now nid f s)) = node_txs s"
  "st_connections (fst (handle_node_frame X now nid f s)) = st_connections s"
  using heartbeat_txs [of X now nid]
  by (cases f;
    auto simp: handle_node_frame_def case_prod_unfold handle_tunnel_opened_def handle_tunnel_closed_def
      handle_frame_response_def srv_simps Let_def split: WebFrameId.splits outcome.splits
      intro!: txs_frame)+

lemma node_event_txs:
  "node_txs (fst (handle_node_event X now nid ev s)) = node_txs s"
  "web_txs (fst (handle_node_event X now nid ev s)) = web_txs s"
  by (auto simp: handle_node_event_def node_frame_txs
      split: ws_event.splits outcome.splits FrameData.splits intro!: txs_frame)

lemma web_frame_txs:
  "st_nodes (fst (handle_web_frame X now cid f s)) = st_nodes s"
  "web_txs (fst (handle_web_frame X now cid f s)) = web_txs s"
proof -
  have fwd: "st_nodes (forward_to_session X cid t sid g s) = st_nodes s"
    "st_connections (forward_to_session X cid t sid g s) = st_connections s" for t sid g
    by (simp_all add: forward_to_session_def srv_simps split: outcome.splits option.splits)
  show "st_nodes (fst (handle_web_frame X now cid f s)) = st_nodes s"
    by (cases f)
      (auto simp: web_forwarders fwd update_web_heartbeat_def handle_web_open_tunnel_def srv_simps
        split: option.splits)
  have "web_txs (update_web_heartbeat now cid s) = web_txs s"
    by (auto simp: update_web_heartbeat_def web_txs_def dm_simps fun_eq_iff split: option.splits)
  then show "web_txs (fst (handle_web_frame X now cid f s)) = web_txs s"
    by (cases f)
      (auto simp: web_forwarders fwd handle_web_open_tunnel_def srv_simps split: option.splits
        intro!: txs_frame)
qed

lemma web_event_txs:
  "node_txs (fst (handle_web_event X now cid ev s)) = node_txs s"
  "web_txs (fst (handle_web_event X now cid ev s)) = web_txs s"
  by (auto simp: handle_web_event_def web_frame_txs
      split: ws_event.splits outcome.splits FrameData.splits intro!: txs_frame)

lemma node_end_txs:
  "node_txs (node_socket_end X nid tx s) = (node_txs s)(nid := None)"
  "web_txs (node_socket_end X nid tx s) = web_txs s"
  by (auto simp: node_socket_end_def close_node_chan_def disconnect_node_def Let_def srv_simps
      node_txs_def web_txs_def dm_simps fun_eq_iff split: option.splits)

lemma web_end_txs:
  "web_txs (web_socket_end X cid tx s) = (web_txs s)(cid := None)"
  "node_txs (web_socket_end X cid tx s) = node_txs s"
  by (auto simp: web_socket_end_def close_web_chan_def disconnect_web_client_def Let_def
      notify_nodes_client_disconnect_def srv_simps node_txs_def web_txs_def dm_simps fun_eq_iff
      split: option.splits)

lemma node_open_txs:
  assumes "node_socket_open X now ip evs s = (s', Some (nid, tx))"
  shows "node_txs s' = (node_txs s)(nid \<mapsto> tx)" "web_txs s' = web_txs s"
proof -
  obtain s1 rec where w: "wait_for_node_auth X now tx evs (fst (alloc_node_chan s)) = (s1, Ok nid)"
    and s': "s' = s1\<lparr>st_memory_db := fst (set_node_connected X rec (st_server s1) (st_memory_db s1)),
           st_nodes := dm_insert nid (NodeConnection_new now (st_id s1) ip tx rec) (st_nodes s1)\<rparr>"
    using assms by (rule node_socket_open_Some)
  have "st_nodes s1 = st_nodes s" "st_connections s1 = st_connections s"
    using wait_for_node_auth_state [of X now tx evs "fst (alloc_node_chan s)"] w
    by (auto simp: srv_simps alloc_node_chan_def)
  then show "node_txs s' = (node_txs s)(nid \<mapsto> tx)" "web_txs s' = web_txs s"
    by (auto simp: s' node_txs_def web_txs_def dm_simps NodeConnection_new_def fun_eq_iff)
qed

lemma node_reject_txs:
  assumes "node_socket_open X now ip evs s = (s', None)"
  shows "node_txs s' = node_txs s" "web_txs s' = web_txs s"
  using node_socket_open_None [OF assms]
    wait_for_node_auth_state [of X now "st_next_chan s" evs "fst (alloc_node_chan s)"]
  by (auto simp: srv_simps alloc_node_chan_def close_node_chan_def intro!: txs_frame)

lemma web_open_txs:
  assumes "web_socket_open X now new_cid ip evs s = (s', Some (cid, tx))"
  shows "web_txs s' = (web_txs s)(cid \<mapsto> tx)" "node_txs s' = node_txs s"
proof -
  obtain s1 where w: "wait_for_web_auth X now new_cid tx evs (fst (alloc_web_chan s)) = (s1, Ok cid)"
    and s': "s' = s1\<lparr>st_connections := dm_insert cid (WebConnection_new now ip tx) (st_connections s1),
           st_memory_db := fst (set_connection_connected X cid ip (st_server s1) (st_memory_db s1))\<rparr>"
    using assms by (rule web_socket_open_Some)
  have "st_nodes s1 = st_nodes s" "st_connections s1 = st_connections s"
    using wait_for_web_auth_state [of X now new_cid tx evs "fst (alloc_web_chan s)"] w
    by (auto simp: srv_simps alloc_web_chan_def)
  then show "web_txs s' = (web_txs s)(cid \<mapsto> tx)" "node_txs s' = node_txs s"
    by (auto simp: s' node_txs_def web_txs_def dm_simps WebConnection_new_def fun_eq_iff)
qed

lemma web_reject_txs:
  assumes "web_socket_open X now new_cid ip evs s = (s', None)"
  shows "node_txs s' = node_txs s" "web_txs s' = web_txs s"
  using web_socket_open_None [OF assms]
    wait_for_web_auth_state [of X now new_cid "st_next_chan s" evs "fst (alloc_web_chan s)"]
  by (auto simp: srv_simps alloc_web_chan_def close_web_chan_def intro!: txs_frame)

lemma write_step_frame:
  "node_write_step X tx s = Some (s', out) \<Longrightarrow> st_nodes s' = st_nodes s \<and>
     st_connections s' = st_connections s \<and> state_wf s' = state_wf s"
  "web_write_step X tx s = Some (s', out) \<Longrightarrow> st_nodes s' = st_nodes s \<and>
     st_connections s' = st_connections s \<and> state_wf s' = state_wf s"
  by (auto simp: node_write_step_def web_write_step_def Let_def close_node_chan_def close_web_chan_def
      split: option.splits outcome.splits)

text \<open>The HTTP endpoints only write the database.\<close>

lemma http_frame:
  "\<exists>db. fst (create_auth_challenge X random now nid s) = s\<lparr>st_db := db\<rparr>"
  "\<exists>db. fst (verify_auth_challenge X now req s) = s\<lparr>st_db := db\<rparr>"
  "\<exists>db. fst (require_node_jwt X now headers (heartbeat now) s) = s\<lparr>st_db := db\<rparr>"
  "\<exists>db. fst (claim_node X now new_id headers payload s) = s\<lparr>st_db := db\<rparr>"
proof -
  have same: "\<exists>db. s = s\<lparr>st_db := db\<rparr>"
    by (rule exI [of _ "st_db s"]) simp
  show "\<exists>db. fst (create_auth_challenge X random now nid s) = s\<lparr>st_db := db\<rparr>"
    using same
    by (auto simp: create_auth_challenge_def Let_def split: outcome.splits option.splits prod.splits)
  show "\<exists>db. fst (verify_auth_challenge X now req s) = s\<lparr>st_db := db\<rparr>"
    using same verify_consume_fields [of req s]
    by (auto simp: verify_auth_challenge_def split: sum.splits prod.splits option.splits)
  show "\<exists>db. fst (require_node_jwt X now headers (heartbeat now) s) = s\<lparr>st_db := db\<rparr>"
    using same by (auto simp: require_node_jwt_def heartbeat_def split: outcome.splits prod.splits)
  show "\<exists>db. fst (claim_node X now new_id headers payload s) = s\<lparr>st_db := db\<rparr>"
    using same
    by (auto simp: claim_node_def Let_def split: outcome.splits prod.splits CredentialValidationError.splits)
qed

lemma system_inv_db: "s' = (sy_state y)\<lparr>st_db := db\<rparr> \<Longrightarrow> system_inv (y\<lparr>sy_state := s'\<rparr>) = system_inv y"
  by (simp add: system_inv_def)

lemma system_inv_same_txs:
  assumes "system_inv y" "state_wf s'" "node_txs s' = node_txs (sy_state y)" "web_txs s' = web_txs (sy_state y)"
  shows "system_inv (y\<lparr>sy_state := s'\<rparr>)"
  using assms by (simp add: system_inv_txs)

lemma server_act_inv:
  assumes "server_act X l y y'" "system_inv y"
  shows "system_inv y'"
  using assms
proof (induction rule: server_act.induct)
  case (node_open now ip evs y s' nid tx)
  then show ?case
    using node_open_txs [OF node_open(1)] node_socket_open_wf [of "sy_state y" X now ip evs]
    by (auto simp: system_inv_txs)
next
  case (node_reject now ip evs y s')
  then show ?case
    using node_reject_txs [OF node_reject(1)] node_socket_open_wf [of "sy_state y" X now ip evs]
    by (auto simp: system_inv_txs)
next
  case (node_event nid tx y now ev s')
  then show ?case
    using node_event_txs [of X now nid ev "sy_state y"] handle_node_event_wf [of "sy_state y" X now nid ev]
    by (auto simp: system_inv_txs)
next
  case (node_stop nid tx y now ev s')
  then show ?case
    using node_event_txs [of X now nid ev "sy_state y"] handle_node_event_wf [of "sy_state y" X now nid ev]
    by (auto simp: system_inv_txs node_end_txs node_socket_end_wf split: if_splits)
next
  case (node_eof nid tx y)
  then show ?case
    by (auto simp: system_inv_txs node_end_txs node_socket_end_wf split: if_splits)
next
  case (node_write nid tx y s' out)
  then show ?case
    using write_step_frame(1) [OF node_write(2)] by (simp add: system_inv_def)
next
  case (web_open now new_cid ip evs y s' cid tx)
  then show ?case
    using web_open_txs [OF web_open(1)] web_socket_open_wf [of "sy_state y" X now new_cid ip evs]
    by (auto simp: system_inv_txs)
next
  case (web_reject now new_cid ip evs y s')
  then show ?case
    using web_reject_txs [OF web_reject(1)] web_socket_open_wf [of "sy_state y" X now new_cid ip evs]
    by (auto simp: system_inv_txs)
next
  case (web_event cid tx y now ev s')
  then show ?case
    using web_event_txs [of X now cid ev "sy_state y"] handle_web_event_wf [of "sy_state y" X now cid ev]
    by (auto simp: system_inv_txs)
next
  case (web_stop cid tx y now ev s')
  then show ?case
    using web_event_txs [of X now cid ev "sy_state y"] handle_web_event_wf [of "sy_state y" X now cid ev]
    by (auto simp: system_inv_txs web_end_txs web_socket_end_wf split: if_splits)
next
  case (web_eof cid tx y)
  then show ?case
    by (auto simp: system_inv_txs web_end_txs web_socket_end_wf split: if_splits)
next
  case (web_write cid tx y s' out)
  then show ?case
    using write_step_frame(2) [OF web_write(2)] by (simp add: system_inv_def)
next
  case (refresh y now)
  then show ?case
    using refresh_task_wf [of "sy_state y" X now]
    by (auto simp: system_inv_def srv_simps cleanup_get split: option.splits if_splits)
next
  case (keep_alive y stats_json)
  then show ?case
    by (auto simp: system_inv_def keep_alive_wf)
      (auto simp: keep_server_alive_task_def Let_def split: option.splits)
next
  case (challenge y random now nid)
  then show ?case
    using http_frame(1) [of X random now nid "sy_state y"] system_inv_db by metis
next
  case (verify y now req)
  then show ?case
    using http_frame(2) [of X now req "sy_state y"] system_inv_db by metis
next
  case (node_heartbeat y now headers)
  then show ?case
    using http_frame(3) [of X now headers "sy_state y"] system_inv_db by metis
next
  case (claim y now new_id headers payload)
  then show ?case
    using http_frame(4) [of X now new_id headers payload "sy_state y"] system_inv_db by metis
qed

lemma server_step_inv: "server_step X y y' \<Longrightarrow> system_inv y \<Longrightarrow> system_inv y'"
  by (auto elim: server_stepE intro: server_act_inv)

interpretation registry: invariant_system "server_step X" system_inv for X
  by unfold_locales (rule server_step_inv)

section \<open>Properties\<close>

text \<open>
  C1: in every interleaving of node sockets, web sockets, writers, periodic tasks and HTTP
  requests that starts without connections, the shared state stays well formed and a registration
  never outlives its socket: each registry entry's channel belongs to a running task of that very
  node or client.
\<close>

theorem server_reachable_inv:
  assumes "server_reachable X y0 y"
    and "st_nodes (sy_state y0) = []" "st_connections (sy_state y0) = []"
    and "st_tunnel_sessions (sy_state y0) = []"
  shows "system_inv y"
proof (rule registry.reachable_inv [OF assms(1)])
  show "system_inv y0"
    using assms(2-4)
    by (simp add: system_inv_def state_wf_def sessions_keyed_def chans_allocated_def chans_separate_def
        dm_get_def)
qed

definition example_system :: system where
  "example_system = \<lparr>sy_state = empty_state, sy_node_tasks = {}, sy_web_tasks = {}\<rparr>"

theorem server_reachable_inv_witness:
  "let s1 = fst (node_socket_open example_ext 10 (V4 1) example_auth empty_state) in
   system_inv \<lparr>sy_state = s1, sy_node_tasks = {(1, 0)}, sy_web_tasks = {}\<rparr>"
proof -
  let ?s1 = "fst (node_socket_open example_ext 10 (V4 1) example_auth empty_state)"
  have "node_socket_open example_ext 10 (V4 1) example_auth (sy_state example_system) = (?s1, Some (1, 0))"
    using example_open [of empty_state 10 "V4 1"] by (simp add: example_system_def empty_state_def)
  from server_stepI [OF server_act.node_open [OF this]]
  have "server_reachable example_ext example_system
      \<lparr>sy_state = ?s1, sy_node_tasks = {(1, 0)}, sy_web_tasks = {}\<rparr>"
    by (intro r_into_rtranclp) (simp add: example_system_def)
  from server_reachable_inv [OF this] show ?thesis
    by (simp add: example_system_def empty_state_def Let_def)
qed

end
