(* ===== verification/Presence.thy ===== *)
theory Presence
  imports Relay Server_System
begin

text \<open>
  Presence in Redis, where the servers and the relay meet: a server writes which nodes are connected
  to it, the relay reads it to route a client. The key space is the effect of the commands the server
  sent; expiry is not part of it, so what is stated holds until the keys lapse after 120 seconds
  without a heartbeat.
\<close>

section \<open>The key space\<close>

type_synonym redis_keys = "string \<rightharpoonup> (string \<rightharpoonup> string)"

fun redis_apply :: "redis_cmd \<Rightarrow> redis_keys \<Rightarrow> redis_keys" where
  "redis_apply (HSET key fvs) m =
     m(key \<mapsto> fold (\<lambda>(f, v) h. h(f \<mapsto> v)) fvs (case m key of Some h \<Rightarrow> h | None \<Rightarrow> Map.empty))"
| "redis_apply (EXPIRE key secs) m = m"
| "redis_apply (DEL key) m = m(key := None)"

definition redis_of :: "redis_cmd list \<Rightarrow> redis_keys" where
  "redis_of log = fold redis_apply log Map.empty"

text \<open>The relay's client reads that key space.\<close>

definition relay_reads :: "relay_redis \<Rightarrow> redis_keys \<Rightarrow> bool" where
  "relay_reads R m \<longleftrightarrow> scan_matches R (\<lambda>k. k \<in> dom m) \<and>
     (\<forall>k f. rr_hget R k f = Some (case m k of Some h \<Rightarrow> h f | None \<Rightarrow> None))"

lemma redis_of_snoc: "redis_of (log @ [c]) = redis_apply c (redis_of log)"
  by (simp add: redis_of_def)

text \<open>A client of a key space with finitely many keys.\<close>

definition redis_client :: "redis_keys \<Rightarrow> string list \<Rightarrow> relay_redis" where
  "redis_client m keys = \<lparr>
     rr_scan = (\<lambda>pat. Some (case split_once ''*'' pat of
         None \<Rightarrow> []
       | Some (p, q) \<Rightarrow> filter (\<lambda>k. starts_with p k \<and> length p + length q \<le> length k \<and>
                                  drop (length k - length q) k = q) keys)),
     rr_hget = (\<lambda>key f. Some (case m key of Some h \<Rightarrow> h f | None \<Rightarrow> None))\<rparr>"

lemma redis_client_reads:
  assumes "set keys = dom m"
  shows "relay_reads (redis_client m keys) m"
  unfolding relay_reads_def scan_matches_def
proof (intro conjI allI impI)
  fix p q assume "glob_literal p \<and> glob_literal q"
  then have "CHR ''*'' \<notin> set p"
    by (auto simp: glob_literal_def)
  then have "split_once ''*'' (p @ ''*'' @ q) = Some (p, q)"
    using split_once_char_append by simp
  then show "\<exists>ks. rr_scan (redis_client m keys) (p @ ''*'' @ q) = Some ks \<and>
      (\<forall>k. k \<in> set ks \<longleftrightarrow> k \<in> dom m \<and> (\<exists>l. k = p @ l @ q))"
    using assms by (auto simp: redis_client_def surrounded_iff)
qed (simp add: redis_client_def)

lemma update_node_stats_keys:
  assumes "x_node_json X node = Some p" "x_server_json X server = Some payload"
    and "\<And>c. \<not> rd_fails m c"
  shows "\<exists>h. redis_of (rd_log (fst (update_node_stats X node server stats m))) =
      (redis_of (rd_log m))(node_key X node \<mapsto> h) \<and> h ''server'' = Some payload"
proof -
  have "rd_log (fst (update_node_stats X node server stats m)) = rd_log m @
      [HSET (node_key X node) [(''node'', p), (''stats'', stats), (''server'', payload)], EXPIRE (node_key X node) 120]"
    using assms by (simp add: update_node_stats_def rd_hset_expire_def rd_exec_def)
  then show ?thesis
    by (intro exI [of _ "(case redis_of (rd_log m) (node_key X node) of Some h \<Rightarrow> h | None \<Rightarrow> Map.empty)
          (''node'' \<mapsto> p, ''stats'' \<mapsto> stats, ''server'' \<mapsto> payload)"])
      (simp add: redis_of_def)
qed

section \<open>The Redis log of a running server\<close>

text \<open>Every task writes Redis through the operations of \<open>MemoryDB\<close> only.\<close>

lemma memory_disconnect_node:
  "memory_reachable X (st_memory_db s) \<Longrightarrow> memory_reachable X (st_memory_db (disconnect_node X nid s))"
  by (auto simp: disconnect_node_def Let_def srv_simps split: option.splits intro: memory_reachable.node_gone)

lemma memory_disconnect_web:
  "memory_reachable X (st_memory_db s) \<Longrightarrow> memory_reachable X (st_memory_db (disconnect_web_client X cid s))"
  by (auto simp: disconnect_web_client_def notify_nodes_client_disconnect_def Let_def srv_simps
      split: option.splits intro: memory_reachable.connection_gone)

lemma memory_node_event:
  assumes "memory_reachable X (st_memory_db s)"
  shows "memory_reachable X (st_memory_db (fst (handle_node_event X now nid ev s)))"
proof -
  have "memory_reachable X (st_memory_db (fst (handle_node_heartbeat X now nid st t s)))" for st t
    using assms memory_reachable.node_stats [of X "st_memory_db s"]
    by (auto simp: handle_node_heartbeat_def Let_def srv_simps split: option.splits prod.splits bool.splits)
      (metis fst_conv)+
  then have "memory_reachable X (st_memory_db (fst (handle_node_frame X now nid f s)))" for f
    using assms
    by (cases f)
      (auto simp: handle_node_frame_def case_prod_unfold handle_tunnel_opened_def handle_tunnel_closed_def
        handle_frame_response_def srv_simps Let_def split: WebFrameId.splits outcome.splits)
  then show ?thesis
    using assms by (auto simp: handle_node_event_def split: ws_event.splits outcome.splits FrameData.splits)
qed

lemma memory_web_event: "st_memory_db (fst (handle_web_event X now cid ev s)) = st_memory_db s"
proof -
  have "st_memory_db (forward_to_session X cid t sid g s) = st_memory_db s" for t sid g
    by (simp add: forward_to_session_def srv_simps split: outcome.splits option.splits)
  then have "st_memory_db (fst (handle_web_frame X now cid f s)) = st_memory_db s" for f
    by (cases f)
      (auto simp: web_forwarders update_web_heartbeat_def handle_web_open_tunnel_def srv_simps
        split: option.splits)
  then show ?thesis
    by (auto simp: handle_web_event_def split: ws_event.splits outcome.splits FrameData.splits)
qed

lemma memory_open:
  assumes "memory_reachable X (st_memory_db s)"
  shows "memory_reachable X (st_memory_db (fst (node_socket_open X now ip evs s)))"
    "memory_reachable X (st_memory_db (fst (web_socket_open X now cid ip evs s)))"
proof -
  have n: "st_memory_db (fst (wait_for_node_auth X now tx evs (fst (alloc_node_chan s)))) = st_memory_db s" for tx
    using wait_for_node_auth_state [of X now tx evs "fst (alloc_node_chan s)"]
    by (auto simp: srv_simps alloc_node_chan_def)
  have w: "st_memory_db (fst (wait_for_web_auth X now cid tx evs (fst (alloc_web_chan s)))) = st_memory_db s" for tx
    using wait_for_web_auth_state [of X now cid tx evs "fst (alloc_web_chan s)"]
    by (auto simp: srv_simps alloc_web_chan_def)
  show "memory_reachable X (st_memory_db (fst (node_socket_open X now ip evs s)))"
    using n [of "st_next_chan s"] assms
    by (auto simp: node_socket_open_def alloc_node_chan_def close_node_chan_def Let_def set_node_connected_def
        split: prod.splits outcome.splits intro: memory_reachable.node_stats)
  show "memory_reachable X (st_memory_db (fst (web_socket_open X now cid ip evs s)))"
    using w [of "st_next_chan s"] assms
    by (auto simp: web_socket_open_def alloc_web_chan_def close_web_chan_def Let_def set_connection_connected_def
        split: prod.splits outcome.splits intro: memory_reachable.connection)
qed

lemma memory_refresh:
  assumes "memory_reachable X (st_memory_db s)"
  shows "memory_reachable X (st_memory_db (refresh_connections_task X now s))"
proof -
  have fold: "memory_reachable X (st_memory_db (fold (\<lambda>(cid, conn_info) t.
      t\<lparr>st_memory_db := fst (refresh_connection X cid (wc_ip conn_info) (st_server t) (st_memory_db t))\<rparr>) L t))"
    if "memory_reachable X (st_memory_db t)" for L :: "(uuid \<times> WebConnection) list" and t
    using that
  proof (induction L arbitrary: t)
    case (Cons e L)
    show ?case
      using Cons.IH [of "t\<lparr>st_memory_db := fst (refresh_connection X (fst e) (wc_ip (snd e)) (st_server t) (st_memory_db t))\<rparr>"]
        memory_reachable.connection [OF Cons.prems]
      by (simp add: case_prod_unfold)
  qed simp
  show ?thesis
    unfolding refresh_connections_task_def Let_def by (rule fold) (simp add: srv_simps assms)
qed

lemma memory_step:
  assumes "server_step X y y'" "memory_reachable X (st_memory_db (sy_state y))"
  shows "memory_reachable X (st_memory_db (sy_state y'))"
proof -
  let ?P = "\<lambda>s. memory_reachable X (st_memory_db s)"
  have db: "?P t" if "\<exists>db. t = (sy_state y)\<lparr>st_db := db\<rparr>" for t
    using that assms(2) by auto
  have n_end: "?P s \<Longrightarrow> ?P (node_socket_end X nid tx s)" and w_end: "?P s \<Longrightarrow> ?P (web_socket_end X nid tx s)" for nid tx s
    by (simp_all add: node_socket_end_def web_socket_end_def memory_disconnect_node memory_disconnect_web
        close_node_chan_def close_web_chan_def)
  note event = memory_node_event [OF assms(2)] and op = memory_open [OF assms(2)]
  obtain l where "server_act X l y y'"
    using assms(1) by (rule server_stepE)
  then show ?thesis
  proof cases
    case (node_stop nid tx now ev s')
    then show ?thesis
      using n_end event [of now nid ev] by simp
  next
    case (web_stop cid tx now ev s')
    then show ?thesis
      using w_end [of s'] assms(2) memory_web_event [of X now cid ev "sy_state y"] by simp
  next
    case (node_open now ip evs s' nid tx)
    then show ?thesis
      using op(1) [of now ip evs] by simp
  next
    case (node_reject now ip evs s')
    then show ?thesis
      using op(1) [of now ip evs] by simp
  next
    case (web_open now cid ip evs s' c tx)
    then show ?thesis
      using op(2) [of now cid ip evs] by simp
  next
    case (web_reject now cid ip evs s')
    then show ?thesis
      using op(2) [of now cid ip evs] by simp
  next
    case (node_event nid tx now ev s')
    then show ?thesis
      using event [of now nid ev] by simp
  next
    case (web_event cid tx now ev s')
    then show ?thesis
      using assms(2) memory_web_event [of X now cid ev "sy_state y"] by simp
  next
    case (node_write nid tx s' out)
    then show ?thesis
      using assms(2)
      by (auto simp: node_write_step_def Let_def close_node_chan_def split: option.splits outcome.splits)
  next
    case (web_write cid tx s' out)
    then show ?thesis
      using assms(2)
      by (auto simp: web_write_step_def Let_def close_web_chan_def split: option.splits outcome.splits)
  next
    case (keep_alive stats_json)
    then show ?thesis
      using assms(2)
      by (auto simp: keep_server_alive_task_def Let_def split: option.splits intro: memory_reachable.save_server)
  qed (auto intro!: db http_frame simp: n_end w_end memory_refresh assms(2))
qed

interpretation presence: invariant_system "server_step X" "\<lambda>y. memory_reachable X (st_memory_db (sy_state y))" for X
  by unfold_locales (rule memory_step)

lemma node_record_id:
  assumes "get_node_by_id db nid = Ok rec"
  shows "nr_id rec = nid" "\<exists>row. node_by_id db nid = Some row \<and> rec = node_record_of row"
proof -
  obtain row where row: "node_by_id db nid = Some row" "rec = node_record_of row"
    using assms by (auto simp: get_node_by_id_def fetch_one_def split: if_splits option.splits)
  then show "nr_id rec = nid" "\<exists>row. node_by_id db nid = Some row \<and> rec = node_record_of row"
    by (auto simp: node_by_id_def node_record_of_def find_Some_iff)
qed

section \<open>Properties\<close>

text \<open>
  C22: a client reaches a node that has just connected: after the registration of the node at a server,
  with Redis accepting its commands, the relay proxies a request that names the node to that very
  server, at its private address and port. Before, Redis held no entry for the node under another
  owner.
\<close>

theorem relay_reaches_connected_node:
  assumes "node_socket_open X now ip evs s = (s', Some (nid, tx))"
    and up: "\<And>c. \<not> rd_fails (st_memory_db s) c"
    and json: "\<And>node. x_node_json X node \<noteq> None" "x_server_json X (st_server s) = Some payload"
    and dec: "decode payload = Some (st_server s)"
    and reads: "relay_reads R (redis_of (rd_log (st_memory_db s')))"
    and lit: "glob_literal (x_uuid_str X nid)"
    and owner: "\<And>k m row. k \<in> dom (redis_of (rd_log (st_memory_db s))) \<Longrightarrow>
        k = ''phirepass:users:'' @ m @ '':nodes:'' @ x_uuid_str X nid \<Longrightarrow>
        node_by_id (st_db s) nid = Some row \<Longrightarrow> k = node_key X (node_record_of row)"
    and hdr: "extract_protocols headers = (Some (x_uuid_str X nid), None)"
  shows "relay_request R decode ready ''/api/web/ws'' headers =
    Ok \<lparr>hp_address = sid_private_ip (st_server s), hp_port = sid_port (st_server s), hp_tls = False,
        hp_sni = sid_fqdn (st_server s)\<rparr>"
proof -
  obtain s1 rec where w: "wait_for_node_auth X now tx evs (fst (alloc_node_chan s)) = (s1, Ok nid)"
    and rec: "get_node_by_id (st_db s1) nid = Ok rec"
    and s': "s' = s1\<lparr>st_memory_db := fst (set_node_connected X rec (st_server s1) (st_memory_db s1)),
           st_nodes := dm_insert nid (NodeConnection_new now (st_id s1) ip tx rec) (st_nodes s1)\<rparr>"
    using assms(1) by (rule node_socket_open_Some)
  have same: "st_memory_db s1 = st_memory_db s" "st_server s1 = st_server s" "st_db s1 = st_db s"
    using wait_for_node_auth_state [of X now tx evs "fst (alloc_node_chan s)"] w
    by (auto simp: srv_simps alloc_node_chan_def)
  obtain p where "x_node_json X rec = Some p"
    using json(1) by blast
  then obtain h where m: "redis_of (rd_log (st_memory_db s')) = (redis_of (rd_log (st_memory_db s)))(node_key X rec \<mapsto> h)"
    and h: "h ''server'' = Some payload"
    using update_node_stats_keys [OF _ json(2) up, of rec p] by (auto simp: s' same set_node_connected_def)
  have nid: "nr_id rec = nid" and row: "\<exists>row. node_by_id (st_db s) nid = Some row \<and> rec = node_record_of row"
    using node_record_id [OF rec] by (simp_all add: same)
  show ?thesis
  proof (rule relay_finds_node [where live = "\<lambda>k. k \<in> dom (redis_of (rd_log (st_memory_db s')))" and X = X and node = rec])
    show "scan_matches R (\<lambda>k. k \<in> dom (redis_of (rd_log (st_memory_db s'))))"
      using reads by (simp add: relay_reads_def)
    show "rr_hget R (node_key X rec) ''server'' = Some (Some payload)"
      using reads h by (simp add: relay_reads_def m)
    fix k m' assume "k \<in> dom (redis_of (rd_log (st_memory_db s')))"
      "k = ''phirepass:users:'' @ m' @ '':nodes:'' @ x_uuid_str X (nr_id rec)"
    then show "k = node_key X rec"
      using owner [of k m'] row by (auto simp: m nid)
  qed (use lit hdr dec m nid in auto)
qed

text \<open>The example server after its node has connected.\<close>

abbreviation example_connected :: AppState where
  "example_connected \<equiv> fst (node_socket_open example_ext 10 (V4 1) example_auth empty_state)"

abbreviation example_presence :: redis_keys where
  "example_presence \<equiv> [example_node_entry \<mapsto> [''node'' \<mapsto> ''{}'', ''stats'' \<mapsto> [], ''server'' \<mapsto> ''{}'']]"

lemma example_connected_log:
  "rd_log (st_memory_db example_connected) =
     [HSET example_node_entry [(''node'', ''{}''), (''stats'', []), (''server'', ''{}'')], EXPIRE example_node_entry 120]"
proof -
  have db: "st_db empty_state = example_db"
    by (simp add: empty_state_def)
  obtain s1 rec where w: "wait_for_node_auth example_ext 10 (st_next_chan empty_state) example_auth
      (fst (alloc_node_chan empty_state)) = (s1, Ok 1)"
    and rec: "get_node_by_id (st_db s1) 1 = Ok rec"
    and s': "example_connected = s1\<lparr>st_memory_db := fst (set_node_connected example_ext rec (st_server s1) (st_memory_db s1)),
       st_nodes := dm_insert 1 (NodeConnection_new 10 (st_id s1) (V4 1) (st_next_chan empty_state) rec) (st_nodes s1)\<rparr>"
    using example_open [OF db, of 10 "V4 1"] by (rule node_socket_open_Some)
  have same: "st_memory_db s1 = st_memory_db empty_state" "st_db s1 = example_db"
    using wait_for_node_auth_state [of example_ext 10 "st_next_chan empty_state" example_auth
        "fst (alloc_node_chan empty_state)"] w
    by (auto simp: srv_simps alloc_node_chan_def db)
  have "rec = example_record"
    using rec unfolding same
    by (simp add: get_node_by_id_def fetch_one_def node_by_id_def example_db_def example_row_def example_record_def
        split: if_splits)
  moreover have "x_node_json example_ext n = Some ''{}''" "x_server_json example_ext srv = Some ''{}''" for n srv
    by (simp_all add: example_ext_def)
  ultimately show ?thesis
    unfolding s'
    by (simp add: same set_node_connected_def update_node_stats_def rd_hset_expire_def rd_exec_def
        example_node_key empty_state_def)
qed

lemma example_connected_keys: "redis_of (rd_log (st_memory_db example_connected)) = example_presence"
  unfolding example_connected_log by (simp add: redis_of_def)

theorem relay_reaches_connected_node_witness:
  "relay_reads (redis_client example_presence [example_node_entry])
     (redis_of (rd_log (st_memory_db example_connected))) \<and>
   relay_request (redis_client example_presence [example_node_entry]) (\<lambda>_. Some example_server_id) True
     ''/api/web/ws'' (node_headers ''n1'') =
     Ok \<lparr>hp_address = ''10.0.0.2'', hp_port = 8080, hp_tls = False, hp_sni = ''localhost''\<rparr>"
proof -
  let ?R = "redis_client example_presence [example_node_entry]"
  have op: "node_socket_open example_ext 10 (V4 1) example_auth empty_state = (example_connected, Some (1, 0))"
    using example_open [of empty_state 10 "V4 1"] by (simp add: empty_state_def)
  have reads: "relay_reads ?R (redis_of (rd_log (st_memory_db example_connected)))"
    unfolding example_connected_keys by (rule redis_client_reads) simp
  have n1: "x_uuid_str example_ext 1 = ''n1''"
    by (simp add: example_defs)
  have srv: "st_server empty_state = example_server_id" "rd_log (st_memory_db empty_state) = []"
    by (simp_all add: empty_state_def)
  have "relay_request ?R (\<lambda>_. Some example_server_id) True ''/api/web/ws'' (node_headers ''n1'') =
     Ok \<lparr>hp_address = sid_private_ip (st_server empty_state), hp_port = sid_port (st_server empty_state),
        hp_tls = False, hp_sni = sid_fqdn (st_server empty_state)\<rparr>"
  proof (rule relay_reaches_connected_node [OF op _ _ _ _ reads])
    show "\<not> rd_fails (st_memory_db empty_state) c" for c
      by (simp add: empty_state_def)
    show "x_node_json example_ext node \<noteq> None" "x_server_json example_ext (st_server empty_state) = Some ''{}''" for node
      by (simp_all add: example_ext_def)
    show "extract_protocols (node_headers ''n1'') = (Some (x_uuid_str example_ext 1), None)"
      unfolding n1 by (rule example_extract)
    show "glob_literal (x_uuid_str example_ext 1)"
      by (simp add: n1 glob_literal_def)
  qed (simp_all add: srv redis_of_def)
  with reads show ?thesis
    by (simp add: srv example_server_id_def)
qed

text \<open>
  C23: with the id of a server as hint the relay finds none of the servers: the hint is taken as the Redis
  key itself, while every key a running server writes starts with \<open>phirepass:\<close>. Whatever servers
  share the Redis, the request is answered with 400.
\<close>

theorem server_hint_never_found:
  assumes "\<And>y. y \<in> set ys \<Longrightarrow> \<exists>X y0. server_reachable X y0 y \<and> rd_log (st_memory_db (sy_state y0)) = []"
    and "hget_sound R (concat (map (\<lambda>y. rd_log (st_memory_db (sy_state y))) ys))"
    and "extract_protocols headers = (Some node_id, Some hint)" "\<not> starts_with ''phirepass:'' hint"
  shows "relay_request R decode ready ''/api/web/ws'' headers = Err 400"
proof (rule hint_not_found [OF _ assms(2-4)])
  have "prefixed_log (rd_log (st_memory_db (sy_state y)))" if "y \<in> set ys" for y
  proof -
    from assms(1) [OF that] obtain X y0 where
      r: "server_reachable X y0 y" and "rd_log (st_memory_db (sy_state y0)) = []"
      by blast
    then have "memory_reachable X (st_memory_db (sy_state y0))"
      using memory_reachable.empty [of X "rd_fails (st_memory_db (sy_state y0))"]
      by (metis (full_types) MemoryDB.surjective old.unit.exhaust)
    then show ?thesis
      using presence.reachable_inv [OF r] memory_reachable_prefixed by blast
  qed
  then show "prefixed_log (concat (map (\<lambda>y. rd_log (st_memory_db (sy_state y))) ys))"
    by (auto simp: prefixed_log_def)
qed

theorem server_hint_never_found_witness:
  "hget_sound (redis_client example_presence [example_node_entry]) (rd_log (st_memory_db example_connected)) \<and>
   relay_request (redis_client example_presence [example_node_entry]) (\<lambda>_. Some example_server_id) True
     ''/api/web/ws'' (node_headers ''n1, c'') = Err 400"
proof -
  let ?R = "redis_client example_presence [example_node_entry]"
  let ?y = "\<lparr>sy_state = example_connected, sy_node_tasks = {(1, 0)}, sy_web_tasks = {}\<rparr>"
  have "node_socket_open example_ext 10 (V4 1) example_auth (sy_state example_system) = (example_connected, Some (1, 0))"
    using example_open [of empty_state 10 "V4 1"] by (simp add: example_system_def empty_state_def)
  from server_stepI [OF server_act.node_open [OF this]] have "server_reachable example_ext example_system ?y"
    by (intro r_into_rtranclp) (simp add: example_system_def)
  moreover have "rd_log (st_memory_db (sy_state example_system)) = []"
    by (simp add: example_system_def empty_state_def)
  ultimately have ys: "\<And>y. y \<in> set [?y] \<Longrightarrow> \<exists>X y0. server_reachable X y0 y \<and> rd_log (st_memory_db (sy_state y0)) = []"
    by auto
  have "hget_sound ?R (rd_log (st_memory_db example_connected))"
    unfolding example_connected_log by (auto simp: hget_sound_def redis_client_def split: if_splits)
  then have s: "hget_sound ?R (concat (map (\<lambda>y. rd_log (st_memory_db (sy_state y))) [?y]))"
    by simp
  show ?thesis
    using s server_hint_never_found [OF ys s example_extract(2)] by (simp add: starts_with_def)
qed

end
