(* ===== verification/Server_Trace.thy ===== *)
theory Server_Trace
  imports Server_System
begin

text \<open>
  Where the frames for the nodes come from. In a run of the server every frame in the mailbox of a
  node is one the server makes up itself (an answer, an acknowledgement, the notice that a client
  left) or the image of a message that the client it names sent on its own socket.
\<close>

section \<open>Requests\<close>

text \<open>The frame for a node that a message of a client becomes.\<close>

definition request_frame :: "uuid \<Rightarrow> WebFrameData \<Rightarrow> NodeFrameData \<Rightarrow> bool" where
  "request_frame cid w g \<longleftrightarrow>
     (\<exists>target sid. web_request cid w = Some (target, sid, g)) \<or>
     (\<exists>protocol target username password mid.
        w = WOpenTunnel protocol target username password mid \<and> g = NOpenTunnel protocol cid username password mid)"

fun own_frame :: "NodeFrameData \<Rightarrow> bool" where
  "own_frame (NAuthResponse _ _ _) = True"
| "own_frame (NHeartbeatAck _ _) = True"
| "own_frame (NConnectionDisconnect _) = True"
| "own_frame _ = False"

text \<open>The action is a message of client \<open>cid\<close> that becomes \<open>g\<close>.\<close>

definition asks :: "server_ext \<Rightarrow> action \<Rightarrow> uuid \<Rightarrow> NodeFrameData \<Rightarrow> bool" where
  "asks X l cid g \<longleftrightarrow>
     (\<exists>tx bs frame w. l = WebRecv cid tx (WsBinary bs) \<and> Frame_decode Native64 (x_codec X) bs = Ok frame \<and>
        fr_data frame = Web w \<and> request_frame cid w g)"

definition licensed :: "server_ext \<Rightarrow> action list \<Rightarrow> NodeFrameData \<Rightarrow> bool" where
  "licensed X tr g \<longleftrightarrow> own_frame g \<or> (\<exists>l \<in> set tr. \<exists>cid. asks X l cid g)"

lemma licensed_mono: "licensed X tr g \<Longrightarrow> licensed X (tr @ [l]) g"
  by (auto simp: licensed_def)

section \<open>The mailboxes of the nodes\<close>

definition mail :: "AppState \<Rightarrow> NodeFrameData set" where
  "mail s = (\<Union>tx. set (node_queue s tx))"

lemma mail_cong: "st_node_chans s' = st_node_chans s \<Longrightarrow> mail s' = mail s"
  by (simp add: mail_def)

lemma mail_send: "mail (fst (send_to_node tx f s)) \<subseteq> insert f (mail s)"
  by (auto simp: mail_def node_queue_send split: if_splits)

lemma mail_sendD: "g \<in> mail (fst (send_to_node tx f s)) \<Longrightarrow> g = f \<or> g \<in> mail s"
  using mail_send by blast

lemma mail_update:
  "set (ch_queue c) \<subseteq> M \<Longrightarrow> mail s \<subseteq> M \<Longrightarrow> mail (s\<lparr>st_node_chans := (st_node_chans s)(tx := c)\<rparr>) \<subseteq> M"
  unfolding mail_def by (auto split: if_splits) (meson UN_I UNIV_I subsetD)+

lemma mail_frames [simp]:
  "mail (s\<lparr>st_memory_db := m\<rparr>) = mail s"
  "mail (s\<lparr>st_db := db\<rparr>) = mail s"
  "mail (s\<lparr>st_nodes := ns\<rparr>) = mail s"
  "mail (s\<lparr>st_connections := cs\<rparr>) = mail s"
  "mail (s\<lparr>st_tunnel_sessions := ts\<rparr>) = mail s"
  "mail (s\<lparr>st_web_chans := ws\<rparr>) = mail s"
  "mail (s\<lparr>st_next_chan := n\<rparr>) = mail s"
  "mail (fst (notify_client_by_cid cid f s)) = mail s"
  "mail (fst (send_to_web tx f' s)) = mail s"
  "mail (fst (notify_all_clients_for_closed_tunnel nid s)) = mail s"
  by (rule mail_cong; simp add: srv_simps)+

lemma mail_queue: "set (node_queue s tx) \<subseteq> mail s"
  by (auto simp: mail_def)

lemma mail_close: "mail (close_node_chan tx s) = mail s"
  by (auto simp: mail_def close_node_chan_def chan_simps split: if_splits)

lemma mail_send_all: "mail (send_all f L s) \<subseteq> insert f (mail s)"
  by (auto simp: mail_def send_all_queue split: if_splits)

lemma mail_send_allD: "g \<in> mail (send_all f L s) \<Longrightarrow> g = f \<or> g \<in> mail s"
  using mail_send_all by blast

lemma mail_forward: "mail (forward_to_session X cid target sid f s) \<subseteq> insert f (mail s)"
  using mail_send by (auto simp: forward_to_session_def split: outcome.splits option.splits)

lemma mail_web_frame:
  "mail (fst (handle_web_frame X now cid w s)) \<subseteq> mail s \<union> {g. request_frame cid w g}"
proof (cases "web_request cid w")
  case (Some p)
  then obtain target sid g where g: "web_request cid w = Some (target, sid, g)"
    by (cases p) auto
  then have "fst (handle_web_frame X now cid w s) = forward_to_session X cid target sid g s"
    by (cases "(cid, w)" rule: web_request.cases) (auto simp: web_forwarders)
  then show ?thesis
    using mail_forward [of X cid target sid g s] g by (auto simp: request_frame_def)
next
  case None
  show ?thesis
  proof (cases w)
    case (WOpenTunnel protocol target username password mid)
    have "request_frame cid w (NOpenTunnel protocol cid username password mid)"
      by (simp add: request_frame_def WOpenTunnel)
    then show ?thesis
      using mail_send [of _ "NOpenTunnel protocol cid username password mid" s]
      by (auto simp: WOpenTunnel handle_web_open_tunnel_def split: option.splits)
  qed (use None in \<open>auto simp: update_web_heartbeat_def split: option.splits\<close>)
qed

lemma mail_web_event:
  "mail (fst (handle_web_event X now cid ev s)) \<subseteq> mail s \<union> {g. asks X (WebRecv cid tx ev) cid g}"
proof (cases "\<exists>bs frame w. ev = WsBinary bs \<and> Frame_decode Native64 (x_codec X) bs = Ok frame \<and> fr_data frame = Web w")
  case True
  then show ?thesis
    using mail_web_frame [of X now cid _ s] by (fastforce simp: handle_web_event_def asks_def)
next
  case False
  then show ?thesis
    by (auto simp: handle_web_event_def split: ws_event.splits outcome.splits FrameData.splits)
qed

lemma mail_node_event: "mail (fst (handle_node_event X now nid ev s)) \<subseteq> mail s \<union> {g. own_frame g}"
proof -
  have hb: "mail (fst (handle_node_heartbeat X now nid st t s)) \<subseteq> mail s \<union> {g. own_frame g}" for st t
    by (auto simp: handle_node_heartbeat_def Let_def split: option.splits prod.splits bool.splits dest!: mail_sendD)
  have "mail (fst (handle_node_frame X now nid f s)) \<subseteq> mail s \<union> {g. own_frame g}" for f
    using hb
    by (cases f)
      (auto simp: handle_node_frame_def handle_tunnel_opened_def handle_tunnel_closed_def handle_frame_response_def
        Let_def case_prod_unfold split: WebFrameId.splits outcome.splits)
  then show ?thesis
    by (auto simp: handle_node_event_def split: ws_event.splits outcome.splits FrameData.splits)
qed

lemma mail_socket_end:
  "mail (node_socket_end X nid tx s) = mail s"
  "mail (web_socket_end X cid tx s) \<subseteq> mail s \<union> {g. own_frame g}"
proof -
  have "mail (disconnect_node X nid t) = mail t" for t
    by (auto simp: disconnect_node_def Let_def split: option.splits)
  then show "mail (node_socket_end X nid tx s) = mail s"
    by (simp add: node_socket_end_def mail_close)
  have w: "mail (disconnect_web_client X cid t) \<subseteq> mail t \<union> {g. own_frame g}" for t
    by (auto simp: disconnect_web_client_def notify_nodes_client_disconnect_def Let_def
        split: option.splits dest!: mail_send_allD)
  then show "mail (web_socket_end X cid tx s) \<subseteq> mail s \<union> {g. own_frame g}"
    using w [of "close_web_chan tx s"] by (simp add: web_socket_end_def close_web_chan_def)
qed

text \<open>The answer to the first message of a node is an \<open>AuthResponse\<close>.\<close>

lemma mail_wait_node: "mail (fst (wait_for_node_auth X now tx evs s)) \<subseteq> mail s \<union> {g. own_frame g}"
proof (cases evs)
  case (Cons ev rest)
  then show ?thesis
  proof (cases ev)
    case (WsBinary data)
    with Cons show ?thesis
      by (auto simp: wait_for_node_auth_def reject_node_def Let_def
          split: outcome.splits FrameData.splits NodeFrameData.splits option.splits prod.splits bool.splits
          dest!: mail_sendD) (metis fst_conv mail_sendD own_frame.simps(1))+
  qed (simp_all add: wait_for_node_auth_def)
qed (simp add: wait_for_node_auth_def)

lemma mail_open:
  "mail (fst (node_socket_open X now ip evs s)) \<subseteq> mail s \<union> {g. own_frame g}"
  "mail (fst (web_socket_open X now cid ip evs s)) = mail s"
proof -
  let ?s0 = "fst (alloc_node_chan s)"
  have a: "mail ?s0 \<subseteq> mail s"
    using mail_update [of "chan_new 256" "mail s" s "st_next_chan s"] by (simp add: alloc_node_chan_def chan_simps)
  show "mail (fst (node_socket_open X now ip evs s)) \<subseteq> mail s \<union> {g. own_frame g}"
    using mail_wait_node [of X now "st_next_chan s" evs ?s0] a
    by (auto simp: node_socket_open_def alloc_node_chan_def Let_def mail_close split: prod.splits outcome.splits)
  let ?w = "wait_for_web_auth X now cid (st_next_chan s) evs (fst (alloc_web_chan s))"
  have alloc: "mail (fst (alloc_web_chan s)) = mail s"
    by (simp add: alloc_web_chan_def)
  have w: "mail (fst ?w) = mail s"
    using wait_for_web_auth_state [of X now cid "st_next_chan s" evs "fst (alloc_web_chan s)"]
    by (elim disjE exE) (simp_all only: mail_frames alloc)
  have "snd (alloc_web_chan s) = st_next_chan s"
    by (simp add: alloc_web_chan_def)
  then show "mail (fst (web_socket_open X now cid ip evs s)) = mail s"
    using w by (cases ?w)
      (simp add: web_socket_open_def close_web_chan_def Let_def case_prod_unfold split: outcome.splits)
qed

lemma mail_write:
  assumes "node_write_step X tx s = Some (s', out)"
  shows "mail s' \<subseteq> mail s"
    and "out = Some bs \<Longrightarrow> \<exists>g \<in> mail s. Frame_encode (x_codec X) (Frame_from_node g) = Ok bs"
proof -
  obtain f c where recv: "chan_recv (st_node_chans s tx) = Some (f, c)"
    using assms by (auto simp: node_write_step_def split: option.splits)
  then have q: "set (ch_queue c) \<subseteq> mail s" "f \<in> mail s"
    using mail_queue [of s tx] by (auto simp: chan_recv_def split: list.splits)
  let ?s = "s\<lparr>st_node_chans := (st_node_chans s)(tx := c)\<rparr>"
  have "s' = ?s \<or> s' = close_node_chan tx ?s"
    using assms recv by (auto simp: node_write_step_def Let_def split: outcome.splits)
  then show "mail s' \<subseteq> mail s"
    using mail_update [OF q(1) subset_refl, of tx] by (auto simp: mail_close)
  show "\<exists>g \<in> mail s. Frame_encode (x_codec X) (Frame_from_node g) = Ok bs" if "out = Some bs"
    using assms recv q(2) that by (auto simp: node_write_step_def Let_def split: outcome.splits)
qed

lemma mail_web_write: "web_write_step X tx s = Some (s', out) \<Longrightarrow> mail s' = mail s"
  by (auto simp: web_write_step_def Let_def close_web_chan_def split: option.splits outcome.splits)

lemma mail_tasks:
  "mail (refresh_connections_task X now s) = mail s"
  "mail (keep_server_alive_task X stats_json s) = mail s"
proof -
  show "mail (refresh_connections_task X now s) = mail s"
    by (rule mail_cong) (simp add: srv_simps)
  show "mail (keep_server_alive_task X stats_json s) = mail s"
    by (simp add: keep_server_alive_task_def Let_def split: option.splits)
qed

lemma mail_http:
  "mail (fst (create_auth_challenge X random now nid s)) = mail s"
  "mail (fst (verify_auth_challenge X now req s)) = mail s"
  "mail (fst (require_node_jwt X now headers (heartbeat now) s)) = mail s"
  "mail (fst (claim_node X now new_id headers payload s)) = mail s"
proof -
  have db: "mail t = mail s" if "\<exists>db. t = s\<lparr>st_db := db\<rparr>" for t
    using that by auto
  show "mail (fst (create_auth_challenge X random now nid s)) = mail s"
    by (rule db, rule http_frame)
  show "mail (fst (verify_auth_challenge X now req s)) = mail s"
    by (rule db, rule http_frame)
  show "mail (fst (require_node_jwt X now headers (heartbeat now) s)) = mail s"
    by (rule db, rule http_frame)
  show "mail (fst (claim_node X now new_id headers payload s)) = mail s"
    by (rule db, rule http_frame)
qed

text \<open>What one step puts into the mailboxes.\<close>

lemma mail_act:
  assumes "server_act X l y y'"
  shows "mail (sy_state y') \<subseteq> mail (sy_state y) \<union> {g. own_frame g \<or> (\<exists>cid. asks X l cid g)}"
  using assms
proof (cases rule: server_act.cases)
  case (web_event cid tx now ev s')
  then show ?thesis
    using mail_web_event [of X now cid ev "sy_state y" tx] by auto
next
  case (web_stop cid tx now ev s')
  then show ?thesis
    using mail_web_event [of X now cid ev "sy_state y" tx] mail_socket_end(2) [of X cid tx s'] by auto
next
  case (web_eof cid tx)
  then show ?thesis
    using mail_socket_end(2) [of X cid tx "sy_state y"] by auto
next
  case (node_event nid tx now ev s')
  then show ?thesis
    using mail_node_event [of X now nid ev "sy_state y"] by auto
next
  case (node_stop nid tx now ev s')
  then show ?thesis
    using mail_node_event [of X now nid ev "sy_state y"] by (auto simp: mail_socket_end)
next
  case (node_open now ip evs s' nid tx)
  then show ?thesis
    using mail_open(1) [of X now ip evs "sy_state y"] by auto
next
  case (node_reject now ip evs s')
  then show ?thesis
    using mail_open(1) [of X now ip evs "sy_state y"] by auto
next
  case (web_open now new_cid ip evs s' cid tx)
  then show ?thesis
    using mail_open(2) [of X now new_cid ip evs "sy_state y"] by auto
next
  case (web_reject now new_cid ip evs s')
  then show ?thesis
    using mail_open(2) [of X now new_cid ip evs "sy_state y"] by auto
next
  case (node_write nid tx s' out)
  then show ?thesis
    using mail_write(1) [OF node_write(4)] by auto
next
  case (web_write cid tx s' out)
  then show ?thesis
    using mail_web_write [OF web_write(4)] by auto
qed (auto simp: mail_socket_end mail_tasks mail_http)

interpretation origin: history_system "server_act X" "\<lambda>tr y. \<forall>g \<in> mail (sy_state y). licensed X tr g" for X
proof unfold_locales
  fix l y y' tr
  assume a: "server_act X l y y'" "\<forall>g \<in> mail (sy_state y). licensed X tr g"
  show "\<forall>g \<in> mail (sy_state y'). licensed X (tr @ [l]) g"
    using mail_act [OF a(1)] a(2) licensed_mono by (fastforce simp: licensed_def)
qed

lemma node_send_mail:
  assumes "server_act X (NodeSend nid tx (Some bs)) y y'"
  obtains g where "g \<in> mail (sy_state y)" "Frame_encode (x_codec X) (Frame_from_node g) = Ok bs"
proof -
  obtain s' where "node_write_step X tx (sy_state y) = Some (s', Some bs)"
    using assms by (cases rule: server_act.cases) auto
  from mail_write(2) [OF this refl] that show thesis
    by blast
qed

lemma decode_node_frame:
  assumes "codec_inverse C" "Frame_encode C (Frame_from_node g) = Ok bs" "length bs < 2 ^ 32"
  shows "\<exists>frame. Frame_decode Native64 C bs = Ok frame \<and> fr_data frame = Node g"
  using Frame_decode_encode [OF assms, of "[]"] by (simp add: Frame_from_node_def)

section \<open>Properties\<close>

text \<open>
  C10: whatever the server writes to the socket of a node decodes either to a frame of its own, an
  answer, an acknowledgement or the notice that a client left, or to the image of a message that the
  client it names sent earlier on its own socket.
\<close>

theorem node_frames_come_from_clients:
  assumes "run (server_act X) y0 tr y" "mail (sy_state y0) = {}"
    and "server_act X (NodeSend nid tx (Some bs)) y y'"
    and "codec_inverse (x_codec X)" "length bs < 2 ^ 32"
  shows "\<exists>frame g. Frame_decode Native64 (x_codec X) bs = Ok frame \<and> fr_data frame = Node g \<and>
    (own_frame g \<or> (\<exists>l \<in> set tr. \<exists>cid. asks X l cid g))"
proof -
  obtain g where g: "g \<in> mail (sy_state y)" "Frame_encode (x_codec X) (Frame_from_node g) = Ok bs"
    using assms(3) by (rule node_send_mail)
  have "licensed X tr g"
    using origin.run_hinv [OF assms(1)] assms(2) g(1) by simp
  then show ?thesis
    using decode_node_frame [OF assms(4) g(2) assms(5)] by (auto simp: licensed_def)
qed

text \<open>The example server with its two sockets; client 5 opens a tunnel and types into tunnel 9.\<close>

definition typing_system :: system where
  "typing_system = \<lparr>sy_state = example_state, sy_node_tasks = {(1, 0)}, sy_web_tasks = {(5, 1)}\<rparr>"

definition posted :: "NodeFrameData \<Rightarrow> system" where
  "posted g = typing_system\<lparr>sy_state := example_state\<lparr>st_node_chans := (st_node_chans example_state)
     (0 := (chan_new 256)\<lparr>ch_queue := [g]\<rparr>)\<rparr>\<rparr>"

lemma typing_posts:
  "server_act example_ext (WebRecv 5 1 (WsBinary (web_msg 22 2))) typing_system (posted (NTunnelData 0 5 9 [65]))"
  "server_act example_ext (WebRecv 5 1 (WsBinary (web_msg 20 7))) typing_system
     (posted (NOpenTunnel 0 5 (Some ''u'') (Some ''p'') None))"
proof -
  have ev: "handle_web_event example_ext 10 5 (WsBinary (web_msg 22 2)) example_state =
      (sy_state (posted (NTunnelData 0 5 9 [65])), True)"
    "handle_web_event example_ext 10 5 (WsBinary (web_msg 20 7)) example_state =
      (sy_state (posted (NOpenTunnel 0 5 (Some ''u'') (Some ''p'') None)), True)"
    by (simp_all add: handle_web_event_def example_ext_codec decode_web_msg example_web_frames_def)
      (simp_all add: posted_def handle_web_tunnel_data_def handle_web_open_tunnel_def forward_to_session_def
        get_node_id_by_cid_and_sid_def send_to_node_def chan_send_def chan_new_def example_defs Let_def)
  have act: "server_act example_ext (WebRecv 5 1 (WsBinary bs)) typing_system (posted g)"
    if "handle_web_event example_ext 10 5 (WsBinary bs) example_state = (sy_state (posted g), True)" for bs g
    using server_act.web_event [of 5 1 typing_system example_ext 10 "WsBinary bs" "sy_state (posted g)"] that
    by (simp add: typing_system_def posted_def)
  show "server_act example_ext (WebRecv 5 1 (WsBinary (web_msg 22 2))) typing_system (posted (NTunnelData 0 5 9 [65]))"
    by (rule act [OF ev(1)])
  show "server_act example_ext (WebRecv 5 1 (WsBinary (web_msg 20 7))) typing_system
     (posted (NOpenTunnel 0 5 (Some ''u'') (Some ''p'') None))"
    by (rule act [OF ev(2)])
qed

lemma posted_write:
  assumes "Frame_encode example_codec (Frame_from_node g) = Ok bs"
  shows "server_act example_ext (NodeSend 1 0 (Some bs)) (posted g) typing_system"
proof -
  have "node_write_step example_ext 0 (sy_state (posted g)) = Some (example_state, Some bs)"
    using assms by (simp add: node_write_step_def posted_def chan_recv_def example_ext_codec chan_new_def)
      (simp add: example_state_def empty_state_def chan_new_def fun_upd_idem)
  from server_act.node_write [of 1 0 "posted g", OF _ this] show ?thesis
    by (simp add: posted_def typing_system_def)
qed

lemma typing_mail: "mail (sy_state typing_system) = {}"
  by (simp add: mail_def typing_system_def example_state_def empty_state_def chan_simps)

theorem node_frames_come_from_clients_witness:
  "\<exists>frame g. Frame_decode Native64 example_codec (node_msg 22 6) = Ok frame \<and> fr_data frame = Node g \<and>
     (own_frame g \<or> (\<exists>l \<in> {WebRecv 5 1 (WsBinary (web_msg 22 2))}. \<exists>cid. asks example_ext l cid g))"
proof -
  have r: "run (server_act example_ext) typing_system [WebRecv 5 1 (WsBinary (web_msg 22 2))]
      (posted (NTunnelData 0 5 9 [65]))"
    by (rule run_single) (rule typing_posts)
  have w: "server_act example_ext (NodeSend 1 0 (Some (node_msg 22 6))) (posted (NTunnelData 0 5 9 [65])) typing_system"
    by (rule posted_write) (rule example_wire)
  have "codec_inverse (x_codec example_ext)"
    by (simp add: example_ext_codec example_codec_inverse)
  from node_frames_come_from_clients [OF r typing_mail w this example_lengths(2)] show ?thesis
    by (simp add: example_ext_codec)
qed

end
