(* ===== verification/Agent_State.thy ===== *)
theory Agent_State
  imports Token
begin

text \<open>
  The state the tasks of an agent share (\<open>agent/src/session.rs\<close>, \<open>agent/src/ws.rs\<close>,
  \<open>agent/src/sftp/mod.rs\<close>, the session handles under \<open>agent/src/ssh\<close> and \<open>agent/src/sftp\<close>)
  and the functions that queue frames for the server (\<open>agent/src/common.rs\<close>). The SFTP client
  library and the file system behind it are the record \<open>sftp\<close> over an abstract file system
  \<open>'f\<close> and abstract file handles \<open>'h\<close>.
\<close>

section \<open>Configuration\<close>

datatype SSHAuthMethod = PasswordAuth | NoneAuth

text \<open>\<open>SSHAuthMethod::from_str\<close>; \<open>to_lowercase\<close> on ASCII letters.\<close>

definition SSHAuthMethod_from_str :: "string \<Rightarrow> (string, SSHAuthMethod) outcome" where
  "SSHAuthMethod_from_str s =
     (let l = map to_ascii_lower s in
      if l = ''password'' then Ok PasswordAuth
      else if l = ''none'' then Ok NoneAuth
      else Err (''invalid authentication method: '' @ s))"

text \<open>\<open>Env\<close> of the agent, with the package version beside it.\<close>

record agent_env =
  ae_mode :: Mode
  ae_host :: string
  ae_port :: u16
  ae_stats_refresh_interval :: u16
  ae_server_host :: string
  ae_server_port :: u16
  ae_ssh_host :: string
  ae_ssh_port :: u16
  ae_ssh_auth_mode :: SSHAuthMethod
  ae_ssh_inactivity_secs :: u64
  ae_version :: string

definition get_ssh_inactivity_duration :: "agent_env \<Rightarrow> int option" where
  "get_ssh_inactivity_duration env =
     (if ae_ssh_inactivity_secs env = 0 then None
      else Some (uint (ae_ssh_inactivity_secs env) * nanos_per_sec))"

datatype ConfigAuth = UsernamePassword string string | Username string

section \<open>Tunnel sessions\<close>

datatype SSHCommand = SSHData bytes | SSHResize u32 u32 u32 u32

datatype SFTPCommand =
    SFTPListCmd string msg_id
  | SFTPDownloadStartCmd SFTPDownloadStart msg_id
  | SFTPDownloadChunkCmd SFTPDownloadChunk msg_id
  | SFTPUploadStartCmd SFTPUploadStart msg_id
  | SFTPUploadCmd SFTPUploadChunk msg_id
  | SFTPDeleteCmd SFTPDelete msg_id

text \<open>
  A handle holds the sender of the session's command channel and of its stop channel. One
  identifier names both: \<open>ag_ssh_stdin\<close> or \<open>ag_sftp_stdin\<close> is the command channel, and
  \<open>ag_stopped\<close> tells whether the stop signal was sent or its sender dropped.
\<close>

datatype SessionHandle = SshHandle (handle_id: chan_id) | SftpHandle (handle_id: chan_id)

section \<open>Files\<close>

record ('f, 'h) sftp =
  sf_open_append :: "string \<Rightarrow> 'f \<Rightarrow> 'f \<times> (string, 'h) outcome"
  sf_open_read :: "string \<Rightarrow> 'f \<Rightarrow> 'f \<times> (string, 'h) outcome"
  sf_write_all :: "'h \<Rightarrow> bytes \<Rightarrow> 'f \<Rightarrow> 'f \<times> (string, unit) outcome"
  sf_rename :: "string \<Rightarrow> string \<Rightarrow> 'f \<Rightarrow> 'f \<times> (string, unit) outcome"
  sf_remove_file :: "string \<Rightarrow> 'f \<Rightarrow> 'f \<times> (string, unit) outcome"
  sf_metadata :: "string \<Rightarrow> 'f \<Rightarrow> (string, u64 option) outcome"
  sf_canonicalize :: "string \<Rightarrow> 'f \<Rightarrow> (string, string) outcome"
  sf_read_dir :: "string \<Rightarrow> 'f \<Rightarrow> (string, (string \<times> bool \<times> u64 option) list) outcome"
  sf_seek :: "'h \<Rightarrow> u64 \<Rightarrow> 'f \<Rightarrow> 'f \<times> (string, unit) outcome"
  sf_read :: "'h \<Rightarrow> nat \<Rightarrow> 'f \<Rightarrow> 'f \<times> (string, bytes) outcome"
  sf_sync_all :: "'h \<Rightarrow> 'f \<Rightarrow> 'f"

record 'h FileUpload =
  up_filename :: string
  up_remote_path :: string
  up_total_chunks :: u32
  up_total_size :: u64
  up_sftp_file :: 'h
  up_temp_path :: string
  up_started_at :: instant
  up_last_updated :: instant

record 'h FileDownload =
  down_filename :: string
  down_total_size :: u64
  down_total_chunks :: u32
  down_sftp_file :: 'h
  down_started_at :: instant
  down_last_updated :: instant

section \<open>The shared state\<close>

record ('f, 'h) agent =
  ag_tx :: "Frame chan"
  ag_session_counter :: u32
  ag_id_counter :: u32
  ag_sessions :: "(uuid \<times> u32, SessionHandle) dashmap"
  ag_ssh_stdin :: "SSHCommand chan_store"
  ag_sftp_stdin :: "SFTPCommand chan_store"
  ag_stopped :: "chan_id \<Rightarrow> bool"
  ag_next_chan :: chan_id
  ag_uploads :: "(uuid \<times> u32, 'h FileUpload) dashmap"
  ag_downloads :: "(uuid \<times> u32, 'h FileDownload) dashmap"
  ag_fs :: 'f
  ag_last_heartbeat :: u64

text \<open>
  \<open>WebSocketConnection::new\<close>: empty tables and an outgoing queue of 1024 frames. The two
  counters are statics, so they outlive a connection; the file system is the host's.
\<close>

definition WebSocketConnection_new :: "u32 \<Rightarrow> u32 \<Rightarrow> 'f \<Rightarrow> ('f, 'h) agent" where
  "WebSocketConnection_new session_counter id_counter fs =
     \<lparr>ag_tx = chan_new 1024, ag_session_counter = session_counter, ag_id_counter = id_counter,
      ag_sessions = [], ag_ssh_stdin = (\<lambda>_. chan_new 512), ag_sftp_stdin = (\<lambda>_. chan_new 2048),
      ag_stopped = (\<lambda>_. False), ag_next_chan = 0, ag_uploads = [], ag_downloads = [],
      ag_fs = fs, ag_last_heartbeat = 0\<rparr>"

text \<open>\<open>AtomicU32::fetch_add\<close> wraps around.\<close>

definition generate_session_id :: "('f, 'h) agent \<Rightarrow> ('f, 'h) agent \<times> u32" where
  "generate_session_id a =
     (a\<lparr>ag_session_counter := ag_session_counter a + 1\<rparr>, ag_session_counter a)"

definition generate_id :: "('f, 'h) agent \<Rightarrow> ('f, 'h) agent \<times> u32" where
  "generate_id a = (a\<lparr>ag_id_counter := ag_id_counter a + 1\<rparr>, ag_id_counter a)"

text \<open>\<open>SessionHandle::shutdown\<close>: send the stop signal.\<close>

definition handle_shutdown :: "SessionHandle \<Rightarrow> ('f, 'h) agent \<Rightarrow> ('f, 'h) agent" where
  "handle_shutdown h a = a\<lparr>ag_stopped := (ag_stopped a)(handle_id h := True)\<rparr>"

section \<open>Outgoing frames\<close>

text \<open>
  \<open>send_frame_data\<close> uses \<open>try_send\<close>: a full or closed queue drops the frame. The SFTP
  actions use \<open>send(..).await\<close> and ignore its result.
\<close>

definition send_frame_data :: "NodeFrameData \<Rightarrow> ('f, 'h) agent \<Rightarrow> ('f, 'h) agent" where
  "send_frame_data data a =
     (if ch_closed (ag_tx a) then a
      else a\<lparr>ag_tx := fst (chan_try_send (Frame_from_node data) (ag_tx a))\<rparr>)"

definition send_await :: "NodeFrameData \<Rightarrow> ('f, 'h) agent \<Rightarrow> ('f, 'h) agent" where
  "send_await data a = a\<lparr>ag_tx := fst (chan_send (Frame_from_node data) (ag_tx a))\<rparr>"

definition send_tunnel_data :: "u32 \<Rightarrow> string \<Rightarrow> bytes \<Rightarrow> ('f, 'h) agent \<Rightarrow> ('f, 'h) agent" where
  "send_tunnel_data sid node_id data a =
     send_frame_data (NWebFrame (WTunnelData (Protocol_as_u8 SSH) node_id sid data) (SessionId sid)) a"

definition send_requires_username_error :: "uuid \<Rightarrow> msg_id \<Rightarrow> ('f, 'h) agent \<Rightarrow> ('f, 'h) agent" where
  "send_requires_username_error cid mid a =
     send_frame_data (NWebFrame (WError RequiresUsername ''Username is missing'' mid) (ConnectionId cid)) a"

definition send_requires_password_error :: "uuid \<Rightarrow> msg_id \<Rightarrow> ('f, 'h) agent \<Rightarrow> ('f, 'h) agent" where
  "send_requires_password_error cid mid a =
     send_frame_data (NWebFrame (WError RequiresPassword ''Password is missing'' mid) (ConnectionId cid)) a"

text \<open>A reply of an SFTP action, and its error form.\<close>

abbreviation reply :: "u32 \<Rightarrow> WebFrameData \<Rightarrow> ('f, 'h) agent \<Rightarrow> ('f, 'h) agent" where
  "reply sid f \<equiv> send_await (NWebFrame f (SessionId sid))"

abbreviation reply_error :: "u32 \<Rightarrow> string \<Rightarrow> msg_id \<Rightarrow> ('f, 'h) agent \<Rightarrow> ('f, 'h) agent" where
  "reply_error sid message mid \<equiv> reply sid (WError Generic message mid)"

section \<open>Lemmas\<close>

named_theorems agent_simps \<open>fields an agent operation leaves alone\<close>

lemma send_await_fields [agent_simps]:
  "ag_session_counter (send_await d a) = ag_session_counter a"
  "ag_id_counter (send_await d a) = ag_id_counter a"
  "ag_sessions (send_await d a) = ag_sessions a"
  "ag_ssh_stdin (send_await d a) = ag_ssh_stdin a"
  "ag_sftp_stdin (send_await d a) = ag_sftp_stdin a"
  "ag_stopped (send_await d a) = ag_stopped a"
  "ag_next_chan (send_await d a) = ag_next_chan a"
  "ag_uploads (send_await d a) = ag_uploads a"
  "ag_downloads (send_await d a) = ag_downloads a"
  "ag_fs (send_await d a) = ag_fs a"
  "ag_last_heartbeat (send_await d a) = ag_last_heartbeat a"
  by (simp_all add: send_await_def)

lemma send_frame_data_fields [agent_simps]:
  "ag_session_counter (send_frame_data d a) = ag_session_counter a"
  "ag_id_counter (send_frame_data d a) = ag_id_counter a"
  "ag_sessions (send_frame_data d a) = ag_sessions a"
  "ag_ssh_stdin (send_frame_data d a) = ag_ssh_stdin a"
  "ag_sftp_stdin (send_frame_data d a) = ag_sftp_stdin a"
  "ag_stopped (send_frame_data d a) = ag_stopped a"
  "ag_next_chan (send_frame_data d a) = ag_next_chan a"
  "ag_uploads (send_frame_data d a) = ag_uploads a"
  "ag_downloads (send_frame_data d a) = ag_downloads a"
  "ag_fs (send_frame_data d a) = ag_fs a"
  "ag_last_heartbeat (send_frame_data d a) = ag_last_heartbeat a"
  by (simp_all add: send_frame_data_def)

lemma send_await_queue:
  "ch_queue (ag_tx (send_await d a)) = ch_queue (ag_tx a) @
     (if ch_closed (ag_tx a) then [] else [Frame_from_node d])"
  by (simp add: send_await_def chan_send_def)

lemma send_frame_data_queue:
  "ch_queue (ag_tx (send_frame_data d a)) = ch_queue (ag_tx a) @
     (if \<not> ch_closed (ag_tx a) \<and> length (ch_queue (ag_tx a)) < ch_cap (ag_tx a)
      then [Frame_from_node d] else [])"
  by (simp add: send_frame_data_def chan_try_send_def)

lemma send_closed_tx [agent_simps]:
  "ch_closed (ag_tx (send_await d a)) = ch_closed (ag_tx a)"
  "ch_closed (ag_tx (send_frame_data d a)) = ch_closed (ag_tx a)"
  "ch_cap (ag_tx (send_await d a)) = ch_cap (ag_tx a)"
  "ch_cap (ag_tx (send_frame_data d a)) = ch_cap (ag_tx a)"
  by (simp_all add: send_await_def send_frame_data_def chan_simps chan_try_send_def)

end
