(* ===== verification/Agent_Sftp.thy ===== *)
theory Agent_Sftp
  imports Agent_State
begin

text \<open>
  File transfer on the agent (\<open>agent/src/sftp/mod.rs\<close>, \<open>agent/src/sftp/actions\<close>,
  \<open>agent/src/sftp/connection.rs\<close>): uploads, downloads, deletion and directory listings on the
  SFTP session of a tunnel, and the loop that serves the commands of one session.
\<close>

section \<open>Abandoned transfers\<close>

definition CHUNK_SIZE :: nat where
  "CHUNK_SIZE = 64 * 1024"

definition TRANSFER_TIMEOUT :: int where
  "TRANSFER_TIMEOUT = 15 * 60 * nanos_per_sec"

definition transfer_abandoned :: "instant \<Rightarrow> instant \<Rightarrow> bool" where
  "transfer_abandoned now last_updated =
     (case duration_since now last_updated of
        Some elapsed \<Rightarrow> TRANSFER_TIMEOUT < elapsed
      | None \<Rightarrow> False)"

text \<open>Remove an entry and flush its file; nothing happens if it is gone already.\<close>

definition drop_upload :: "('f, 'h) sftp \<Rightarrow> uuid \<times> u32 \<Rightarrow> ('f, 'h) agent \<Rightarrow> ('f, 'h) agent" where
  "drop_upload S key a =
     (case dm_get (ag_uploads a) key of
        None \<Rightarrow> a
      | Some u \<Rightarrow> a\<lparr>ag_uploads := dm_remove key (ag_uploads a), ag_fs := sf_sync_all S (up_sftp_file u) (ag_fs a)\<rparr>)"

definition drop_download :: "('f, 'h) sftp \<Rightarrow> uuid \<times> u32 \<Rightarrow> ('f, 'h) agent \<Rightarrow> ('f, 'h) agent" where
  "drop_download S key a =
     (case dm_get (ag_downloads a) key of
        None \<Rightarrow> a
      | Some d \<Rightarrow> a\<lparr>ag_downloads := dm_remove key (ag_downloads a), ag_fs := sf_sync_all S (down_sftp_file d) (ag_fs a)\<rparr>)"

definition cleanup_abandoned_uploads ::
  "('f, 'h) sftp \<Rightarrow> instant \<Rightarrow> ('f, 'h) agent \<Rightarrow> ('f, 'h) agent" where
  "cleanup_abandoned_uploads S now a =
     fold (drop_upload S)
       (map fst (filter (\<lambda>(_, u). transfer_abandoned now (up_last_updated u)) (dm_iter (ag_uploads a)))) a"

definition cleanup_abandoned_downloads ::
  "('f, 'h) sftp \<Rightarrow> instant \<Rightarrow> ('f, 'h) agent \<Rightarrow> ('f, 'h) agent" where
  "cleanup_abandoned_downloads S now a =
     fold (drop_download S)
       (map fst (filter (\<lambda>(_, d). transfer_abandoned now (down_last_updated d)) (dm_iter (ag_downloads a)))) a"

section \<open>Uploads\<close>

definition join_path :: "string \<Rightarrow> string \<Rightarrow> string" where
  "join_path dir filename =
     (if ends_with_char CHR ''/'' dir then dir @ filename else dir @ ''/'' @ filename)"

definition start_upload ::
  "('f, 'h) sftp \<Rightarrow> instant \<Rightarrow> SFTPUploadStart \<Rightarrow> uuid \<Rightarrow> u32 \<Rightarrow> msg_id \<Rightarrow> ('f, 'h) agent \<Rightarrow> ('f, 'h) agent" where
  "start_upload S now upload cid sid mid a =
     (let a0 = cleanup_abandoned_uploads S now a;
          file_path = join_path (ul_remote_path upload) (ul_filename upload);
          temp_path = file_path @ ''.tmp''
      in case sf_open_append S temp_path (ag_fs a0) of
           (fs, Ok file) \<Rightarrow>
             (let (a1, upload_id) = generate_id (a0\<lparr>ag_fs := fs\<rparr>);
                  entry = \<lparr>up_filename = ul_filename upload, up_remote_path = ul_remote_path upload,
                           up_total_chunks = ul_total_chunks upload, up_total_size = ul_total_size upload,
                           up_sftp_file = file, up_temp_path = temp_path,
                           up_started_at = now, up_last_updated = now\<rparr>;
                  a2 = a1\<lparr>ag_uploads := dm_insert (cid, upload_id) entry (ag_uploads a1)\<rparr>
              in reply sid (WSFTPUploadStartResponse sid mid \<lparr>ulr_upload_id = upload_id\<rparr>) a2)
         | (fs, Err err) \<Rightarrow> reply_error sid (''Failed to open file: '' @ err) mid (a0\<lparr>ag_fs := fs\<rparr>)
         | (fs, Panic) \<Rightarrow> a0\<lparr>ag_fs := fs\<rparr>)"

text \<open>
  \<open>upload_file_chunk\<close>. The result \<open>None\<close> means that the call never returns: when an
  intermediate write fails, \<open>uploads.remove(&key)\<close> runs while the guard of
  \<open>uploads.get_mut(&key)\<close> is alive, and a \<open>DashMap\<close> operation on a shard that the same
  thread holds locked waits for itself.
\<close>

definition is_last_chunk :: "SFTPUploadChunk \<Rightarrow> 'h FileUpload \<Rightarrow> bool" where
  "is_last_chunk chunk u = (up_total_chunks u \<le> ulc_chunk_index chunk + 1)"

definition finish_upload ::
  "('f, 'h) sftp \<Rightarrow> SFTPUploadChunk \<Rightarrow> u32 \<Rightarrow> msg_id \<Rightarrow> 'h FileUpload \<Rightarrow> ('f, 'h) agent \<Rightarrow> ('f, 'h) agent" where
  "finish_upload S chunk sid mid u a =
     (case sf_write_all S (up_sftp_file u) (ulc_data chunk) (ag_fs a) of
        (fs, Ok _) \<Rightarrow>
          (let file_path = join_path (up_remote_path u) (up_filename u)
           in case sf_rename S (up_temp_path u) file_path fs of
                (fs', Ok _) \<Rightarrow>
                  reply sid (WSFTPUploadChunkAck sid (ulc_upload_id chunk) (ulc_chunk_index chunk)) (a\<lparr>ag_fs := fs'\<rparr>)
              | (fs', Err err) \<Rightarrow> reply_error sid (''Failed to rename file: '' @ err) mid (a\<lparr>ag_fs := fs'\<rparr>)
              | (fs', Panic) \<Rightarrow> a\<lparr>ag_fs := fs'\<rparr>)
      | (fs, Err err) \<Rightarrow> reply_error sid (''Failed to write final chunk: '' @ err) mid (a\<lparr>ag_fs := fs\<rparr>)
      | (fs, Panic) \<Rightarrow> a\<lparr>ag_fs := fs\<rparr>)"

definition append_chunk ::
  "('f, 'h) sftp \<Rightarrow> instant \<Rightarrow> SFTPUploadChunk \<Rightarrow> uuid \<Rightarrow> u32 \<Rightarrow> msg_id \<Rightarrow> ('f, 'h) agent
     \<Rightarrow> ('f, 'h) agent option" where
  "append_chunk S now chunk cid sid mid a =
     (let key = (cid, ulc_upload_id chunk) in
      case dm_get (ag_uploads a) key of
        None \<Rightarrow>
          Some (reply_error sid
            (''Upload ID '' @ dec_digits (unat (ulc_upload_id chunk)) @ '' not found'') mid a)
      | Some u \<Rightarrow>
          (case sf_write_all S (up_sftp_file u) (ulc_data chunk) (ag_fs a) of
             (fs, Ok _) \<Rightarrow>
               Some (reply sid (WSFTPUploadChunkAck sid (ulc_upload_id chunk) (ulc_chunk_index chunk))
                 (a\<lparr>ag_fs := fs,
                    ag_uploads := dm_insert key (u\<lparr>up_last_updated := now\<rparr>) (ag_uploads a)\<rparr>))
           | _ \<Rightarrow> None))"

definition upload_file_chunk ::
  "('f, 'h) sftp \<Rightarrow> instant \<Rightarrow> SFTPUploadChunk \<Rightarrow> uuid \<Rightarrow> u32 \<Rightarrow> msg_id \<Rightarrow> ('f, 'h) agent
     \<Rightarrow> ('f, 'h) agent option" where
  "upload_file_chunk S now chunk cid sid mid a =
     (let key = (cid, ulc_upload_id chunk) in
      case dm_get (ag_uploads a) key of
        None \<Rightarrow>
          Some (reply_error sid
            (''Upload ID '' @ dec_digits (unat (ulc_upload_id chunk)) @ '' not found'') mid a)
      | Some file_upload \<Rightarrow>
          if is_last_chunk chunk file_upload
          then
            (case dm_get (ag_uploads a) key of
               Some u \<Rightarrow> Some (finish_upload S chunk sid mid u (a\<lparr>ag_uploads := dm_remove key (ag_uploads a)\<rparr>))
             | None \<Rightarrow> Some (reply_error sid ''File upload not found for final chunk'' mid a))
          else append_chunk S now chunk cid sid mid a)"

section \<open>Downloads\<close>

text \<open>
  \<open>u64 as f64\<close>: round to 53 significant bits, ties to even. The result is an integer, so
  the division by the power of two \<open>CHUNK_SIZE\<close> is exact; \<open>as u32\<close> saturates.
\<close>

fun log2_floor :: "nat \<Rightarrow> nat" where
  "log2_floor n = (if n < 2 then 0 else Suc (log2_floor (n div 2)))"

declare log2_floor.simps [simp del]

definition round_f64 :: "nat \<Rightarrow> nat" where
  "round_f64 n =
     (if n < 2 ^ 53 then n
      else let e = log2_floor n - 52; q = n div 2 ^ e; r = n mod 2 ^ e; half = 2 ^ (e - 1)
           in (if half < r \<or> (r = half \<and> odd q) then q + 1 else q) * 2 ^ e)"

definition total_chunks_of :: "u64 \<Rightarrow> u32" where
  "total_chunks_of total_size =
     (let quotient_ceil = (round_f64 (unat total_size) + (CHUNK_SIZE - 1)) div CHUNK_SIZE
      in if quotient_ceil < 2 ^ 32 then word_of_nat quotient_ceil else - 1)"

definition start_download ::
  "('f, 'h) sftp \<Rightarrow> instant \<Rightarrow> SFTPDownloadStart \<Rightarrow> uuid \<Rightarrow> u32 \<Rightarrow> msg_id \<Rightarrow> ('f, 'h) agent \<Rightarrow> ('f, 'h) agent" where
  "start_download S now download cid sid mid a =
     (let a0 = cleanup_abandoned_downloads S now a;
          file_path = join_path (dl_path download) (dl_filename download)
      in case sf_metadata S file_path (ag_fs a0) of
           Err err \<Rightarrow> reply_error sid (''Failed to get file metadata: '' @ err) mid a0
         | Panic \<Rightarrow> a0
         | Ok sz \<Rightarrow>
             (let total_size = (case sz of Some n \<Rightarrow> n | None \<Rightarrow> 0);
                  total_chunks = total_chunks_of total_size
              in case sf_open_read S file_path (ag_fs a0) of
                   (fs, Ok file) \<Rightarrow>
                     (let (a1, download_id) = generate_id (a0\<lparr>ag_fs := fs\<rparr>);
                          entry = \<lparr>down_filename = dl_filename download, down_total_size = total_size,
                                   down_total_chunks = total_chunks, down_sftp_file = file,
                                   down_started_at = now, down_last_updated = now\<rparr>;
                          a2 = a1\<lparr>ag_downloads := dm_insert (cid, download_id) entry (ag_downloads a1)\<rparr>
                      in reply sid (WSFTPDownloadStartResponse sid mid
                           \<lparr>dlr_download_id = download_id, dlr_total_size = total_size,
                            dlr_total_chunks = total_chunks\<rparr>) a2)
                 | (fs, Err err) \<Rightarrow> reply_error sid (''Failed to open file: '' @ err) mid (a0\<lparr>ag_fs := fs\<rparr>)
                 | (fs, Panic) \<Rightarrow> a0\<lparr>ag_fs := fs\<rparr>))"

definition chunk_position :: "u32 \<Rightarrow> u64" where
  "chunk_position chunk_index = ucast chunk_index * word_of_nat CHUNK_SIZE"

definition download_file_chunk ::
  "('f, 'h) sftp \<Rightarrow> instant \<Rightarrow> uuid \<Rightarrow> u32 \<Rightarrow> msg_id \<Rightarrow> u32 \<Rightarrow> u32 \<Rightarrow> ('f, 'h) agent \<Rightarrow> ('f, 'h) agent" where
  "download_file_chunk S now cid sid mid download_id chunk_index a =
     (let key = (cid, download_id) in
      case dm_get (ag_downloads a) key of
        None \<Rightarrow> reply_error sid ''Download not found or expired'' mid a
      | Some d \<Rightarrow>
          (case sf_seek S (down_sftp_file d) (chunk_position chunk_index) (ag_fs a) of
             (fs, Ok _) \<Rightarrow>
               (case sf_read S (down_sftp_file d) CHUNK_SIZE fs of
                  (fs', Ok []) \<Rightarrow> a\<lparr>ag_fs := fs', ag_downloads := dm_remove key (ag_downloads a)\<rparr>
                | (fs', Ok data) \<Rightarrow>
                    reply sid (WSFTPDownloadChunk sid mid
                        \<lparr>dlc_download_id = download_id, dlc_chunk_index = chunk_index,
                         dlc_chunk_size = word_of_nat (length data), dlc_data = data\<rparr>)
                      (a\<lparr>ag_fs := fs',
                         ag_downloads := dm_insert key (d\<lparr>down_last_updated := now\<rparr>) (ag_downloads a)\<rparr>)
                | (fs', Err err) \<Rightarrow>
                    (let a' = reply_error sid (''Error reading file: '' @ err) mid (a\<lparr>ag_fs := fs'\<rparr>)
                     in a'\<lparr>ag_downloads := dm_remove key (ag_downloads a')\<rparr>)
                | (fs', Panic) \<Rightarrow> a\<lparr>ag_fs := fs'\<rparr>)
           | (fs, Err err) \<Rightarrow>
               (let a' = reply_error sid (''Error seeking file: '' @ err) mid (a\<lparr>ag_fs := fs\<rparr>)
                in a'\<lparr>ag_downloads := dm_remove key (ag_downloads a')\<rparr>)
           | (fs, Panic) \<Rightarrow> a\<lparr>ag_fs := fs\<rparr>))"

section \<open>Deletion and listings\<close>

definition delete_path :: "SFTPDelete \<Rightarrow> string" where
  "delete_path data =
     trim_end_matches (\<lambda>c. c = CHR ''/'')
       (del_path data @ (if ends_with_char CHR ''/'' (del_path data) then '''' else ''/''))
     @ ''/'' @ del_filename data"

definition delete_file ::
  "('f, 'h) sftp \<Rightarrow> SFTPDelete \<Rightarrow> uuid \<Rightarrow> u32 \<Rightarrow> msg_id \<Rightarrow> ('f, 'h) agent \<Rightarrow> ('f, 'h) agent" where
  "delete_file S data cid sid mid a =
     (let file_path = delete_path data;
          temp_path = file_path @ ''.tmp'';
          a1 = a\<lparr>ag_uploads :=
                   dm_retain (\<lambda>(upload_cid, _) u. \<not> (upload_cid = cid \<and> up_temp_path u = temp_path)) (ag_uploads a)\<rparr>
      in case sf_remove_file S file_path (ag_fs a1) of
           (fs, Ok _) \<Rightarrow> a1\<lparr>ag_fs := fs\<rparr>
         | (fs, Err err) \<Rightarrow> reply_error sid (''Failed to delete file: '' @ err) mid (a1\<lparr>ag_fs := fs\<rparr>)
         | (fs, Panic) \<Rightarrow> a1\<lparr>ag_fs := fs\<rparr>)"

text \<open>
  \<open>list_dir\<close>; \<open>last_component\<close> is the name \<open>Path::components\<close> yields last, if any.
\<close>

definition last_component :: "string \<Rightarrow> string option" where
  "last_component p =
     (let parts = filter (\<lambda>w. w \<noteq> [] \<and> w \<noteq> ''.'') (split_on CHR ''/'' p)
      in if parts \<noteq> [] then Some (last parts)
         else if p \<noteq> [] \<and> hd p = CHR ''/'' then Some ''/''
         else if p \<noteq> [] then Some ''.''
         else None)"

definition list_item :: "string \<Rightarrow> string \<times> bool \<times> u64 option \<Rightarrow> SFTPListItem" where
  "list_item abs_path entry =
     (case entry of (name, is_dir, sz) \<Rightarrow>
        SFTPListItem name abs_path (if is_dir then Folder else File) []
          \<lparr>attr_size = (case sz of Some n \<Rightarrow> n | None \<Rightarrow> 0)\<rparr>)"

definition list_dir :: "('f, 'h) sftp \<Rightarrow> string \<Rightarrow> 'f \<Rightarrow> (string, SFTPListItem) outcome" where
  "list_dir S path fs =
     (case sf_canonicalize S path fs of
        Err e \<Rightarrow> Err e | Panic \<Rightarrow> Panic
      | Ok abs_path \<Rightarrow>
          (case sf_metadata S path fs of
             Err e \<Rightarrow> Err e | Panic \<Rightarrow> Panic
           | Ok sz \<Rightarrow>
               (case sf_read_dir S path fs of
                  Err e \<Rightarrow> Err e | Panic \<Rightarrow> Panic
                | Ok entries \<Rightarrow>
                    Ok (SFTPListItem (case last_component abs_path of Some n \<Rightarrow> n | None \<Rightarrow> path) abs_path
                          Folder (map (list_item abs_path) entries)
                          \<lparr>attr_size = (case sz of Some n \<Rightarrow> n | None \<Rightarrow> 0)\<rparr>))))"

definition send_directory_listing ::
  "('f, 'h) sftp \<Rightarrow> string \<Rightarrow> u32 \<Rightarrow> msg_id \<Rightarrow> ('f, 'h) agent \<Rightarrow> ('f, 'h) agent" where
  "send_directory_listing S path sid mid a =
     (case list_dir S path (ag_fs a) of
        Ok dir \<Rightarrow> reply sid (WSFTPListItems (item_path dir) sid dir mid) a
      | Err err \<Rightarrow> reply_error sid (''Failed to list directory: '' @ err) mid a
      | Panic \<Rightarrow> a)"

section \<open>The session loop\<close>

text \<open>One command of the loop in \<open>SFTPConnection::connect\<close>.\<close>

fun sftp_command ::
  "('f, 'h) sftp \<Rightarrow> instant \<Rightarrow> uuid \<Rightarrow> u32 \<Rightarrow> SFTPCommand \<Rightarrow> ('f, 'h) agent \<Rightarrow> ('f, 'h) agent option" where
  "sftp_command S now cid sid (SFTPListCmd folder mid) a = Some (send_directory_listing S folder sid mid a)"
| "sftp_command S now cid sid (SFTPDownloadStartCmd download mid) a =
     Some (start_download S now download cid sid mid a)"
| "sftp_command S now cid sid (SFTPDownloadChunkCmd chunk mid) a =
     Some (download_file_chunk S now cid sid mid (dlc_download_id chunk) (dlc_chunk_index chunk) a)"
| "sftp_command S now cid sid (SFTPUploadStartCmd upload mid) a =
     Some (start_upload S now upload cid sid mid a)"
| "sftp_command S now cid sid (SFTPUploadCmd chunk mid) a = upload_file_chunk S now chunk cid sid mid a"
| "sftp_command S now cid sid (SFTPDeleteCmd data mid) a = Some (delete_file S data cid sid mid a)"

text \<open>
  The loop serves commands, each with the clock at which it runs, until the stop signal or a
  hang; \<open>biased\<close> makes the stop signal win when both are ready.
\<close>

fun sftp_loop ::
  "('f, 'h) sftp \<Rightarrow> uuid \<Rightarrow> u32 \<Rightarrow> (instant \<times> SFTPCommand) list \<Rightarrow> ('f, 'h) agent \<Rightarrow> ('f, 'h) agent option" where
  "sftp_loop S cid sid [] a = Some a"
| "sftp_loop S cid sid ((now, cmd) # rest) a =
     (case sftp_command S now cid sid cmd a of
        None \<Rightarrow> None
      | Some a' \<Rightarrow> sftp_loop S cid sid rest a')"

section \<open>What the actions rely on\<close>

text \<open>
  Documented behaviour of a file system without I/O errors, over a view \<open>cont\<close> of its files
  and the path \<open>hp\<close> behind a handle: opening for append creates a missing file and keeps an
  existing one, a write appends, a rename moves, flushing changes no content.
\<close>

definition append_files ::
  "('f, 'h) sftp \<Rightarrow> ('f \<Rightarrow> string \<Rightarrow> bytes option) \<Rightarrow> ('h \<Rightarrow> string) \<Rightarrow> bool" where
  "append_files S cont hp \<longleftrightarrow>
     (\<forall>p f. \<exists>f' h. sf_open_append S p f = (f', Ok h) \<and> hp h = p \<and>
        cont f' = (cont f)(p \<mapsto> (case cont f p of None \<Rightarrow> [] | Some b \<Rightarrow> b))) \<and>
     (\<forall>h d f b. cont f (hp h) = Some b \<longrightarrow>
        (\<exists>f'. sf_write_all S h d f = (f', Ok ()) \<and> cont f' = (cont f)(hp h \<mapsto> b @ d))) \<and>
     (\<forall>p q f b. cont f p = Some b \<longrightarrow>
        (\<exists>f'. sf_rename S p q f = (f', Ok ()) \<and> cont f' = (cont f)(p := None, q \<mapsto> b))) \<and>
     (\<forall>h f. cont (sf_sync_all S h f) = cont f)"

text \<open>Reading: after a seek to \<open>p\<close>, a read fills the buffer from there as far as the file goes.\<close>

definition full_reads ::
  "('f, 'h) sftp \<Rightarrow> ('f \<Rightarrow> string \<Rightarrow> bytes option) \<Rightarrow> ('h \<Rightarrow> string) \<Rightarrow> bool" where
  "full_reads S cont hp \<longleftrightarrow>
     (\<forall>h p n f b. cont f (hp h) = Some b \<longrightarrow>
        (\<exists>f' f''. sf_seek S h p f = (f', Ok ()) \<and>
           sf_read S h n f' = (f'', Ok (take n (drop (unat p) b))) \<and> cont f'' = cont f))"

section \<open>Lemmas\<close>

lemma drop_upload_fields [agent_simps]:
  "ag_tx (drop_upload S key a) = ag_tx a"
  "ag_id_counter (drop_upload S key a) = ag_id_counter a"
  "ag_sessions (drop_upload S key a) = ag_sessions a"
  "ag_downloads (drop_upload S key a) = ag_downloads a"
  "ag_stopped (drop_upload S key a) = ag_stopped a"
  "ag_uploads (drop_upload S key a) =
     (if dm_get (ag_uploads a) key = None then ag_uploads a else dm_remove key (ag_uploads a))"
  by (simp_all add: drop_upload_def split: option.splits)

lemma drop_download_fields [agent_simps]:
  "ag_tx (drop_download S key a) = ag_tx a"
  "ag_id_counter (drop_download S key a) = ag_id_counter a"
  "ag_sessions (drop_download S key a) = ag_sessions a"
  "ag_uploads (drop_download S key a) = ag_uploads a"
  "ag_stopped (drop_download S key a) = ag_stopped a"
  "ag_downloads (drop_download S key a) =
     (if dm_get (ag_downloads a) key = None then ag_downloads a else dm_remove key (ag_downloads a))"
  by (simp_all add: drop_download_def split: option.splits)

lemma drop_uploads_fields [agent_simps]:
  "ag_tx (fold (drop_upload S) ks a) = ag_tx a"
  "ag_id_counter (fold (drop_upload S) ks a) = ag_id_counter a"
  "ag_sessions (fold (drop_upload S) ks a) = ag_sessions a"
  "ag_downloads (fold (drop_upload S) ks a) = ag_downloads a"
  "ag_stopped (fold (drop_upload S) ks a) = ag_stopped a"
  by (induction ks arbitrary: a) (simp_all add: agent_simps)

lemma drop_downloads_fields [agent_simps]:
  "ag_tx (fold (drop_download S) ks a) = ag_tx a"
  "ag_id_counter (fold (drop_download S) ks a) = ag_id_counter a"
  "ag_sessions (fold (drop_download S) ks a) = ag_sessions a"
  "ag_uploads (fold (drop_download S) ks a) = ag_uploads a"
  "ag_stopped (fold (drop_download S) ks a) = ag_stopped a"
  by (induction ks arbitrary: a) (simp_all add: agent_simps)

lemma drop_uploads_get:
  "dm_get (ag_uploads (fold (drop_upload S) ks a)) k = (if k \<in> set ks then None else dm_get (ag_uploads a) k)"
  by (induction ks arbitrary: a) (auto simp: agent_simps dm_simps)

lemma drop_downloads_get:
  "dm_get (ag_downloads (fold (drop_download S) ks a)) k = (if k \<in> set ks then None else dm_get (ag_downloads a) k)"
  by (induction ks arbitrary: a) (auto simp: agent_simps dm_simps)

lemma drop_uploads_cont:
  "append_files S cont hp \<Longrightarrow> cont (ag_fs (fold (drop_upload S) ks a)) = cont (ag_fs a)"
  by (induction ks arbitrary: a) (auto simp: drop_upload_def append_files_def split: option.splits)

text \<open>The float formula: conversion is exact below \<open>2 ^ 53\<close> and stays above it otherwise.\<close>

lemma log2_floor_le: "0 < n \<Longrightarrow> 2 ^ log2_floor n \<le> n"
proof (induction n rule: log2_floor.induct)
  case (1 n)
  then show ?case
  proof (cases "n < 2")
    case False
    then have "2 ^ log2_floor (n div 2) \<le> n div 2"
      using 1 by simp
    then show ?thesis
      using False by (subst log2_floor.simps) simp
  qed (simp add: log2_floor.simps)
qed

lemma log2_floor_gt: "n < 2 ^ Suc (log2_floor n)"
proof (induction n rule: log2_floor.induct)
  case (1 n)
  then show ?case
  proof (cases "n < 2")
    case False
    then have "n div 2 < 2 ^ Suc (log2_floor (n div 2))"
      using 1 by simp
    then show ?thesis
      using False by (subst log2_floor.simps) simp
  qed (simp add: log2_floor.simps)
qed

lemma unat_u32_max: "unat (- 1 :: u32) = 2 ^ 32 - 1"
  by (simp add: unsigned_minus_1_eq_mask mask_eq_exp_minus_1)

lemma round_f64_large:
  assumes "2 ^ 53 \<le> n"
  shows "2 ^ 53 \<le> round_f64 n"
proof -
  let ?l = "log2_floor n" let ?e = "?l - 52"
  have "(2::nat) ^ 53 < 2 ^ Suc ?l"
    using assms log2_floor_gt [of n] by linarith
  then have l: "53 \<le> ?l"
    using power_less_imp_less_exp [of "2::nat" 53 "Suc ?l"] by simp
  have pow: "2 ^ 52 * 2 ^ ?e = (2::nat) ^ ?l"
    using l by (subst power_add [symmetric]) simp
  have "(2::nat) ^ ?l \<le> n"
    using assms by (intro log2_floor_le) simp
  then have "2 ^ 52 \<le> n div 2 ^ ?e"
    by (simp add: less_eq_div_iff_mult_less_eq pow [simplified])
  then have "2 ^ 52 * 2 ^ ?e \<le> n div 2 ^ ?e * 2 ^ ?e"
    by (rule mult_right_mono) simp
  moreover have "(2::nat) ^ 53 \<le> 2 ^ 52 * 2 ^ ?e"
    unfolding pow using l by (intro power_increasing) simp_all
  moreover have "n div 2 ^ ?e * 2 ^ ?e \<le> round_f64 n"
    using assms by (simp add: round_f64_def Let_def)
  ultimately show ?thesis
    by linarith
qed

section \<open>Properties\<close>

text \<open>
  C33: the number of chunks announced for a download, computed in floating point, is exactly
  the size divided by the chunk size, rounded up, for every 64-bit size, and saturates at
  \<open>u32::MAX\<close>; the rounding of large sizes never shows.
\<close>

theorem total_chunks_exact:
  "unat (total_chunks_of total_size) = min (2 ^ 32 - 1) ((unat total_size + 65535) div 65536)"
proof -
  let ?n = "unat total_size"
  note max = unat_u32_max
  have chunk: "CHUNK_SIZE = 65536"
    by (simp add: CHUNK_SIZE_def)
  show ?thesis
  proof (cases "?n < 2 ^ 53")
    case True
    then have "round_f64 ?n = ?n"
      by (simp add: round_f64_def)
    then show ?thesis
      by (auto simp: total_chunks_of_def Let_def chunk max unat_of_nat min_def)
  next
    case False
    then have "2 ^ 53 \<le> round_f64 ?n" "2 ^ 53 \<le> ?n"
      using round_f64_large [of ?n] by simp_all
    then have "2 ^ 37 \<le> (round_f64 ?n + 65535) div 65536" "2 ^ 37 \<le> (?n + 65535) div 65536"
      by (simp_all add: less_eq_div_iff_mult_less_eq)
    then show ?thesis
      by (simp add: total_chunks_of_def Let_def chunk max min_def)
  qed
qed


text \<open>
  The test for the last chunk: the index after this one reaches the announced number,
  except that the largest index wraps around to zero and is then taken for an intermediate chunk
  of every upload that announced at least one.
\<close>

theorem last_chunk_test:
  "is_last_chunk chunk u \<longleftrightarrow>
     (if ulc_chunk_index chunk = - 1 then up_total_chunks u = 0
      else unat (up_total_chunks u) \<le> unat (ulc_chunk_index chunk) + 1)"
proof (cases "ulc_chunk_index chunk = - 1")
  case False
  then have "unat (ulc_chunk_index chunk) \<noteq> 2 ^ 32 - 1"
    by (metis unat_u32_max word_unat_eq_iff)
  moreover have "unat (ulc_chunk_index chunk) < 2 ^ 32"
    using unsigned_less [of "ulc_chunk_index chunk", where ?'a = nat] by simp
  ultimately have "unat (ulc_chunk_index chunk + 1) = unat (ulc_chunk_index chunk) + 1"
    using unat_add_lem [of "ulc_chunk_index chunk" 1] by simp
  with False show ?thesis
    by (simp add: is_last_chunk_def word_le_nat_alt)
qed (simp add: is_last_chunk_def)

text \<open>
  The commands of one upload: the chunks carry consecutive indices from \<open>i\<close> on. Each comes
  with the clock at which it is served.
\<close>

fun upload_cmds :: "u32 \<Rightarrow> msg_id \<Rightarrow> nat \<Rightarrow> (instant \<times> bytes) list \<Rightarrow> (instant \<times> SFTPCommand) list" where
  "upload_cmds uid mid i [] = []"
| "upload_cmds uid mid i ((now, d) # ds) =
     (now, SFTPUploadCmd \<lparr>ulc_upload_id = uid, ulc_chunk_index = word_of_nat i,
             ulc_chunk_size = word_of_nat (length d), ulc_data = d\<rparr> mid) # upload_cmds uid mid (Suc i) ds"

definition upload_acks :: "u32 \<Rightarrow> u32 \<Rightarrow> nat \<Rightarrow> nat \<Rightarrow> Frame list" where
  "upload_acks sid uid i n =
     map (\<lambda>k. Frame_from_node (NWebFrame (WSFTPUploadChunkAck sid uid (word_of_nat k)) (SessionId sid))) [i..<i + n]"

lemma upload_acks_0 [simp]: "upload_acks sid uid i 0 = []"
  by (simp add: upload_acks_def)

lemma upload_acks_Suc:
  "upload_acks sid uid i (Suc n) =
     Frame_from_node (NWebFrame (WSFTPUploadChunkAck sid uid (word_of_nat i)) (SessionId sid))
     # upload_acks sid uid (Suc i) n"
  by (simp add: upload_acks_def upt_conv_Cons del: upt_Suc)

lemma append_filesD:
  assumes "append_files S cont hp"
  shows "\<exists>f' h. sf_open_append S p f = (f', Ok h) \<and> hp h = p \<and>
        cont f' = (cont f)(p \<mapsto> (case cont f p of None \<Rightarrow> [] | Some b \<Rightarrow> b))"
    and "cont f (hp h) = Some b \<Longrightarrow>
        \<exists>f'. sf_write_all S h d f = (f', Ok ()) \<and> cont f' = (cont f)(hp h \<mapsto> b @ d)"
    and "cont f p = Some b \<Longrightarrow>
        \<exists>f'. sf_rename S p q f = (f', Ok ()) \<and> cont f' = (cont f)(p := None, q \<mapsto> b)"
  using assms by (auto simp: append_files_def)

lemma word_of_nat_last:
  assumes "i < n" "n < 2 ^ 32"
  shows "(word_of_nat n :: u32) \<le> word_of_nat i + 1 \<longleftrightarrow> n = i + 1"
proof -
  have "unat (word_of_nat n :: u32) = n" "unat (word_of_nat (i + 1) :: u32) = i + 1"
    using assms by (simp_all only: unat_of_nat) simp_all
  moreover have "(word_of_nat i :: u32) + 1 = word_of_nat (i + 1)"
    by (simp add: add.commute)
  ultimately show ?thesis
    using assms(1) by (auto simp only: word_le_nat_alt)
qed

lemma finish_upload_ok:
  assumes "append_files S cont hp" "hp (up_sftp_file u) = up_temp_path u"
    and "cont (ag_fs a) (up_temp_path u) = Some pre"
  shows "\<exists>fs. finish_upload S chunk sid mid u a
      = reply sid (WSFTPUploadChunkAck sid (ulc_upload_id chunk) (ulc_chunk_index chunk)) (a\<lparr>ag_fs := fs\<rparr>) \<and>
    cont fs = (cont (ag_fs a))(up_temp_path u := None,
      join_path (up_remote_path u) (up_filename u) \<mapsto> pre @ ulc_data chunk)"
proof -
  obtain f1 where f1: "sf_write_all S (up_sftp_file u) (ulc_data chunk) (ag_fs a) = (f1, Ok ())"
    "cont f1 = (cont (ag_fs a))(up_temp_path u \<mapsto> pre @ ulc_data chunk)"
    using append_filesD(2) [OF assms(1), of "ag_fs a" "up_sftp_file u" pre "ulc_data chunk"] assms(2,3) by auto
  obtain f2 where "sf_rename S (up_temp_path u) (join_path (up_remote_path u) (up_filename u)) f1 = (f2, Ok ())"
    "cont f2 = (cont f1)(up_temp_path u := None, join_path (up_remote_path u) (up_filename u) \<mapsto> pre @ ulc_data chunk)"
    using append_filesD(3) [OF assms(1), of f1 "up_temp_path u"] f1(2) by fastforce
  then show ?thesis
    using f1 by (auto simp: finish_upload_def)
qed

lemma upload_loop:
  assumes S: "append_files S cont hp"
    and "ds \<noteq> []" "i + length ds = n" "n < 2 ^ 32"
    and "dm_get (ag_uploads a) (cid, uid) = Some u" "up_total_chunks u = word_of_nat n"
    and "hp (up_sftp_file u) = up_temp_path u" "cont (ag_fs a) (up_temp_path u) = Some pre"
    and "\<not> ch_closed (ag_tx a)"
  shows "\<exists>a'. sftp_loop S cid sid (upload_cmds uid mid i ds) a = Some a' \<and>
     cont (ag_fs a') = (cont (ag_fs a))(up_temp_path u := None,
        join_path (up_remote_path u) (up_filename u) \<mapsto> pre @ concat (map snd ds)) \<and>
     ch_queue (ag_tx a') = ch_queue (ag_tx a) @ upload_acks sid uid i (length ds) \<and>
     dm_get (ag_uploads a') (cid, uid) = None"
  using assms(2-)
proof (induction ds arbitrary: i a u pre)
  case (Cons x ds)
  obtain now d where x: "x = (now, d)"
    by (cases x)
  let ?chunk = "\<lparr>ulc_upload_id = uid, ulc_chunk_index = word_of_nat i,
             ulc_chunk_size = word_of_nat (length d), ulc_data = d\<rparr>"
  have last: "is_last_chunk ?chunk u \<longleftrightarrow> ds = []"
    using Cons.prems word_of_nat_last [of i n] by (auto simp: is_last_chunk_def)
  show ?case
  proof (cases ds)
    case Nil
    let ?a = "a\<lparr>ag_uploads := dm_remove (cid, uid) (ag_uploads a)\<rparr>"
    obtain fs where "finish_upload S ?chunk sid mid u ?a
        = reply sid (WSFTPUploadChunkAck sid uid (word_of_nat i)) (?a\<lparr>ag_fs := fs\<rparr>)"
      "cont fs = (cont (ag_fs a))(up_temp_path u := None,
        join_path (up_remote_path u) (up_filename u) \<mapsto> pre @ d)"
      using finish_upload_ok [OF S, of u ?a pre ?chunk sid mid] Cons.prems by auto
    then show ?thesis
      using Cons.prems last Nil
      by (simp add: x upload_file_chunk_def append_chunk_def Let_def agent_simps send_await_queue dm_simps
          upload_acks_Suc fun_eq_iff)
  next
    case (Cons y ys)
    obtain f1 where f1: "sf_write_all S (up_sftp_file u) d (ag_fs a) = (f1, Ok ())"
      "cont f1 = (cont (ag_fs a))(up_temp_path u \<mapsto> pre @ d)"
      using append_filesD(2) [OF S, of "ag_fs a" "up_sftp_file u" pre d] Cons.prems by auto
    define u' where "u' = u\<lparr>up_last_updated := now\<rparr>"
    define a1 where "a1 = reply sid (WSFTPUploadChunkAck sid uid (word_of_nat i))
      (a\<lparr>ag_fs := f1, ag_uploads := dm_insert (cid, uid) u' (ag_uploads a)\<rparr>)"
    have step: "upload_file_chunk S now ?chunk cid sid mid a = Some a1"
      using Cons.prems last Cons f1 by (simp add: upload_file_chunk_def append_chunk_def Let_def a1_def u'_def)
    have "\<exists>a'. sftp_loop S cid sid (upload_cmds uid mid (Suc i) ds) a1 = Some a' \<and>
       cont (ag_fs a') = (cont (ag_fs a1))(up_temp_path u' := None,
          join_path (up_remote_path u') (up_filename u') \<mapsto> (pre @ d) @ concat (map snd ds)) \<and>
       ch_queue (ag_tx a') = ch_queue (ag_tx a1) @ upload_acks sid uid (Suc i) (length ds) \<and>
       dm_get (ag_uploads a') (cid, uid) = None"
      using Cons.prems Cons f1(2)
      by (intro Cons.IH) (simp_all add: a1_def u'_def agent_simps dm_simps)
    then obtain a' where a': "sftp_loop S cid sid (upload_cmds uid mid (Suc i) ds) a1 = Some a'"
      "cont (ag_fs a') = (cont (ag_fs a1))(up_temp_path u' := None,
          join_path (up_remote_path u') (up_filename u') \<mapsto> (pre @ d) @ concat (map snd ds))"
      "ch_queue (ag_tx a') = ch_queue (ag_tx a1) @ upload_acks sid uid (Suc i) (length ds)"
      "dm_get (ag_uploads a') (cid, uid) = None"
      by blast
    have "cont (ag_fs a') = (cont (ag_fs a))(up_temp_path u := None,
        join_path (up_remote_path u) (up_filename u) \<mapsto> pre @ concat (map snd (x # ds)))"
      using a'(2) f1(2) by (simp add: x a1_def u'_def agent_simps)
    moreover have "sftp_loop S cid sid (upload_cmds uid mid i (x # ds)) a = Some a'"
      using a'(1) step by (simp add: x)
    moreover have "ch_queue (ag_tx a') = ch_queue (ag_tx a) @ upload_acks sid uid i (length (x # ds))"
      using a'(3) Cons.prems by (simp add: a1_def send_await_queue upload_acks_Suc)
    ultimately show ?thesis
      using a'(4) by blast
  qed
qed simp


text \<open>An in-memory file system, with a position per path.\<close>

type_synonym mem_fs = "(string \<Rightarrow> bytes option) \<times> (string \<Rightarrow> nat)"

definition mem_sftp :: "(mem_fs, string) sftp" where
  "mem_sftp = \<lparr>
     sf_open_append = (\<lambda>p (c, ps). ((c(p \<mapsto> (case c p of None \<Rightarrow> [] | Some b \<Rightarrow> b)), ps), Ok p)),
     sf_open_read = (\<lambda>p (c, ps). ((c, ps), if c p = None then Err ''No such file'' else Ok p)),
     sf_write_all = (\<lambda>h d (c, ps). case c h of None \<Rightarrow> ((c, ps), Err ''No such file'')
                        | Some b \<Rightarrow> ((c(h \<mapsto> b @ d), ps), Ok ())),
     sf_rename = (\<lambda>p q (c, ps). case c p of None \<Rightarrow> ((c, ps), Err ''No such file'')
                        | Some b \<Rightarrow> ((c(p := None, q \<mapsto> b), ps), Ok ())),
     sf_remove_file = (\<lambda>p (c, ps). if c p = None then ((c, ps), Err ''No such file'') else ((c(p := None), ps), Ok ())),
     sf_metadata = (\<lambda>p (c, ps). case c p of None \<Rightarrow> Err ''No such file'' | Some b \<Rightarrow> Ok (Some (word_of_nat (length b)))),
     sf_canonicalize = (\<lambda>p f. Ok p),
     sf_read_dir = (\<lambda>p f. Ok []),
     sf_seek = (\<lambda>h p (c, ps). ((c, ps(h := unat p)), Ok ())),
     sf_read = (\<lambda>h n (c, ps). case c h of None \<Rightarrow> ((c, ps), Err ''No such file'')
                        | Some b \<Rightarrow> ((c, ps(h := ps h + n)), Ok (take n (drop (ps h) b)))),
     sf_sync_all = (\<lambda>h f. f)\<rparr>"

lemma mem_sftp_append: "append_files mem_sftp fst id"
  by (auto simp: append_files_def mem_sftp_def)

lemma mem_sftp_reads: "full_reads mem_sftp fst id"
  by (auto simp: full_reads_def mem_sftp_def)

definition example_agent :: "(mem_fs, string) agent" where
  "example_agent = WebSocketConnection_new 1 1 ((\<lambda>_. None), (\<lambda>_. 0))"

lemmas example_agent_simps = example_agent_def WebSocketConnection_new_def


lemma trim_end_slash_append:
  "trim_end_matches (\<lambda>c. c = CHR ''/'') (s @ ''/'') = trim_end_matches (\<lambda>c. c = CHR ''/'') s"
  by (simp add: trim_end_matches_def)

lemma trim_end_slash_id:
  "\<not> ends_with_char CHR ''/'' s \<Longrightarrow> trim_end_matches (\<lambda>c. c = CHR ''/'') s = s"
  by (cases s rule: rev_cases) (simp_all add: trim_end_matches_def ends_with_char_def)

lemma trim_end_slash_length: "length (trim_end_matches (\<lambda>c. c = CHR ''/'') s) \<le> length s"
  using length_dropWhile_le [of "\<lambda>c. c = CHR ''/''" "rev s"] by (simp add: trim_end_matches_def)

text \<open>
  Deleting a file names the same path as uploading it, and so cancels an upload in
  progress, exactly unless the directory was given with two or more trailing slashes, which
  deletion removes and uploading keeps.
\<close>

theorem delete_path_is_upload_path:
  "delete_path \<lparr>del_path = d, del_filename = f\<rparr> = join_path d f \<longleftrightarrow> \<not> (\<exists>p. d = p @ ''//'')"
proof (cases "ends_with_char CHR ''/'' d")
  case False
  then have "\<not> (\<exists>p. d = p @ ''//'')"
    by (auto simp: ends_with_char_def)
  with False show ?thesis
    by (simp add: delete_path_def join_path_def trim_end_slash_append [simplified] trim_end_slash_id)
next
  case True
  then obtain p where d: "d = p @ ''/''"
    by (metis append_butlast_last_id ends_with_char_def)
  then have "delete_path \<lparr>del_path = d, del_filename = f\<rparr> = join_path d f \<longleftrightarrow>
      trim_end_matches (\<lambda>c. c = CHR ''/'') p = p"
    using True trim_end_slash_append [of p] by (simp add: delete_path_def join_path_def)
  also have "\<dots> \<longleftrightarrow> \<not> ends_with_char CHR ''/'' p"
  proof
    assume eq: "trim_end_matches (\<lambda>c. c = CHR ''/'') p = p"
    show "\<not> ends_with_char CHR ''/'' p"
    proof
      assume "ends_with_char CHR ''/'' p"
      then obtain q where "p = q @ ''/''"
        by (metis append_butlast_last_id ends_with_char_def)
      then show False
        using eq trim_end_slash_append [of q] trim_end_slash_length [of q] by simp
    qed
  qed (rule trim_end_slash_id)
  also have "\<dots> \<longleftrightarrow> \<not> (\<exists>q. d = q @ ''//'')"
    by (auto simp: d ends_with_char_def) (metis append.assoc append_Cons append_Nil append_butlast_last_id)
  finally show ?thesis .
qed

section \<open>Downloads chunk by chunk\<close>

lemma chunk_position_exact: "unat (chunk_position i) = unat i * CHUNK_SIZE"
proof -
  have "unat i < 2 ^ 32"
    using unsigned_less [of i, where ?'a = nat] by simp
  then have "unat i * 65536 < 2 ^ 64"
    by simp
  then show ?thesis
    by (simp add: chunk_position_def CHUNK_SIZE_def unat_word_ariths(2) unsigned_ucast_eq take_bit_eq_mod)
qed

definition file_slice :: "bytes \<Rightarrow> nat \<Rightarrow> bytes" where
  "file_slice b i = take CHUNK_SIZE (drop (i * CHUNK_SIZE) b)"

lemma slices_concat: "concat (map (\<lambda>i. take k (drop (i * k) b)) [0..<n]) = take (n * k) b"
proof (induction n)
  case (Suc n)
  then show ?case
    using take_add [of "n * k" k b] by (simp add: add.commute)
qed simp

definition download_frame :: "u32 \<Rightarrow> msg_id \<Rightarrow> u32 \<Rightarrow> bytes \<Rightarrow> nat \<Rightarrow> Frame" where
  "download_frame sid mid did b i =
     Frame_from_node (NWebFrame (WSFTPDownloadChunk sid mid
       \<lparr>dlc_download_id = did, dlc_chunk_index = word_of_nat i,
        dlc_chunk_size = word_of_nat (length (file_slice b i)), dlc_data = file_slice b i\<rparr>) (SessionId sid))"

fun request_chunks :: "('f, 'h) sftp \<Rightarrow> uuid \<Rightarrow> u32 \<Rightarrow> msg_id \<Rightarrow> u32 \<Rightarrow> (instant \<times> nat) list \<Rightarrow>
    ('f, 'h) agent \<Rightarrow> ('f, 'h) agent" where
  "request_chunks S cid sid mid did [] a = a"
| "request_chunks S cid sid mid did ((now, i) # is) a =
     request_chunks S cid sid mid did is (download_file_chunk S now cid sid mid did (word_of_nat i) a)"

lemma download_chunk_ok:
  fixes S :: "('f, 'h) sftp" and now :: instant and sid :: u32 and mid :: msg_id
  assumes S: "full_reads S cont hp"
    and d: "dm_get (ag_downloads a) (cid, did) = Some d" and b: "cont (ag_fs a) (hp (down_sftp_file d)) = Some b"
    and i: "i < 2 ^ 32" "i * CHUNK_SIZE < length b" and tx: "\<not> ch_closed (ag_tx a)"
  defines "a' \<equiv> download_file_chunk S now cid sid mid did (word_of_nat i) a"
  shows "ch_queue (ag_tx a') = ch_queue (ag_tx a) @ [download_frame sid mid did b i]"
    and "dm_get (ag_downloads a') (cid, did) = Some (d\<lparr>down_last_updated := now\<rparr>)"
    and "cont (ag_fs a') = cont (ag_fs a)" "\<not> ch_closed (ag_tx a')"
proof -
  have pos: "unat (chunk_position (word_of_nat i)) = i * CHUNK_SIZE"
    using i(1) by (simp add: chunk_position_exact unat_of_nat)
  obtain f1 f2 where ops: "sf_seek S (down_sftp_file d) (chunk_position (word_of_nat i)) (ag_fs a) = (f1, Ok ())"
    "sf_read S (down_sftp_file d) CHUNK_SIZE f1 = (f2, Ok (file_slice b i))" "cont f2 = cont (ag_fs a)"
    using S b unfolding full_reads_def file_slice_def pos [symmetric] by blast
  have ne: "file_slice b i \<noteq> []"
    using i(2) by (simp add: file_slice_def CHUNK_SIZE_def)
  then have a': "a' = reply sid (WSFTPDownloadChunk sid mid
      \<lparr>dlc_download_id = did, dlc_chunk_index = word_of_nat i,
       dlc_chunk_size = word_of_nat (length (file_slice b i)), dlc_data = file_slice b i\<rparr>)
      (a\<lparr>ag_fs := f2, ag_downloads := dm_insert (cid, did) (d\<lparr>down_last_updated := now\<rparr>) (ag_downloads a)\<rparr>)"
    using d ops by (simp add: a'_def download_file_chunk_def Let_def split: list.splits)
  show "ch_queue (ag_tx a') = ch_queue (ag_tx a) @ [download_frame sid mid did b i]"
    using tx by (simp add: a' send_await_queue download_frame_def)
  show "dm_get (ag_downloads a') (cid, did) = Some (d\<lparr>down_last_updated := now\<rparr>)"
    "cont (ag_fs a') = cont (ag_fs a)" "\<not> ch_closed (ag_tx a')"
    using tx ops(3) by (simp_all add: a' agent_simps dm_simps)
qed

lemma request_chunks_ok:
  assumes S: "full_reads S cont hp"
    and "dm_get (ag_downloads a) (cid, did) = Some d" "cont (ag_fs a) (hp (down_sftp_file d)) = Some b"
    and "\<forall>(t, i) \<in> set is. i < 2 ^ 32 \<and> i * CHUNK_SIZE < length b" "\<not> ch_closed (ag_tx a)"
  shows "ch_queue (ag_tx (request_chunks S cid sid mid did is a)) =
     ch_queue (ag_tx a) @ map (\<lambda>(_, i). download_frame sid mid did b i) is"
  using assms(2-)
proof (induction "is" arbitrary: a d)
  case (Cons x xs)
  obtain now i where x: "x = (now, i)"
    by (cases x)
  note ok = download_chunk_ok [OF S, of a cid did d b i now sid mid]
  show ?case
    using Cons.IH [of "download_file_chunk S now cid sid mid did (word_of_nat i) a" "d\<lparr>down_last_updated := now\<rparr>"]
      Cons.prems ok
    by (simp add: x)
qed simp



end
