(* ===== verification/Agent_Ssh.thy ===== *)
theory Agent_Ssh
  imports Agent_State
begin

text \<open>
  The SSH tunnel of an agent (\<open>agent/src/ssh/connection.rs\<close> and the task spawned by
  \<open>start_ssh_tunnel\<close> in \<open>agent/src/ws.rs\<close>): connect to the SSH server, open a shell and
  relay data in both directions until one side ends. The SSH library is the record \<open>ssh_ext\<close>;
  what the tunnel asks of the server is the list of its \<open>ssh_out\<close> actions.
\<close>

section \<open>The SSH library\<close>

record ssh_ext =
  ss_connect :: "string \<Rightarrow> u16 \<Rightarrow> (string, unit) outcome"
  ss_auth_password :: "string \<Rightarrow> string \<Rightarrow> (string, bool) outcome"
  ss_auth_none :: "string \<Rightarrow> (string, bool) outcome"
  ss_open_session :: "(string, unit) outcome"
  ss_request_pty :: "(string, unit) outcome"
  ss_request_shell :: "(string, unit) outcome"
  ss_request_subsystem :: "(string, unit) outcome"
  ss_sftp_new :: "(string, unit) outcome"
  ss_data_ok :: "bytes \<Rightarrow> bool"
  ss_disconnect :: "(string, unit) outcome"

datatype ChannelMsg = CMData bytes | CMEof | CMExitStatus u32 | CMClose | CMOther

datatype ssh_out = OutData bytes | OutResize u32 u32 u32 u32 | OutEof | OutClose | OutDisconnect

text \<open>
  What the loop's \<open>select!\<close> picks next: the stop signal, a command from the client, or a
  message of the SSH channel (\<open>None\<close> when it is gone). \<open>biased\<close> only restricts the order
  when several are ready; every order of events is covered.
\<close>

datatype ssh_event = SshStop | SshCmd SSHCommand | SshMsg "ChannelMsg option"

section \<open>Connecting\<close>

definition ssh_create_client ::
  "ssh_ext \<Rightarrow> agent_env \<Rightarrow> ConfigAuth \<Rightarrow> (string, unit) outcome" where
  "ssh_create_client E env credentials =
     (case ss_connect E (ae_ssh_host env) (ae_ssh_port env) of
        Err e \<Rightarrow> Err e | Panic \<Rightarrow> Panic
      | Ok _ \<Rightarrow>
          (case (case credentials of
                   UsernamePassword username password \<Rightarrow> ss_auth_password E username password
                 | Username username \<Rightarrow> ss_auth_none E username) of
             Err e \<Rightarrow> Err e | Panic \<Rightarrow> Panic
           | Ok success \<Rightarrow> if \<not> success then Err ''SSH authentication failed'' else Ok ()))"

text \<open>\<open>request_pty\<close> and \<open>request_shell\<close> follow the opening of the session, each with \<open>?\<close>.\<close>

definition ssh_open_shell :: "ssh_ext \<Rightarrow> agent_env \<Rightarrow> ConfigAuth \<Rightarrow> (string, unit) outcome" where
  "ssh_open_shell E env credentials =
     (case ssh_create_client E env credentials of
        Err e \<Rightarrow> Err e | Panic \<Rightarrow> Panic
      | Ok _ \<Rightarrow>
          (case ss_open_session E of
             Err e \<Rightarrow> Err e | Panic \<Rightarrow> Panic
           | Ok _ \<Rightarrow>
               (case ss_request_pty E of
                  Err e \<Rightarrow> Err e | Panic \<Rightarrow> Panic
                | Ok _ \<Rightarrow> ss_request_shell E)))"

section \<open>The relay loop\<close>

text \<open>One round: the new state, the actions towards the SSH server, and whether the loop goes on.\<close>

fun ssh_step ::
  "ssh_ext \<Rightarrow> string \<Rightarrow> u32 \<Rightarrow> ssh_event \<Rightarrow> ('f, 'h) agent \<Rightarrow> ('f, 'h) agent \<times> ssh_out list \<times> bool" where
  "ssh_step E node_id sid SshStop a = (a, [], False)"
| "ssh_step E node_id sid (SshCmd (SSHData buf)) a = (a, [OutData buf], ss_data_ok E buf)"
| "ssh_step E node_id sid (SshCmd (SSHResize cols rows w h)) a = (a, [OutResize cols rows w h], True)"
| "ssh_step E node_id sid (SshMsg None) a = (a, [], False)"
| "ssh_step E node_id sid (SshMsg (Some (CMData data))) a = (send_tunnel_data sid node_id data a, [], True)"
| "ssh_step E node_id sid (SshMsg (Some CMEof)) a = (a, [], False)"
| "ssh_step E node_id sid (SshMsg (Some (CMExitStatus _))) a = (a, [OutEof], False)"
| "ssh_step E node_id sid (SshMsg (Some CMClose)) a = (a, [], False)"
| "ssh_step E node_id sid (SshMsg (Some CMOther)) a = (a, [], True)"

fun ssh_loop ::
  "ssh_ext \<Rightarrow> string \<Rightarrow> u32 \<Rightarrow> ssh_event list \<Rightarrow> ('f, 'h) agent \<Rightarrow> ('f, 'h) agent \<times> ssh_out list" where
  "ssh_loop E node_id sid [] a = (a, [])"
| "ssh_loop E node_id sid (ev # evs) a =
     (case ssh_step E node_id sid ev a of
        (a1, outs, True) \<Rightarrow> (case ssh_loop E node_id sid evs a1 of (a2, outs') \<Rightarrow> (a2, outs @ outs'))
      | (a1, outs, False) \<Rightarrow> (a1, outs))"

text \<open>
  \<open>SSHConnection::connect\<close>. The end of the event list is the end of the channel, so the
  loop always ends. An error carries the frame id it is reported under.
\<close>

definition ssh_connect ::
  "ssh_ext \<Rightarrow> agent_env \<Rightarrow> ConfigAuth \<Rightarrow> string \<Rightarrow> uuid \<Rightarrow> u32 \<Rightarrow> msg_id \<Rightarrow> ssh_event list
     \<Rightarrow> ('f, 'h) agent \<Rightarrow> ('f, 'h) agent \<times> ssh_out list \<times> (WebFrameId \<times> string, u32) outcome" where
  "ssh_connect E env credentials node_id cid sid mid evs a =
     (case ssh_open_shell E env credentials of
        Err e \<Rightarrow> (a, [], Err (SessionId sid, e))
      | Panic \<Rightarrow> (a, [], Panic)
      | Ok _ \<Rightarrow>
          (let a1 = send_frame_data (NTunnelOpened (Protocol_as_u8 SSH) cid sid mid) a
           in case ssh_loop E node_id sid evs a1 of
                (a2, outs) \<Rightarrow>
                  (a2, outs @ [OutClose, OutDisconnect],
                   case ss_disconnect E of
                     Ok _ \<Rightarrow> Ok sid | Err e \<Rightarrow> Err (SessionId sid, e) | Panic \<Rightarrow> Panic)))"

text \<open>The spawned task: connect, then report how it ended.\<close>

definition ssh_task ::
  "ssh_ext \<Rightarrow> agent_env \<Rightarrow> ConfigAuth \<Rightarrow> string \<Rightarrow> uuid \<Rightarrow> u32 \<Rightarrow> msg_id \<Rightarrow> ssh_event list
     \<Rightarrow> ('f, 'h) agent \<Rightarrow> ('f, 'h) agent \<times> ssh_out list" where
  "ssh_task E env credentials node_id cid sid mid evs a =
     (case ssh_connect E env credentials node_id cid sid mid evs a of
        (a1, outs, Ok sid') \<Rightarrow>
          (send_frame_data (NTunnelClosed (Protocol_as_u8 SSH) cid sid' mid) a1, outs)
      | (a1, outs, Err (fid, err)) \<Rightarrow>
          (send_frame_data (NWebFrame (WError Generic err mid) fid) a1, outs)
      | (a1, outs, Panic) \<Rightarrow> (a1, outs))"

section \<open>Lemmas\<close>

lemma send_tunnel_data_fields [agent_simps]:
  "ag_sessions (send_tunnel_data sid n d a) = ag_sessions a"
  "ag_uploads (send_tunnel_data sid n d a) = ag_uploads a"
  "ag_downloads (send_tunnel_data sid n d a) = ag_downloads a"
  "ag_stopped (send_tunnel_data sid n d a) = ag_stopped a"
  "ch_closed (ag_tx (send_tunnel_data sid n d a)) = ch_closed (ag_tx a)"
  "ch_cap (ag_tx (send_tunnel_data sid n d a)) = ch_cap (ag_tx a)"
  by (simp_all add: send_tunnel_data_def agent_simps)

lemma ssh_step_fields [agent_simps]:
  "ag_sessions (fst (ssh_step E n sid ev a)) = ag_sessions a"
  "ag_uploads (fst (ssh_step E n sid ev a)) = ag_uploads a"
  "ag_downloads (fst (ssh_step E n sid ev a)) = ag_downloads a"
  "ag_stopped (fst (ssh_step E n sid ev a)) = ag_stopped a"
  "ch_closed (ag_tx (fst (ssh_step E n sid ev a))) = ch_closed (ag_tx a)"
  "ch_cap (ag_tx (fst (ssh_step E n sid ev a))) = ch_cap (ag_tx a)"
  by (cases "(E, n, sid, ev, a)" rule: ssh_step.cases; simp add: agent_simps)+

lemma ssh_loop_fields [agent_simps]:
  "ag_sessions (fst (ssh_loop E n sid evs a)) = ag_sessions a"
  "ag_uploads (fst (ssh_loop E n sid evs a)) = ag_uploads a"
  "ag_downloads (fst (ssh_loop E n sid evs a)) = ag_downloads a"
  "ag_stopped (fst (ssh_loop E n sid evs a)) = ag_stopped a"
  "ch_closed (ag_tx (fst (ssh_loop E n sid evs a))) = ch_closed (ag_tx a)"
proof -
  have "ag_sessions (fst (ssh_loop E n sid evs a)) = ag_sessions a \<and>
      ag_uploads (fst (ssh_loop E n sid evs a)) = ag_uploads a \<and>
      ag_downloads (fst (ssh_loop E n sid evs a)) = ag_downloads a \<and>
      ag_stopped (fst (ssh_loop E n sid evs a)) = ag_stopped a \<and>
      ch_closed (ag_tx (fst (ssh_loop E n sid evs a))) = ch_closed (ag_tx a)"
  proof (induction evs arbitrary: a)
    case (Cons ev evs)
    show ?case
      using Cons.IH [of "fst (ssh_step E n sid ev a)"]
      by (cases "snd (snd (ssh_step E n sid ev a))") (simp_all add: case_prod_unfold agent_simps)
  qed simp
  then show "ag_sessions (fst (ssh_loop E n sid evs a)) = ag_sessions a"
    "ag_uploads (fst (ssh_loop E n sid evs a)) = ag_uploads a"
    "ag_downloads (fst (ssh_loop E n sid evs a)) = ag_downloads a"
    "ag_stopped (fst (ssh_loop E n sid evs a)) = ag_stopped a"
    "ch_closed (ag_tx (fst (ssh_loop E n sid evs a))) = ch_closed (ag_tx a)"
    by simp_all
qed

text \<open>What the client typed, and what it sent to the shell; what the shell printed.\<close>

fun typed1 :: "ssh_event \<Rightarrow> bytes list" where
  "typed1 (SshCmd (SSHData d)) = [d]"
| "typed1 _ = []"

fun printed1 :: "ssh_event \<Rightarrow> bytes list" where
  "printed1 (SshMsg (Some (CMData d))) = [d]"
| "printed1 _ = []"

definition typed :: "ssh_event list \<Rightarrow> bytes list" where
  "typed evs = concat (map typed1 evs)"

definition printed :: "ssh_event list \<Rightarrow> bytes list" where
  "printed evs = concat (map printed1 evs)"

definition sent_data :: "ssh_out list \<Rightarrow> bytes list" where
  "sent_data outs = List.map_filter (\<lambda>out. case out of OutData d \<Rightarrow> Some d | _ \<Rightarrow> None) outs"

definition ends_loop :: "ssh_ext \<Rightarrow> ssh_event \<Rightarrow> bool" where
  "ends_loop E ev =
     (case ev of SshStop \<Rightarrow> True | SshCmd (SSHData d) \<Rightarrow> \<not> ss_data_ok E d | SshCmd _ \<Rightarrow> False
      | SshMsg None \<Rightarrow> True | SshMsg (Some (CMData _)) \<Rightarrow> False | SshMsg (Some CMOther) \<Rightarrow> False
      | SshMsg (Some _) \<Rightarrow> True)"

lemma typed_printed_simps [simp]:
  "typed [] = []" "typed (ev # evs) = typed1 ev @ typed evs"
  "printed [] = []" "printed (ev # evs) = printed1 ev @ printed evs"
  by (simp_all add: typed_def printed_def)

lemma sent_data_simps [simp]:
  "sent_data [] = []" "sent_data (xs @ ys) = sent_data xs @ sent_data ys"
  by (simp_all add: sent_data_def List.map_filter_def)

lemma ssh_step_effect:
  "snd (snd (ssh_step E n sid ev a)) \<longleftrightarrow> \<not> ends_loop E ev"
  "sent_data (fst (snd (ssh_step E n sid ev a))) = typed1 ev"
  "ch_queue (ag_tx (fst (ssh_step E n sid ev a))) = ch_queue (ag_tx a) @
     (if \<not> ch_closed (ag_tx a) \<and> length (ch_queue (ag_tx a)) < ch_cap (ag_tx a)
      then map (\<lambda>d. Frame_from_node (NWebFrame (WTunnelData 0 n sid d) (SessionId sid))) (printed1 ev)
      else [])"
  by (cases "(E, n, sid, ev, a)" rule: ssh_step.cases;
    simp add: ends_loop_def sent_data_def typed_def printed_def List.map_filter_def send_tunnel_data_def
      send_frame_data_queue)+

lemma ssh_loop_Cons:
  "ssh_loop E n sid (ev # evs) a =
     (if ends_loop E ev then (fst (ssh_step E n sid ev a), fst (snd (ssh_step E n sid ev a)))
      else (fst (ssh_loop E n sid evs (fst (ssh_step E n sid ev a))),
            fst (snd (ssh_step E n sid ev a)) @ snd (ssh_loop E n sid evs (fst (ssh_step E n sid ev a)))))"
  using ssh_step_effect(1) [of E n sid ev a]
  by (cases "ends_loop E ev") (simp_all add: case_prod_unfold)

text \<open>The events the loop handles: up to and including the first that ends it.\<close>

fun handled :: "ssh_ext \<Rightarrow> ssh_event list \<Rightarrow> ssh_event list" where
  "handled E [] = []"
| "handled E (ev # evs) = ev # (if ends_loop E ev then [] else handled E evs)"

lemma length_printed1: "length (printed1 ev) \<le> 1"
  by (cases ev rule: printed1.cases) simp_all

section \<open>Properties\<close>

text \<open>
  The shell receives exactly what the client typed, unchanged and in order, up to the
  event that ends the tunnel.
\<close>

theorem ssh_input_in_order:
  "sent_data (snd (ssh_loop E n sid evs a)) = typed (handled E evs)"
  by (induction evs arbitrary: a) (simp_all add: ssh_loop_Cons ssh_step_effect del: ssh_loop.simps(2))

text \<open>
  The frames an SSH tunnel queues for the client are a subsequence of what the shell
  printed: nothing is invented, reordered or duplicated, but output that finds the queue full is
  dropped. If the queue has room for all of it, nothing is lost.
\<close>

theorem ssh_output_subsequence:
  assumes "\<not> ch_closed (ag_tx a)"
  shows "\<exists>ds. subseq ds (printed (handled E evs)) \<and>
     ch_queue (ag_tx (fst (ssh_loop E n sid evs a))) = ch_queue (ag_tx a) @
       map (\<lambda>d. Frame_from_node (NWebFrame (WTunnelData 0 n sid d) (SessionId sid))) ds \<and>
     (length (ch_queue (ag_tx a)) + length (printed (handled E evs)) \<le> ch_cap (ag_tx a) \<longrightarrow>
        ds = printed (handled E evs))"
  using assms
proof (induction evs arbitrary: a)
  case Nil
  show ?case by simp
next
  case (Cons ev evs)
  let ?a1 = "fst (ssh_step E n sid ev a)"
  let ?frame = "\<lambda>d. Frame_from_node (NWebFrame (WTunnelData 0 n sid d) (SessionId sid))"
  define now where "now = (if length (ch_queue (ag_tx a)) < ch_cap (ag_tx a) then printed1 ev else [])"
  have q1: "ch_queue (ag_tx ?a1) = ch_queue (ag_tx a) @ map ?frame now"
    using Cons.prems ssh_step_effect(3) [of E n sid ev a] by (simp add: now_def)
  have sub: "subseq now (printed1 ev)"
    by (simp add: now_def)
  have room: "now = printed1 ev" if "length (ch_queue (ag_tx a)) + length (printed1 ev) \<le> ch_cap (ag_tx a)"
    using that length_printed1 [of ev] by (cases "printed1 ev") (auto simp: now_def)
  show ?case
  proof (cases "ends_loop E ev")
    case True
    then show ?thesis
      using q1 sub room by (intro exI [of _ now]) (simp add: ssh_loop_Cons del: ssh_loop.simps(2))
  next
    case False
    obtain ds where ds: "subseq ds (printed (handled E evs))"
      "ch_queue (ag_tx (fst (ssh_loop E n sid evs ?a1))) = ch_queue (ag_tx ?a1) @ map ?frame ds"
      "length (ch_queue (ag_tx ?a1)) + length (printed (handled E evs)) \<le> ch_cap (ag_tx ?a1) \<longrightarrow>
         ds = printed (handled E evs)"
      using Cons.IH [of ?a1] Cons.prems by (auto simp: agent_simps)
    have "subseq (now @ ds) (printed1 ev @ printed (handled E evs))"
      using sub ds(1) by (rule list_emb_append_mono)
    moreover have "now @ ds = printed1 ev @ printed (handled E evs)"
      if "length (ch_queue (ag_tx a)) + length (printed1 ev @ printed (handled E evs)) \<le> ch_cap (ag_tx a)"
      using that room ds(3) by (auto simp: q1 agent_simps)
    ultimately show ?thesis
      using False ds(2) q1
      by (intro exI [of _ "now @ ds"]) (simp add: ssh_loop_Cons del: ssh_loop.simps(2))
  qed
qed

definition example_ssh :: ssh_ext where
  "example_ssh = \<lparr>ss_connect = (\<lambda>_ _. Ok ()), ss_auth_password = (\<lambda>_ p. Ok (p = ''secret'')),
     ss_auth_none = (\<lambda>_. Ok True), ss_open_session = Ok (), ss_request_pty = Ok (),
     ss_request_shell = Ok (), ss_request_subsystem = Ok (), ss_sftp_new = Ok (),
     ss_data_ok = (\<lambda>_. True), ss_disconnect = Ok ()\<rparr>"

theorem ssh_output_subsequence_witness:
  "let a = WebSocketConnection_new 1 1 () :: (unit, unit) agent;
       evs = [SshMsg (Some (CMData [104])), SshCmd (SSHData [108]), SshMsg (Some (CMData [105])),
              SshMsg (Some CMEof), SshMsg (Some (CMData [0]))]
   in \<not> ch_closed (ag_tx a) \<and>
      ch_queue (ag_tx (fst (ssh_loop example_ssh ''n'' 7 evs a))) =
        map (\<lambda>d. Frame_from_node (NWebFrame (WTunnelData 0 ''n'' 7 d) (SessionId 7))) [[104], [105]]"
  using ssh_output_subsequence [of "WebSocketConnection_new 1 1 () :: (unit, unit) agent" example_ssh
      "[SshMsg (Some (CMData [104])), SshCmd (SSHData [108]), SshMsg (Some (CMData [105])),
        SshMsg (Some CMEof), SshMsg (Some (CMData [0]))]" "''n''" 7]
  by (auto simp: WebSocketConnection_new_def chan_simps ends_loop_def example_ssh_def
      simp del: ssh_loop.simps)

text \<open>
  Whatever becomes of an SSH tunnel, its task leaves the agent's session table as it
  was: the entry of an ended tunnel stays until its client disconnects.
\<close>

theorem ssh_task_keeps_session:
  "ag_sessions (fst (ssh_task E env auth n cid sid mid evs a)) = ag_sessions a"
  by (simp add: ssh_task_def ssh_connect_def Let_def agent_simps case_prod_unfold
      split: outcome.splits)

end
