(* ===== verification/Agent_Tunnel.thy ===== *)
theory Agent_Tunnel
  imports Agent_Sftp Agent_Ssh
begin

text \<open>
  The tunnels of an agent and its session table (the second half of \<open>agent/src/ws.rs\<close>,
  \<open>agent/src/session.rs\<close>, \<open>agent/src/sftp/connection.rs\<close>): starting a tunnel, the task
  that serves it, forwarding a client's command to its session, and closing what a client
  holds when it leaves.
\<close>

section \<open>The SFTP task\<close>

definition sftp_create_client ::
  "ssh_ext \<Rightarrow> agent_env \<Rightarrow> ConfigAuth \<Rightarrow> (string, unit) outcome" where
  "sftp_create_client E env credentials =
     (case ss_connect E (ae_ssh_host env) (ae_ssh_port env) of
        Err e \<Rightarrow> Err e | Panic \<Rightarrow> Panic
      | Ok _ \<Rightarrow>
          (case (case credentials of
                   UsernamePassword username password \<Rightarrow> ss_auth_password E username password
                 | Username username \<Rightarrow> ss_auth_none E username) of
             Err e \<Rightarrow> Err e | Panic \<Rightarrow> Panic
           | Ok success \<Rightarrow> if \<not> success then Err ''SFTP authentication failed'' else Ok ()))"

definition sftp_open_session :: "ssh_ext \<Rightarrow> agent_env \<Rightarrow> ConfigAuth \<Rightarrow> (string, unit) outcome" where
  "sftp_open_session E env credentials =
     (case sftp_create_client E env credentials of
        Err e \<Rightarrow> Err e | Panic \<Rightarrow> Panic
      | Ok _ \<Rightarrow>
          (case ss_open_session E of
             Err e \<Rightarrow> Err e | Panic \<Rightarrow> Panic
           | Ok _ \<Rightarrow>
               (case ss_request_subsystem E of
                  Err e \<Rightarrow> Err e | Panic \<Rightarrow> Panic
                | Ok _ \<Rightarrow> ss_sftp_new E)))"

text \<open>
  \<open>SFTPConnection::connect\<close> announces the tunnel before it connects, where the SSH one
  announces it once the shell runs. \<open>None\<close>: a command hung and the task never ends.
\<close>

definition sftp_connect ::
  "ssh_ext \<Rightarrow> ('f, 'h) sftp \<Rightarrow> agent_env \<Rightarrow> ConfigAuth \<Rightarrow> uuid \<Rightarrow> u32 \<Rightarrow> msg_id \<Rightarrow> (instant \<times> SFTPCommand) list
     \<Rightarrow> ('f, 'h) agent \<Rightarrow> (('f, 'h) agent \<times> (WebFrameId \<times> string, u32) outcome) option" where
  "sftp_connect E S env credentials cid sid mid cmds a =
     (let a1 = send_frame_data (NTunnelOpened (Protocol_as_u8 SFTP) cid sid mid) a
      in case sftp_open_session E env credentials of
           Err e \<Rightarrow> Some (a1, Err (SessionId sid, e))
         | Panic \<Rightarrow> Some (a1, Panic)
         | Ok _ \<Rightarrow>
             (case sftp_loop S cid sid cmds a1 of
                None \<Rightarrow> None
              | Some a2 \<Rightarrow>
                  Some (a2, case ss_disconnect E of
                              Ok _ \<Rightarrow> Ok sid | Err e \<Rightarrow> Err (SessionId sid, e) | Panic \<Rightarrow> Panic)))"

definition sftp_task ::
  "ssh_ext \<Rightarrow> ('f, 'h) sftp \<Rightarrow> agent_env \<Rightarrow> ConfigAuth \<Rightarrow> uuid \<Rightarrow> u32 \<Rightarrow> msg_id \<Rightarrow> (instant \<times> SFTPCommand) list
     \<Rightarrow> ('f, 'h) agent \<Rightarrow> ('f, 'h) agent option" where
  "sftp_task E S env credentials cid sid mid cmds a =
     (case sftp_connect E S env credentials cid sid mid cmds a of
        None \<Rightarrow> None
      | Some (a1, Ok sid') \<Rightarrow> Some (send_frame_data (NTunnelClosed (Protocol_as_u8 SFTP) cid sid' mid) a1)
      | Some (a1, Err (fid, err)) \<Rightarrow> Some (send_frame_data (NWebFrame (WError Generic err mid) fid) a1)
      | Some (a1, Panic) \<Rightarrow> Some a1)"

section \<open>Starting a tunnel\<close>

text \<open>What \<open>tokio::spawn\<close> is given: the connection and the receiving end of its channels.\<close>

datatype tunnel_task =
    SshTunnel uuid ConfigAuth uuid u32 msg_id chan_id  \<comment> \<open>node\_id, credentials, cid, sid, msg\_id, channels\<close>
  | SftpTunnel ConfigAuth uuid u32 msg_id chan_id

definition insert_session :: "uuid \<times> u32 \<Rightarrow> SessionHandle \<Rightarrow> ('f, 'h) agent \<Rightarrow> ('f, 'h) agent" where
  "insert_session key h a =
     (let previous = dm_get (ag_sessions a) key;
          a1 = a\<lparr>ag_sessions := dm_insert key h (ag_sessions a)\<rparr>
      in case previous of Some prev \<Rightarrow> handle_shutdown prev a1 | None \<Rightarrow> a1)"

definition start_sftp_tunnel ::
  "uuid \<Rightarrow> ConfigAuth \<Rightarrow> msg_id \<Rightarrow> ('f, 'h) agent \<Rightarrow> ('f, 'h) agent \<times> tunnel_task" where
  "start_sftp_tunnel cid credentials mid a =
     (let c = ag_next_chan a;
          a1 = a\<lparr>ag_next_chan := c + 1, ag_sftp_stdin := (ag_sftp_stdin a)(c := chan_new 2048)\<rparr>;
          (a2, sid) = generate_session_id a1
      in (insert_session (cid, sid) (SftpHandle c) a2, SftpTunnel credentials cid sid mid c))"

definition start_ssh_tunnel ::
  "uuid \<Rightarrow> uuid \<Rightarrow> ConfigAuth \<Rightarrow> msg_id \<Rightarrow> ('f, 'h) agent \<Rightarrow> ('f, 'h) agent \<times> tunnel_task" where
  "start_ssh_tunnel node_id cid credentials mid a =
     (let c = ag_next_chan a;
          a1 = a\<lparr>ag_next_chan := c + 1, ag_ssh_stdin := (ag_ssh_stdin a)(c := chan_new 512)\<rparr>;
          (a2, sid) = generate_session_id a1
      in (insert_session (cid, sid) (SshHandle c) a2, SshTunnel node_id credentials cid sid mid c))"

section \<open>Forwarding to a session\<close>

datatype SessionCommand = CmdSsh chan_id | CmdSftp chan_id

fun get_stdin :: "SessionHandle \<Rightarrow> SessionCommand" where
  "get_stdin (SshHandle c) = CmdSsh c"
| "get_stdin (SftpHandle c) = CmdSftp c"

text \<open>The three errors of the forwarding functions; the caller only logs them.\<close>

datatype forward_error = NoSessionFound | NoTunnelFound | SessionChannelClosed

text \<open>The steps the nine functions share, for the two kinds of session.\<close>

definition forward_sftp ::
  "uuid \<Rightarrow> u32 \<Rightarrow> SFTPCommand \<Rightarrow> ('f, 'h) agent \<Rightarrow> ('f, 'h) agent \<times> (forward_error, unit) outcome" where
  "forward_sftp cid sid cmd a =
     (case map_option get_stdin (dm_get (ag_sessions a) (cid, sid)) of
        None \<Rightarrow> (a, Err NoSessionFound)
      | Some (CmdSsh _) \<Rightarrow> (a, Err NoTunnelFound)
      | Some (CmdSftp c) \<Rightarrow>
          (case chan_send cmd (ag_sftp_stdin a c) of
             (ch, ok) \<Rightarrow> (a\<lparr>ag_sftp_stdin := (ag_sftp_stdin a)(c := ch)\<rparr>,
                          if ok then Ok () else Err SessionChannelClosed)))"

definition forward_ssh ::
  "uuid \<Rightarrow> u32 \<Rightarrow> SSHCommand \<Rightarrow> ('f, 'h) agent \<Rightarrow> ('f, 'h) agent \<times> (forward_error, unit) outcome" where
  "forward_ssh cid sid cmd a =
     (case map_option get_stdin (dm_get (ag_sessions a) (cid, sid)) of
        None \<Rightarrow> (a, Err NoSessionFound)
      | Some (CmdSftp _) \<Rightarrow> (a, Err NoTunnelFound)
      | Some (CmdSsh c) \<Rightarrow>
          (case chan_send cmd (ag_ssh_stdin a c) of
             (ch, ok) \<Rightarrow> (a\<lparr>ag_ssh_stdin := (ag_ssh_stdin a)(c := ch)\<rparr>,
                          if ok then Ok () else Err SessionChannelClosed)))"

definition send_sftp_list_data where
  "send_sftp_list_data cid sid path mid = forward_sftp cid sid (SFTPListCmd path mid)"

definition send_sftp_upload_start_data where
  "send_sftp_upload_start_data cid sid mid upload = forward_sftp cid sid (SFTPUploadStartCmd upload mid)"

definition send_sftp_upload_data where
  "send_sftp_upload_data cid sid mid chunk = forward_sftp cid sid (SFTPUploadCmd chunk mid)"

definition send_sftp_delete_data where
  "send_sftp_delete_data cid sid mid data = forward_sftp cid sid (SFTPDeleteCmd data mid)"

definition send_sftp_download_start_data where
  "send_sftp_download_start_data cid sid mid download = forward_sftp cid sid (SFTPDownloadStartCmd download mid)"

definition send_sftp_download_chunk_request where
  "send_sftp_download_chunk_request cid sid mid download_id chunk_index =
     forward_sftp cid sid
       (SFTPDownloadChunkCmd \<lparr>dlc_download_id = download_id, dlc_chunk_index = chunk_index,
          dlc_chunk_size = 0, dlc_data = []\<rparr> mid)"

definition send_sftp_download_chunk_data where
  "send_sftp_download_chunk_data cid sid mid chunk = forward_sftp cid sid (SFTPDownloadChunkCmd chunk mid)"

definition send_ssh_tunnel_data where
  "send_ssh_tunnel_data cid sid data = forward_ssh cid sid (SSHData data)"

definition send_ssh_forward_resize where
  "send_ssh_forward_resize cid sid cols rows px_width px_height =
     forward_ssh cid sid (SSHResize cols rows px_width px_height)"

section \<open>Closing\<close>

text \<open>The body of the loops over collected keys.\<close>

definition close_session :: "uuid \<times> u32 \<Rightarrow> ('f, 'h) agent \<Rightarrow> ('f, 'h) agent" where
  "close_session key a =
     (case dm_get (ag_sessions a) key of
        None \<Rightarrow> a
      | Some handle \<Rightarrow> handle_shutdown handle (a\<lparr>ag_sessions := dm_remove key (ag_sessions a)\<rparr>))"

definition close_download :: "uuid \<times> u32 \<Rightarrow> ('f, 'h) agent \<Rightarrow> ('f, 'h) agent" where
  "close_download key a = a\<lparr>ag_downloads := dm_remove key (ag_downloads a)\<rparr>"

definition keys_of_cid :: "uuid \<Rightarrow> (uuid \<times> u32, 'v) dashmap \<Rightarrow> (uuid \<times> u32) list" where
  "keys_of_cid cid m = map fst (filter (\<lambda>((c, _), _). c = cid) (dm_iter m))"

definition close_tunnels_for_cid :: "uuid \<Rightarrow> ('f, 'h) agent \<Rightarrow> ('f, 'h) agent" where
  "close_tunnels_for_cid cid a = fold close_session (keys_of_cid cid (ag_sessions a)) a"

definition close_uploads_for_cid :: "('f, 'h) sftp \<Rightarrow> uuid \<Rightarrow> ('f, 'h) agent \<Rightarrow> ('f, 'h) agent" where
  "close_uploads_for_cid S cid a = fold (drop_upload S) (keys_of_cid cid (ag_uploads a)) a"

definition close_downloads_for_cid :: "uuid \<Rightarrow> ('f, 'h) agent \<Rightarrow> ('f, 'h) agent" where
  "close_downloads_for_cid cid a = fold close_download (keys_of_cid cid (ag_downloads a)) a"

text \<open>The end of \<open>WebSocketConnection::connect\<close>: everything is closed and the queue dropped.\<close>

definition close_everything :: "('f, 'h) sftp \<Rightarrow> ('f, 'h) agent \<Rightarrow> ('f, 'h) agent" where
  "close_everything S a =
     (let a1 = fold close_session (map fst (dm_iter (ag_sessions a))) a;
          a2 = fold (drop_upload S) (map fst (dm_iter (ag_uploads a1))) a1
      in fold (drop_download S) (map fst (dm_iter (ag_downloads a2))) a2)"

section \<open>Tables keyed by client\<close>

text \<open>
  Sessions, uploads and downloads are keyed by \<open>(cid, n)\<close>, and a client that leaves is
  cleared from each by the same two steps: collect its keys, close them one by one.
\<close>

locale client_table =
  fixes table :: "'s \<Rightarrow> (uuid \<times> u32, 'v) dashmap"
    and close :: "uuid \<times> u32 \<Rightarrow> 's \<Rightarrow> 's"
  assumes table_close: "table (close k s) = dm_remove k (table s)"
begin

lemma table_close_all: "table (fold close ks s) = fold dm_remove ks (table s)"
  by (induction ks arbitrary: s) (simp_all add: table_close)

lemma close_cid_get:
  assumes "dm_wf (table s)"
  shows "dm_get (table (fold close (keys_of_cid cid (table s)) s)) k =
    (if fst k = cid then None else dm_get (table s) k)"
proof -
  have "k \<in> set (keys_of_cid cid (table s)) \<longleftrightarrow> fst k = cid \<and> dm_get (table s) k \<noteq> None"
    using dm.iter_get [OF assms] by (cases k) (force simp: keys_of_cid_def image_iff)
  then show ?thesis
    by (auto simp: table_close_all dm_simps)
qed

lemma close_all_get:
  assumes "dm_wf (table s)"
  shows "dm_get (table (fold close (map fst (dm_iter (table s))) s)) k = None"
  using dm.iter_get [OF assms, of k]
  by (cases "dm_get (table s) k") (force simp: table_close_all dm_simps image_iff)+

lemma close_all_wf: "dm_wf (table s) \<Longrightarrow> dm_wf (table (fold close ks s))"
  by (simp add: table_close_all dm.wf_remove_all)

end

lemma dm_remove_absent: "dm_get m k = None \<Longrightarrow> dm_remove k m = m"
  by (simp add: dm_get_def dm_remove_def map_of_eq_None_iff delete_id)

interpretation session_table: client_table ag_sessions close_session
  by unfold_locales (auto simp: close_session_def handle_shutdown_def dm_remove_absent split: option.splits)

interpretation upload_table: client_table ag_uploads "drop_upload S" for S
  by unfold_locales (auto simp: drop_upload_def dm_remove_absent split: option.splits)

interpretation download_table: client_table ag_downloads close_download
  by unfold_locales (simp add: close_download_def)

interpretation open_download_table: client_table ag_downloads "drop_download S" for S
  by unfold_locales (auto simp: drop_download_def dm_remove_absent split: option.splits)

section \<open>The invariant of the session table\<close>

text \<open>
  Keys are unique, a registered session has an open stop channel of its own, and the
  channels not yet created are in their initial state.
\<close>

definition agent_wf :: "('f, 'h) agent \<Rightarrow> bool" where
  "agent_wf a \<longleftrightarrow>
     dm_wf (ag_sessions a) \<and> dm_wf (ag_uploads a) \<and> dm_wf (ag_downloads a) \<and>
     (\<forall>k h. dm_get (ag_sessions a) k = Some h \<longrightarrow>
        handle_id h < ag_next_chan a \<and> \<not> ag_stopped a (handle_id h)) \<and>
     (\<forall>k k' h h'. dm_get (ag_sessions a) k = Some h \<and> dm_get (ag_sessions a) k' = Some h' \<and>
        handle_id h = handle_id h' \<longrightarrow> k = k') \<and>
     (\<forall>c \<ge> ag_next_chan a. \<not> ag_stopped a c)"

lemma agent_wf_dests:
  assumes "agent_wf a"
  shows "dm_wf (ag_sessions a)" "dm_wf (ag_uploads a)" "dm_wf (ag_downloads a)"
    and "dm_get (ag_sessions a) k = Some h \<Longrightarrow> handle_id h < ag_next_chan a \<and> \<not> ag_stopped a (handle_id h)"
    and "dm_get (ag_sessions a) k = Some h \<Longrightarrow> dm_get (ag_sessions a) k' = Some h' \<Longrightarrow>
      handle_id h = handle_id h' \<Longrightarrow> k = k'"
    and "ag_next_chan a \<le> c \<Longrightarrow> \<not> ag_stopped a c"
  using assms unfolding agent_wf_def by blast+

lemma agent_wf_new: "agent_wf (WebSocketConnection_new sc ic fs)"
  by (simp add: agent_wf_def WebSocketConnection_new_def dm_get_def)

text \<open>Operations that leave the session table alone keep the invariant.\<close>

lemma agent_wf_frame:
  assumes "agent_wf a" "ag_sessions a' = ag_sessions a" "ag_stopped a' = ag_stopped a"
    "ag_next_chan a' = ag_next_chan a" "dm_wf (ag_uploads a')" "dm_wf (ag_downloads a')"
  shows "agent_wf a'"
  using assms unfolding agent_wf_def by simp

lemma close_session_stopped:
  "ag_stopped (fold close_session ks a) c \<longleftrightarrow>
     ag_stopped a c \<or> (\<exists>k\<in>set ks. \<exists>h. dm_get (ag_sessions a) k = Some h \<and> handle_id h = c)"
proof (induction ks arbitrary: a)
  case (Cons k ks)
  show ?case
    unfolding fold_Cons comp_def Cons.IH [of "close_session k a"]
    by (cases "dm_get (ag_sessions a) k";
      simp add: close_session_def handle_shutdown_def dm_simps; (metis option.inject option.distinct(1))?)
qed simp

lemma close_session_fields [agent_simps]:
  "ag_tx (close_session k a) = ag_tx a"
  "ag_uploads (close_session k a) = ag_uploads a"
  "ag_downloads (close_session k a) = ag_downloads a"
  "ag_next_chan (close_session k a) = ag_next_chan a"
  "ag_session_counter (close_session k a) = ag_session_counter a"
  "ag_ssh_stdin (close_session k a) = ag_ssh_stdin a"
  "ag_sftp_stdin (close_session k a) = ag_sftp_stdin a"
  "ag_last_heartbeat (close_session k a) = ag_last_heartbeat a"
  by (simp_all add: close_session_def handle_shutdown_def split: option.splits)

lemma close_all_sessions_fields [agent_simps]:
  "ag_tx (fold close_session ks a) = ag_tx a"
  "ag_uploads (fold close_session ks a) = ag_uploads a"
  "ag_downloads (fold close_session ks a) = ag_downloads a"
  "ag_next_chan (fold close_session ks a) = ag_next_chan a"
  "ag_session_counter (fold close_session ks a) = ag_session_counter a"
  "ag_ssh_stdin (fold close_session ks a) = ag_ssh_stdin a"
  "ag_sftp_stdin (fold close_session ks a) = ag_sftp_stdin a"
  "ag_last_heartbeat (fold close_session ks a) = ag_last_heartbeat a"
  by (induction ks arbitrary: a) (simp_all add: agent_simps)

lemma drop_upload_channels [agent_simps]:
  "ag_next_chan (drop_upload S k a) = ag_next_chan a"
  "ag_session_counter (drop_upload S k a) = ag_session_counter a"
  "ag_ssh_stdin (drop_upload S k a) = ag_ssh_stdin a"
  "ag_sftp_stdin (drop_upload S k a) = ag_sftp_stdin a"
  "ag_next_chan (drop_download S k a) = ag_next_chan a"
  "ag_session_counter (drop_download S k a) = ag_session_counter a"
  "ag_ssh_stdin (drop_download S k a) = ag_ssh_stdin a"
  "ag_sftp_stdin (drop_download S k a) = ag_sftp_stdin a"
  by (simp_all add: drop_upload_def drop_download_def split: option.splits)

lemma drop_uploads_channels [agent_simps]:
  "ag_next_chan (fold (drop_upload S) ks a) = ag_next_chan a"
  "ag_session_counter (fold (drop_upload S) ks a) = ag_session_counter a"
  "ag_ssh_stdin (fold (drop_upload S) ks a) = ag_ssh_stdin a"
  "ag_sftp_stdin (fold (drop_upload S) ks a) = ag_sftp_stdin a"
  "ag_next_chan (fold (drop_download S) ks a) = ag_next_chan a"
  "ag_session_counter (fold (drop_download S) ks a) = ag_session_counter a"
  "ag_ssh_stdin (fold (drop_download S) ks a) = ag_ssh_stdin a"
  "ag_sftp_stdin (fold (drop_download S) ks a) = ag_sftp_stdin a"
  by (induction ks arbitrary: a) (simp_all add: agent_simps)

lemma close_downloads_fields [agent_simps]:
  "ag_sessions (fold close_download ks a) = ag_sessions a"
  "ag_uploads (fold close_download ks a) = ag_uploads a"
  "ag_stopped (fold close_download ks a) = ag_stopped a"
  "ag_next_chan (fold close_download ks a) = ag_next_chan a"
  "ag_session_counter (fold close_download ks a) = ag_session_counter a"
  "ag_ssh_stdin (fold close_download ks a) = ag_ssh_stdin a"
  "ag_sftp_stdin (fold close_download ks a) = ag_sftp_stdin a"
  "ag_tx (fold close_download ks a) = ag_tx a"
  by (induction ks arbitrary: a) (simp_all add: close_download_def)

lemma insert_session_fields [agent_simps]:
  "ag_sessions (insert_session k h a) = dm_insert k h (ag_sessions a)"
  "ag_uploads (insert_session k h a) = ag_uploads a"
  "ag_downloads (insert_session k h a) = ag_downloads a"
  "ag_next_chan (insert_session k h a) = ag_next_chan a"
  "ag_ssh_stdin (insert_session k h a) = ag_ssh_stdin a"
  "ag_sftp_stdin (insert_session k h a) = ag_sftp_stdin a"
  "ag_tx (insert_session k h a) = ag_tx a"
  "ag_session_counter (insert_session k h a) = ag_session_counter a"
  "ag_stopped (insert_session k h a) c \<longleftrightarrow>
     ag_stopped a c \<or> (\<exists>prev. dm_get (ag_sessions a) k = Some prev \<and> handle_id prev = c)"
  by (auto simp: insert_session_def handle_shutdown_def Let_def split: option.splits)

text \<open>Registering a fresh channel keeps the invariant, whatever the key.\<close>

lemma agent_wf_insert_session:
  assumes "agent_wf a" and h: "handle_id h = ag_next_chan a"
    and a': "ag_sessions a' = ag_sessions a" "ag_uploads a' = ag_uploads a" "ag_downloads a' = ag_downloads a"
      "ag_stopped a' = ag_stopped a" "ag_next_chan a' = ag_next_chan a + 1"
  shows "agent_wf (insert_session k h a')"
  unfolding agent_wf_def
proof (intro conjI allI impI)
  note d = agent_wf_dests [OF assms(1)]
  show "dm_wf (ag_sessions (insert_session k h a'))" "dm_wf (ag_uploads (insert_session k h a'))"
    "dm_wf (ag_downloads (insert_session k h a'))"
    using d(1-3) by (simp_all add: agent_simps a' dm.wf_insert)
  fix k1 h1 assume k1: "dm_get (ag_sessions (insert_session k h a')) k1 = Some h1"
  show "handle_id h1 < ag_next_chan (insert_session k h a')"
    using k1 h d(4) [of k1 h1] by (auto simp: agent_simps a' dm_simps split: if_splits)
  show "\<not> ag_stopped (insert_session k h a') (handle_id h1)"
    using k1 h d(4) [of k1 h1] d(6) [of "ag_next_chan a"] d(4) [of k] d(5) [of k1 h1 k]
    by (auto simp: agent_simps a' dm_simps split: if_splits)
next
  note d = agent_wf_dests [OF assms(1)]
  fix k1 k2 h1 h2
  assume "dm_get (ag_sessions (insert_session k h a')) k1 = Some h1 \<and>
      dm_get (ag_sessions (insert_session k h a')) k2 = Some h2 \<and> handle_id h1 = handle_id h2"
  then show "k1 = k2"
    using h d(4) [of k1 h1] d(4) [of k2 h2] d(5) [of k1 h1 k2 h2]
    by (auto simp: agent_simps a' dm_simps split: if_splits)
next
  note d = agent_wf_dests [OF assms(1)]
  fix c assume "ag_next_chan (insert_session k h a') \<le> c"
  then show "\<not> ag_stopped (insert_session k h a') c"
    using d(4) [of k] d(6) [of c] by (auto simp: agent_simps a')
qed

lemma agent_wf_close_sessions:
  assumes "agent_wf a"
  shows "agent_wf (fold close_session ks a)"
  unfolding agent_wf_def
proof (intro conjI allI impI)
  note d = agent_wf_dests [OF assms]
  have get: "dm_get (ag_sessions (fold close_session ks a)) k =
      (if k \<in> set ks then None else dm_get (ag_sessions a) k)" for k
    by (simp add: session_table.table_close_all dm_simps)
  show "dm_wf (ag_sessions (fold close_session ks a))"
    using d(1) by (rule session_table.close_all_wf)
  show "dm_wf (ag_uploads (fold close_session ks a))" "dm_wf (ag_downloads (fold close_session ks a))"
    using d(2,3) by (simp_all add: agent_simps)
  show "handle_id h < ag_next_chan (fold close_session ks a)"
    if "dm_get (ag_sessions (fold close_session ks a)) k = Some h" for k h
    using that d(4) [of k h] by (simp add: get agent_simps split: if_splits)
  show "\<not> ag_stopped (fold close_session ks a) (handle_id h)"
    if "dm_get (ag_sessions (fold close_session ks a)) k = Some h" for k h
  proof -
    have k: "k \<notin> set ks" "dm_get (ag_sessions a) k = Some h"
      using that by (simp_all add: get split: if_splits)
    show ?thesis
      unfolding close_session_stopped using k(1) d(4) [OF k(2)] d(5) [OF k(2)] by metis
  qed
  show "k = k'" if "dm_get (ag_sessions (fold close_session ks a)) k = Some h \<and>
      dm_get (ag_sessions (fold close_session ks a)) k' = Some h' \<and> handle_id h = handle_id h'" for k k' h h'
    using that d(5) [of k h k' h'] by (auto simp: get split: if_splits)
  show "\<not> ag_stopped (fold close_session ks a) c" if "ag_next_chan (fold close_session ks a) \<le> c" for c
    using that d(4) d(6) [of c] by (fastforce simp: agent_simps close_session_stopped)
qed

section \<open>What a forwarded command reaches\<close>

definition ssh_input :: "('f, 'h) agent \<Rightarrow> uuid \<times> u32 \<Rightarrow> SSHCommand list option" where
  "ssh_input a k =
     (case dm_get (ag_sessions a) k of Some (SshHandle c) \<Rightarrow> Some (ch_queue (ag_ssh_stdin a c)) | _ \<Rightarrow> None)"

definition sftp_input :: "('f, 'h) agent \<Rightarrow> uuid \<times> u32 \<Rightarrow> SFTPCommand list option" where
  "sftp_input a k =
     (case dm_get (ag_sessions a) k of Some (SftpHandle c) \<Rightarrow> Some (ch_queue (ag_sftp_stdin a c)) | _ \<Rightarrow> None)"

lemma forward_fields [agent_simps]:
  "ag_tx (fst (forward_ssh cid sid cmd a)) = ag_tx a"
  "ag_sessions (fst (forward_ssh cid sid cmd a)) = ag_sessions a"
  "ag_uploads (fst (forward_ssh cid sid cmd a)) = ag_uploads a"
  "ag_downloads (fst (forward_ssh cid sid cmd a)) = ag_downloads a"
  "ag_stopped (fst (forward_ssh cid sid cmd a)) = ag_stopped a"
  "ag_next_chan (fst (forward_ssh cid sid cmd a)) = ag_next_chan a"
  "ag_session_counter (fst (forward_ssh cid sid cmd a)) = ag_session_counter a"
  "ag_sftp_stdin (fst (forward_ssh cid sid cmd a)) = ag_sftp_stdin a"
  "ag_tx (fst (forward_sftp cid sid cmd' a)) = ag_tx a"
  "ag_sessions (fst (forward_sftp cid sid cmd' a)) = ag_sessions a"
  "ag_uploads (fst (forward_sftp cid sid cmd' a)) = ag_uploads a"
  "ag_downloads (fst (forward_sftp cid sid cmd' a)) = ag_downloads a"
  "ag_stopped (fst (forward_sftp cid sid cmd' a)) = ag_stopped a"
  "ag_next_chan (fst (forward_sftp cid sid cmd' a)) = ag_next_chan a"
  "ag_session_counter (fst (forward_sftp cid sid cmd' a)) = ag_session_counter a"
  "ag_ssh_stdin (fst (forward_sftp cid sid cmd' a)) = ag_ssh_stdin a"
  by (simp_all add: forward_ssh_def forward_sftp_def case_prod_unfold split: option.splits SessionCommand.splits)

lemma handle_ids_differ:
  assumes "agent_wf a" "dm_get (ag_sessions a) k = Some h" "dm_get (ag_sessions a) k' = Some h'" "k \<noteq> k'"
  shows "handle_id h \<noteq> handle_id h'"
  using assms agent_wf_dests(5) by blast

lemma ssh_input_forward:
  assumes "agent_wf a"
  shows "ssh_input (fst (forward_ssh cid sid cmd a)) k =
    (if k = (cid, sid) \<and> snd (forward_ssh cid sid cmd a) = Ok ()
     then map_option (\<lambda>q. q @ [cmd]) (ssh_input a k) else ssh_input a k)"
proof (cases "dm_get (ag_sessions a) (cid, sid)")
  case (Some h)
  show ?thesis
  proof (cases h)
    case (SshHandle c)
    have other: "c' \<noteq> c" if "dm_get (ag_sessions a) k = Some (SshHandle c')" "k \<noteq> (cid, sid)" for c'
      using handle_ids_differ [OF assms that(1) Some that(2)] SshHandle by simp
    show ?thesis
      using Some SshHandle other
      by (auto simp: forward_ssh_def ssh_input_def chan_send_def split: option.splits SessionHandle.splits)
  qed (use Some in \<open>simp add: forward_ssh_def ssh_input_def\<close>)
qed (simp add: forward_ssh_def ssh_input_def)

lemma sftp_input_forward:
  assumes "agent_wf a"
  shows "sftp_input (fst (forward_sftp cid sid cmd a)) k =
    (if k = (cid, sid) \<and> snd (forward_sftp cid sid cmd a) = Ok ()
     then map_option (\<lambda>q. q @ [cmd]) (sftp_input a k) else sftp_input a k)"
proof (cases "dm_get (ag_sessions a) (cid, sid)")
  case (Some h)
  show ?thesis
  proof (cases h)
    case (SftpHandle c)
    have other: "c' \<noteq> c" if "dm_get (ag_sessions a) k = Some (SftpHandle c')" "k \<noteq> (cid, sid)" for c'
      using handle_ids_differ [OF assms that(1) Some that(2)] SftpHandle by simp
    show ?thesis
      using Some SftpHandle other
      by (auto simp: forward_sftp_def sftp_input_def chan_send_def split: option.splits SessionHandle.splits)
  qed (use Some in \<open>simp add: forward_sftp_def sftp_input_def\<close>)
qed (simp add: forward_sftp_def sftp_input_def)

lemma ssh_input_forward_sftp [agent_simps]:
  "ssh_input (fst (forward_sftp cid sid cmd a)) k = ssh_input a k"
  "sftp_input (fst (forward_ssh cid sid cmd' a)) k = sftp_input a k"
  by (simp_all add: ssh_input_def sftp_input_def agent_simps split: option.splits SessionHandle.splits)

lemma forward_agent_wf:
  "agent_wf a \<Longrightarrow> agent_wf (fst (forward_ssh cid sid cmd a))"
  "agent_wf a \<Longrightarrow> agent_wf (fst (forward_sftp cid sid cmd' a))"
  by (rule agent_wf_frame; simp add: agent_simps agent_wf_dests)+

lemma inputs_cong:
  assumes "dm_get (ag_sessions a') k = dm_get (ag_sessions a) k"
    "\<And>h. dm_get (ag_sessions a) k = Some h \<Longrightarrow>
       ag_ssh_stdin a' (handle_id h) = ag_ssh_stdin a (handle_id h) \<and>
       ag_sftp_stdin a' (handle_id h) = ag_sftp_stdin a (handle_id h)"
  shows "ssh_input a' k = ssh_input a k" "sftp_input a' k = sftp_input a k"
  using assms by (auto simp: ssh_input_def sftp_input_def split: option.splits SessionHandle.splits)

lemma start_tunnel_fields [agent_simps]:
  "ag_tx (fst (start_ssh_tunnel n cid auth mid a)) = ag_tx a"
  "ag_uploads (fst (start_ssh_tunnel n cid auth mid a)) = ag_uploads a"
  "ag_downloads (fst (start_ssh_tunnel n cid auth mid a)) = ag_downloads a"
  "ag_tx (fst (start_sftp_tunnel cid auth mid a)) = ag_tx a"
  "ag_uploads (fst (start_sftp_tunnel cid auth mid a)) = ag_uploads a"
  "ag_downloads (fst (start_sftp_tunnel cid auth mid a)) = ag_downloads a"
  by (simp_all add: start_ssh_tunnel_def start_sftp_tunnel_def generate_session_id_def Let_def agent_simps)

lemma start_tunnel_agent_wf:
  "agent_wf a \<Longrightarrow> agent_wf (fst (start_ssh_tunnel n cid auth mid a))"
  "agent_wf a \<Longrightarrow> agent_wf (fst (start_sftp_tunnel cid auth mid a))"
  by (simp_all add: start_ssh_tunnel_def start_sftp_tunnel_def generate_session_id_def Let_def
      agent_wf_insert_session [of a])

text \<open>A new tunnel gets an entry of its own; every other session keeps its entry and its input.\<close>

lemma start_ssh_tunnel_effect:
  assumes "agent_wf a"
  shows "snd (start_ssh_tunnel n cid auth mid a)
      = SshTunnel n auth cid (ag_session_counter a) mid (ag_next_chan a)"
    and "ssh_input (fst (start_ssh_tunnel n cid auth mid a)) (cid, ag_session_counter a) = Some []"
    and "k \<noteq> (cid, ag_session_counter a) \<Longrightarrow>
      dm_get (ag_sessions (fst (start_ssh_tunnel n cid auth mid a))) k = dm_get (ag_sessions a) k \<and>
      ssh_input (fst (start_ssh_tunnel n cid auth mid a)) k = ssh_input a k \<and>
      sftp_input (fst (start_ssh_tunnel n cid auth mid a)) k = sftp_input a k"
  using agent_wf_dests(4) [OF assms, of k]
  by (auto simp: start_ssh_tunnel_def generate_session_id_def Let_def ssh_input_def sftp_input_def
      agent_simps dm_simps chan_simps split: option.splits SessionHandle.splits)

lemma start_sftp_tunnel_effect:
  assumes "agent_wf a"
  shows "snd (start_sftp_tunnel cid auth mid a)
      = SftpTunnel auth cid (ag_session_counter a) mid (ag_next_chan a)"
    and "sftp_input (fst (start_sftp_tunnel cid auth mid a)) (cid, ag_session_counter a) = Some []"
    and "k \<noteq> (cid, ag_session_counter a) \<Longrightarrow>
      dm_get (ag_sessions (fst (start_sftp_tunnel cid auth mid a))) k = dm_get (ag_sessions a) k \<and>
      ssh_input (fst (start_sftp_tunnel cid auth mid a)) k = ssh_input a k \<and>
      sftp_input (fst (start_sftp_tunnel cid auth mid a)) k = sftp_input a k"
  using agent_wf_dests(4) [OF assms, of k]
  by (auto simp: start_sftp_tunnel_def generate_session_id_def Let_def ssh_input_def sftp_input_def
      agent_simps dm_simps chan_simps split: option.splits SessionHandle.splits)

section \<open>Properties\<close>

text \<open>
  When the agent shuts a connection down, every session, upload and download is gone
  and exactly the sessions that were registered have been told to stop.
\<close>

theorem close_everything_complete:
  assumes "agent_wf a"
  shows "dm_get (ag_sessions (close_everything S a)) k = None \<and>
    dm_get (ag_uploads (close_everything S a)) k = None \<and>
    dm_get (ag_downloads (close_everything S a)) k = None \<and>
    (ag_stopped (close_everything S a) c \<longleftrightarrow>
       ag_stopped a c \<or> (\<exists>k h. dm_get (ag_sessions a) k = Some h \<and> handle_id h = c))"
proof -
  note wf = agent_wf_dests(1-3) [OF assms]
  let ?a1 = "fold close_session (map fst (dm_iter (ag_sessions a))) a"
  let ?a2 = "fold (drop_upload S) (map fst (dm_iter (ag_uploads ?a1))) ?a1"
  have all: "(\<exists>k\<in>set (map fst (dm_iter (ag_sessions a))). \<exists>h. dm_get (ag_sessions a) k = Some h \<and> handle_id h = c)
      \<longleftrightarrow> (\<exists>k h. dm_get (ag_sessions a) k = Some h \<and> handle_id h = c)"
    using dm.iter_get [OF wf(1)] by (force simp: image_iff)
  have "dm_get (ag_sessions ?a1) k = None"
    by (rule session_table.close_all_get [OF wf(1)])
  moreover have "dm_get (ag_uploads ?a2) k = None"
    by (rule upload_table.close_all_get) (simp add: agent_simps wf)
  moreover have "dm_get (ag_downloads (fold (drop_download S) (map fst (dm_iter (ag_downloads ?a2))) ?a2)) k = None"
    by (rule open_download_table.close_all_get) (simp add: agent_simps wf)
  ultimately show ?thesis
    using all by (simp add: close_everything_def Let_def agent_simps close_session_stopped)
qed

theorem close_everything_complete_witness:
  "let a = fst (start_ssh_tunnel 1 5 (Username ''u'') None example_agent) in
   dm_get (ag_sessions (close_everything mem_sftp a)) (5, 1) = None \<and>
   ag_stopped (close_everything mem_sftp a) 0"
proof -
  let ?a = "fst (start_ssh_tunnel 1 5 (Username ''u'') None example_agent)"
  have wf: "agent_wf ?a"
    by (rule start_tunnel_agent_wf) (simp add: example_agent_def agent_wf_new)
  have "dm_get (ag_sessions ?a) (5, 1) = Some (SshHandle 0)"
    by (simp add: start_ssh_tunnel_def generate_session_id_def example_agent_simps Let_def agent_simps dm_simps)
  then show ?thesis
    using close_everything_complete [OF wf, of mem_sftp "(5, 1)" 0] unfolding Let_def by (metis SessionHandle.sel(1))
qed

end
