(* ===== verification/Agent_Ws.thy ===== *)
theory Agent_Ws
  imports Agent_Tunnel Transition
begin

text \<open>
  The agent's connection to the server (the first half of \<open>agent/src/ws.rs\<close>): the
  handshake, the dispatcher \<open>handle_message\<close>, the reader, heartbeat, cleanup and writer
  tasks, and the interleavings of all of them with the tunnel tasks.
\<close>

section \<open>The handshake\<close>

definition generate_server_endpoint :: "Mode \<Rightarrow> string \<Rightarrow> u16 \<Rightarrow> string" where
  "generate_server_endpoint mode server_host server_port =
     (let host = (case split_once ''://'' server_host of Some (_, rest) \<Rightarrow> rest | None \<Rightarrow> server_host)
      in case mode of
           Development \<Rightarrow>
             if server_port = 80 then ''ws://'' @ host
             else ''ws://'' @ host @ '':'' @ dec_digits (unat server_port)
         | Production \<Rightarrow>
             if server_port = 443 then ''wss://'' @ host
             else ''wss://'' @ host @ '':'' @ dec_digits (unat server_port))"

definition ws_endpoint :: "agent_env \<Rightarrow> string" where
  "ws_endpoint env =
     generate_server_endpoint (ae_mode env) (ae_server_host env) (ae_server_port env) @ ''/api/nodes/ws''"

datatype handshake_error =
    EncodeFailed | NoAuthResponse | WrongFrameType NodeFrameData | AuthRefused | NodeIdMismatch uuid uuid

text \<open>The stream yields the events of the list; the functions return what is left of it.\<close>

definition read_next_frame :: "codec \<Rightarrow> ws_event list \<Rightarrow> NodeFrameData option" where
  "read_next_frame C evs =
     (case evs of
        WsBinary data # _ \<Rightarrow>
          (case Frame_decode Native64 C data of
             Ok frame \<Rightarrow> (case fr_data frame of Node d \<Rightarrow> Some d | Web _ \<Rightarrow> None)
           | _ \<Rightarrow> None)
      | _ \<Rightarrow> None)"

definition read_auth_response :: "codec \<Rightarrow> ws_event list \<Rightarrow> (handshake_error, uuid \<times> string) outcome" where
  "read_auth_response C evs =
     (case read_next_frame C evs of
        None \<Rightarrow> Err NoAuthResponse
      | Some (NAuthResponse node_id success version) \<Rightarrow>
          if \<not> success then Err AuthRefused else Ok (node_id, version)
      | Some frame \<Rightarrow> Err (WrongFrameType frame))"

text \<open>
  The part of \<open>connect\<close> before its tasks are spawned, from the established socket on: the
  bytes sent, and whether the tunnel traffic may start.
\<close>

definition agent_handshake ::
  "codec \<Rightarrow> agent_env \<Rightarrow> uuid \<Rightarrow> string \<Rightarrow> ws_event list
     \<Rightarrow> bytes option \<times> (handshake_error, ws_event list) outcome" where
  "agent_handshake C env node_id token evs =
     (case Frame_encode C (Frame_from_node (NAuth token node_id (ae_version env))) of
        Ok bytes \<Rightarrow>
          (Some bytes,
           case read_auth_response C evs of
             Err e \<Rightarrow> Err e
           | Panic \<Rightarrow> Panic
           | Ok (received_node_id, _) \<Rightarrow>
               if node_id \<noteq> received_node_id then Err (NodeIdMismatch node_id received_node_id)
               else Ok (tl evs))
      | _ \<Rightarrow> (None, Err EncodeFailed))"

section \<open>Messages from the server\<close>

definition blank :: "string \<Rightarrow> bool" where
  "blank s = (trim s = [])"

definition ensure_credentials ::
  "agent_env \<Rightarrow> uuid \<Rightarrow> string option \<Rightarrow> string option \<Rightarrow> msg_id \<Rightarrow> ('f, 'h) agent
     \<Rightarrow> ('f, 'h) agent \<times> (string, unit) outcome" where
  "ensure_credentials env cid username password mid a =
     (if (case username of None \<Rightarrow> True | Some u \<Rightarrow> blank u)
      then (send_requires_username_error cid mid a, Err ''received open tunnel without username'')
      else case ae_ssh_auth_mode env of
        PasswordAuth \<Rightarrow>
          if (case password of Some p \<Rightarrow> blank p | None \<Rightarrow> True)
          then (send_requires_password_error cid mid a, Err ''received open tunnel without password'')
          else (a, Ok ())
      | NoneAuth \<Rightarrow> (a, Ok ()))"

text \<open>\<open>Option::expect\<close> panics on \<open>None\<close>.\<close>

fun expect :: "'a option \<Rightarrow> ('e, 'a) outcome" where
  "expect (Some x) = Ok x"
| "expect None = Panic"

definition tunnel_auth ::
  "agent_env \<Rightarrow> string option \<Rightarrow> string option \<Rightarrow> (unit, ConfigAuth) outcome" where
  "tunnel_auth env username password =
     (case ae_ssh_auth_mode env of
        PasswordAuth \<Rightarrow>
          (case expect username of
             Ok u \<Rightarrow> (case expect password of Ok p \<Rightarrow> Ok (UsernamePassword u p) | Err e \<Rightarrow> Err e | Panic \<Rightarrow> Panic)
           | Err e \<Rightarrow> Err e | Panic \<Rightarrow> Panic)
      | NoneAuth \<Rightarrow> (case expect username of Ok u \<Rightarrow> Ok (Username u) | Err e \<Rightarrow> Err e | Panic \<Rightarrow> Panic))"

definition handle_open_tunnel ::
  "agent_env \<Rightarrow> uuid \<Rightarrow> u8 \<Rightarrow> uuid \<Rightarrow> string option \<Rightarrow> string option \<Rightarrow> msg_id \<Rightarrow> ('f, 'h) agent
     \<Rightarrow> ('f, 'h) agent \<times> (unit, tunnel_task option) outcome" where
  "handle_open_tunnel env node_id protocol cid username password mid a =
     (case ensure_credentials env cid username password mid a of
        (a1, Err _) \<Rightarrow> (a1, Ok None)
      | (a1, Panic) \<Rightarrow> (a1, Panic)
      | (a1, Ok _) \<Rightarrow>
          (case Protocol_try_from protocol of
             Panic \<Rightarrow> (a1, Panic)
           | Err _ \<Rightarrow> (a1, Ok None)
           | Ok SFTP \<Rightarrow>
               (case tunnel_auth env username password of
                  Ok auth \<Rightarrow> (case start_sftp_tunnel cid auth mid a1 of (a2, task) \<Rightarrow> (a2, Ok (Some task)))
                | _ \<Rightarrow> (a1, Panic))
           | Ok SSH \<Rightarrow>
               (case tunnel_auth env username password of
                  Ok auth \<Rightarrow> (case start_ssh_tunnel node_id cid auth mid a1 of (a2, task) \<Rightarrow> (a2, Ok (Some task)))
                | _ \<Rightarrow> (a1, Panic))))"

text \<open>
  The result is the task the message spawned, if any, or \<open>Panic\<close>, which aborts the agent.
  The forwarding errors are only logged.
\<close>

fun handle_message ::
  "('f, 'h) sftp \<Rightarrow> agent_env \<Rightarrow> uuid \<Rightarrow> instant \<Rightarrow> NodeFrameData \<Rightarrow> ('f, 'h) agent
     \<Rightarrow> ('f, 'h) agent \<times> (unit, tunnel_task option) outcome" where
  "handle_message S env node_id now (NOpenTunnel protocol cid username password mid) a =
     handle_open_tunnel env node_id protocol cid username password mid a"
| "handle_message S env node_id now (NHeartbeatAck sent_at _) a =
     (a\<lparr>ag_last_heartbeat := now_millis now\<rparr>, Ok None)"
| "handle_message S env node_id now (NConnectionDisconnect cid) a =
     (close_downloads_for_cid cid (close_uploads_for_cid S cid (close_tunnels_for_cid cid a)), Ok None)"
| "handle_message S env node_id now (NSSHWindowResize cid sid cols rows px_width px_height) a =
     (fst (send_ssh_forward_resize cid sid cols rows px_width px_height a), Ok None)"
| "handle_message S env node_id now (NTunnelData protocol cid sid data) a =
     (if protocol = Protocol_as_u8 SSH then (fst (send_ssh_tunnel_data cid sid data a), Ok None)
      else (a, Ok None))"
| "handle_message S env node_id now (NSFTPList cid path sid mid) a =
     (fst (send_sftp_list_data cid sid path mid a), Ok None)"
| "handle_message S env node_id now (NSFTPUploadStart cid sid mid upload) a =
     (fst (send_sftp_upload_start_data cid sid mid upload a), Ok None)"
| "handle_message S env node_id now (NSFTPUpload cid sid mid chunk) a =
     (fst (send_sftp_upload_data cid sid mid chunk a), Ok None)"
| "handle_message S env node_id now (NSFTPDownloadStart cid sid mid download) a =
     (fst (send_sftp_download_start_data cid sid mid download a), Ok None)"
| "handle_message S env node_id now (NSFTPDownloadChunkRequest cid sid mid download_id chunk_index) a =
     (fst (send_sftp_download_chunk_request cid sid mid download_id chunk_index a), Ok None)"
| "handle_message S env node_id now (NSFTPDownloadChunk cid sid mid chunk) a =
     (fst (send_sftp_download_chunk_data cid sid mid chunk a), Ok None)"
| "handle_message S env node_id now (NSFTPDelete cid sid mid data) a =
     (fst (send_sftp_delete_data cid sid mid data a), Ok None)"
| "handle_message S env node_id now _ a = (a, Ok None)"

section \<open>The background tasks\<close>

text \<open>One round of the reader: the tasks spawned, and whether it goes on.\<close>

datatype reader_result = Continue "tunnel_task option" | Stop | Abort

definition reader_step ::
  "('f, 'h) sftp \<Rightarrow> codec \<Rightarrow> agent_env \<Rightarrow> uuid \<Rightarrow> instant \<Rightarrow> ws_event \<Rightarrow> ('f, 'h) agent
     \<Rightarrow> ('f, 'h) agent \<times> reader_result" where
  "reader_step S C env node_id now ev a =
     (case ev of
        WsClose \<Rightarrow> (a, Stop)
      | WsError \<Rightarrow> (a, Continue None)
      | WsOther \<Rightarrow> (a, Continue None)
      | WsBinary data \<Rightarrow>
          (case Frame_decode Native64 C data of
             Panic \<Rightarrow> (a, Abort)
           | Err _ \<Rightarrow> (a, Stop)
           | Ok frame \<Rightarrow>
               (case fr_data frame of
                  Web _ \<Rightarrow> (a, Stop)
                | Node d \<Rightarrow>
                    (case handle_message S env node_id now d a of
                       (a1, Ok task) \<Rightarrow> (a1, Continue task)
                     | (a1, _) \<Rightarrow> (a1, Abort)))))"

fun reader_task ::
  "('f, 'h) sftp \<Rightarrow> codec \<Rightarrow> agent_env \<Rightarrow> uuid \<Rightarrow> (instant \<times> ws_event) list \<Rightarrow> ('f, 'h) agent
     \<Rightarrow> ('f, 'h) agent \<times> tunnel_task list \<times> bool" where
  "reader_task S C env node_id [] a = (a, [], True)"
| "reader_task S C env node_id ((now, ev) # evs) a =
     (case reader_step S C env node_id now ev a of
        (a1, Stop) \<Rightarrow> (a1, [], True)
      | (a1, Abort) \<Rightarrow> (a1, [], False)
      | (a1, Continue task) \<Rightarrow>
          (case reader_task S C env node_id evs a1 of
             (a2, tasks, ok) \<Rightarrow> (a2, (case task of None \<Rightarrow> tasks | Some t \<Rightarrow> t # tasks), ok)))"

text \<open>
  \<open>tokio::time::interval\<close> panics when the period is zero; the period comes from the
  16-bit \<open>stats_refresh_interval\<close>.
\<close>

definition heartbeat_timeout_ms :: "u16 \<Rightarrow> (unit, u64) outcome" where
  "heartbeat_timeout_ms interval =
     (if interval = 0 then Panic else Ok (word_of_nat (unat interval * 1000 * 3)))"

text \<open>One tick: \<open>True\<close> when the connection is cancelled.\<close>

definition heartbeat_tick ::
  "u64 \<Rightarrow> instant \<Rightarrow> Stats option \<Rightarrow> instant \<Rightarrow> ('f, 'h) agent \<Rightarrow> ('f, 'h) agent \<times> bool" where
  "heartbeat_tick timeout_ms now stats now' a =
     (let last = ag_last_heartbeat a
      in if 0 < last \<and> timeout_ms < saturating_sub (now_millis now) last then (a, True)
         else case stats of
           None \<Rightarrow> (a, False)
         | Some st \<Rightarrow> (send_frame_data (NHeartbeat st (now_millis now')) a, False))"

definition cleanup_tick :: "('f, 'h) sftp \<Rightarrow> instant \<Rightarrow> ('f, 'h) agent \<Rightarrow> ('f, 'h) agent" where
  "cleanup_tick S now a = cleanup_abandoned_downloads S now (cleanup_abandoned_uploads S now a)"

text \<open>
  The writer takes the oldest frame; one that cannot be encoded is skipped, and a failed
  send is only logged.
\<close>

definition write_next :: "codec \<Rightarrow> ('f, 'h) agent \<Rightarrow> (('f, 'h) agent \<times> bytes option) option" where
  "write_next C a =
     (case chan_recv (ag_tx a) of
        None \<Rightarrow> None
      | Some (frame, tx) \<Rightarrow>
          Some (a\<lparr>ag_tx := tx\<rparr>, case Frame_encode C frame of Ok bs \<Rightarrow> Some bs | _ \<Rightarrow> None))"

section \<open>Lemmas\<close>

definition credentials_given :: "agent_env \<Rightarrow> string option \<Rightarrow> string option \<Rightarrow> bool" where
  "credentials_given env username password \<longleftrightarrow>
     (\<exists>u. username = Some u \<and> \<not> blank u) \<and>
     (ae_ssh_auth_mode env = PasswordAuth \<longrightarrow> (\<exists>p. password = Some p \<and> \<not> blank p))"

definition missing_credential_reply :: "uuid \<Rightarrow> string option \<Rightarrow> msg_id \<Rightarrow> ('f, 'h) agent \<Rightarrow> ('f, 'h) agent" where
  "missing_credential_reply cid username mid a =
     (if \<exists>u. username = Some u \<and> \<not> blank u then send_requires_password_error cid mid a
      else send_requires_username_error cid mid a)"

lemma ensure_credentials_cases:
  "if credentials_given env username password
   then ensure_credentials env cid username password mid a = (a, Ok ())
   else \<exists>e. ensure_credentials env cid username password mid a =
     (missing_credential_reply cid username mid a, Err e)"
  by (auto simp: credentials_given_def ensure_credentials_def missing_credential_reply_def
      split: option.splits SSHAuthMethod.splits)

lemma tunnel_auth_given:
  "credentials_given env username password \<Longrightarrow>
   tunnel_auth env username password =
     Ok (case ae_ssh_auth_mode env of
           PasswordAuth \<Rightarrow> UsernamePassword (the username) (the password)
         | NoneAuth \<Rightarrow> Username (the username))"
  by (auto simp: credentials_given_def tunnel_auth_def split: SSHAuthMethod.splits)

definition given_auth :: "agent_env \<Rightarrow> string option \<Rightarrow> string option \<Rightarrow> ConfigAuth" where
  "given_auth env username password =
     (case ae_ssh_auth_mode env of
        PasswordAuth \<Rightarrow> UsernamePassword (the username) (the password)
      | NoneAuth \<Rightarrow> Username (the username))"

lemma handle_open_tunnel_given:
  assumes "credentials_given env username password"
  shows "handle_open_tunnel env node_id protocol cid username password mid a =
    (if protocol = 0 then (case start_ssh_tunnel node_id cid (given_auth env username password) mid a of
       (a2, task) \<Rightarrow> (a2, Ok (Some task)))
     else if protocol = 1 then (case start_sftp_tunnel cid (given_auth env username password) mid a of
       (a2, task) \<Rightarrow> (a2, Ok (Some task)))
     else (a, Panic))"
  using assms ensure_credentials_cases [of env username password cid mid a]
  by (simp add: handle_open_tunnel_def Protocol_try_from_def tunnel_auth_given given_auth_def)

lemma handle_open_tunnel_missing:
  assumes "\<not> credentials_given env username password"
  shows "handle_open_tunnel env node_id protocol cid username password mid a =
    (missing_credential_reply cid username mid a, Ok None)"
  using assms ensure_credentials_cases [of env username password cid mid a]
  by (auto simp: handle_open_tunnel_def)

lemma agent_wf_send_frame_data: "agent_wf a \<Longrightarrow> agent_wf (send_frame_data d a)"
  by (rule agent_wf_frame; simp add: agent_simps agent_wf_dests)

lemma agent_wf_missing_reply: "agent_wf a \<Longrightarrow> agent_wf (missing_credential_reply cid username mid a)"
  by (simp add: missing_credential_reply_def send_requires_username_error_def send_requires_password_error_def
      agent_wf_send_frame_data)

lemma handle_open_tunnel_agent_wf:
  assumes "agent_wf a"
  shows "agent_wf (fst (handle_open_tunnel env node_id protocol cid username password mid a))"
proof (cases "credentials_given env username password")
  case True
  then show ?thesis
    using assms start_tunnel_agent_wf [OF assms]
    by (simp add: handle_open_tunnel_given case_prod_unfold)
next
  case False
  then show ?thesis
    using assms by (simp add: handle_open_tunnel_missing agent_wf_missing_reply)
qed

lemma agent_wf_drop_uploads: "agent_wf a \<Longrightarrow> agent_wf (fold (drop_upload S) ks a)"
  by (rule agent_wf_frame; simp add: agent_simps agent_wf_dests upload_table.close_all_wf)

lemma agent_wf_drop_downloads: "agent_wf a \<Longrightarrow> agent_wf (fold (drop_download S) ks a)"
  by (rule agent_wf_frame; simp add: agent_simps agent_wf_dests open_download_table.close_all_wf)

lemma agent_wf_close_downloads: "agent_wf a \<Longrightarrow> agent_wf (fold close_download ks a)"
  by (rule agent_wf_frame; simp add: agent_simps agent_wf_dests download_table.close_all_wf)

lemmas send_defs = send_sftp_list_data_def send_sftp_upload_start_data_def send_sftp_upload_data_def
  send_sftp_delete_data_def send_sftp_download_start_data_def send_sftp_download_chunk_request_def
  send_sftp_download_chunk_data_def send_ssh_tunnel_data_def send_ssh_forward_resize_def

lemma agent_wf_ack: "agent_wf a \<Longrightarrow> agent_wf (a\<lparr>ag_last_heartbeat := t\<rparr>)"
  by (rule agent_wf_frame [of a]) (simp_all add: agent_wf_dests)

lemma handle_message_agent_wf:
  "agent_wf a \<Longrightarrow> agent_wf (fst (handle_message S env node_id now d a))"
  by (cases "(S, env, node_id, now, d, a)" rule: handle_message.cases)
    (simp_all add: handle_open_tunnel_agent_wf send_defs forward_agent_wf close_tunnels_for_cid_def
      close_uploads_for_cid_def close_downloads_for_cid_def agent_wf_close_sessions agent_wf_drop_uploads
      agent_wf_close_downloads agent_wf_ack)

text \<open>The client a message from the server is about.\<close>

fun frame_client :: "NodeFrameData \<Rightarrow> uuid option" where
  "frame_client (NOpenTunnel _ cid _ _ _) = Some cid"
| "frame_client (NConnectionDisconnect cid) = Some cid"
| "frame_client (NSSHWindowResize cid _ _ _ _ _) = Some cid"
| "frame_client (NTunnelData _ cid _ _) = Some cid"
| "frame_client (NSFTPList cid _ _ _) = Some cid"
| "frame_client (NSFTPUploadStart cid _ _ _) = Some cid"
| "frame_client (NSFTPUpload cid _ _ _) = Some cid"
| "frame_client (NSFTPDownloadStart cid _ _ _) = Some cid"
| "frame_client (NSFTPDownloadChunkRequest cid _ _ _ _) = Some cid"
| "frame_client (NSFTPDownloadChunk cid _ _ _) = Some cid"
| "frame_client (NSFTPDelete cid _ _ _) = Some cid"
| "frame_client _ = None"

text \<open>What one client has on the agent.\<close>

definition client_view ::
  "('f, 'h) agent \<Rightarrow> uuid \<times> u32 \<Rightarrow> SessionHandle option \<times> SSHCommand list option \<times> SFTPCommand list option
     \<times> 'h FileUpload option \<times> 'h FileDownload option" where
  "client_view a k = (dm_get (ag_sessions a) k, ssh_input a k, sftp_input a k,
     dm_get (ag_uploads a) k, dm_get (ag_downloads a) k)"

lemma client_view_forward:
  "agent_wf a \<Longrightarrow> cid \<noteq> fst k \<Longrightarrow> client_view (fst (forward_ssh cid sid cmd a)) k = client_view a k"
  "agent_wf a \<Longrightarrow> cid \<noteq> fst k \<Longrightarrow> client_view (fst (forward_sftp cid sid cmd' a)) k = client_view a k"
  by (auto simp: client_view_def agent_simps ssh_input_forward sftp_input_forward)

lemma client_view_send [simp]: "client_view (send_frame_data d a) k = client_view a k"
  by (auto simp: client_view_def agent_simps ssh_input_def sftp_input_def split: option.splits SessionHandle.splits)

lemma client_view_open_tunnel:
  assumes "agent_wf a" "cid \<noteq> fst k"
  shows "client_view (fst (handle_open_tunnel env node_id protocol cid username password mid a)) k = client_view a k"
proof (cases "credentials_given env username password")
  case True
  have "k \<noteq> (cid, ag_session_counter a)"
    using assms(2) by auto
  then show ?thesis
    using start_ssh_tunnel_effect(3) [OF assms(1), of k] start_sftp_tunnel_effect(3) [OF assms(1), of k]
    by (simp add: handle_open_tunnel_given [OF True] case_prod_unfold client_view_def agent_simps)
next
  case False
  then show ?thesis
    by (simp add: handle_open_tunnel_missing missing_credential_reply_def send_requires_username_error_def
        send_requires_password_error_def)
qed

lemma close_cid_view:
  fixes a :: "('f, 'h) agent" and S :: "('f, 'h) sftp" and cid :: uuid
  assumes "agent_wf a"
  defines "a' \<equiv> close_downloads_for_cid cid (close_uploads_for_cid S cid (close_tunnels_for_cid cid a))"
  shows "client_view a' k = (if fst k = cid then (None, None, None, None, None) else client_view a k)"
    and "ag_stopped a' c \<longleftrightarrow>
      ag_stopped a c \<or> (\<exists>n h. dm_get (ag_sessions a) (cid, n) = Some h \<and> handle_id h = c)"
proof -
  note wf = agent_wf_dests(1-3) [OF assms(1)]
  let ?a1 = "close_tunnels_for_cid cid a" let ?a2 = "close_uploads_for_cid S cid ?a1"
  note defs = a'_def close_tunnels_for_cid_def close_uploads_for_cid_def close_downloads_for_cid_def
  have sess: "dm_get (ag_sessions a') k = (if fst k = cid then None else dm_get (ag_sessions a) k)"
    using session_table.close_cid_get [OF wf(1), of cid k] by (simp add: defs agent_simps)
  have "dm_get (ag_uploads ?a2) k = (if fst k = cid then None else dm_get (ag_uploads ?a1) k)"
    unfolding defs by (rule upload_table.close_cid_get) (simp add: agent_simps wf)
  then have up: "dm_get (ag_uploads a') k = (if fst k = cid then None else dm_get (ag_uploads a) k)"
    by (simp add: defs agent_simps)
  have "dm_get (ag_downloads a') k = (if fst k = cid then None else dm_get (ag_downloads ?a2) k)"
    unfolding defs by (rule download_table.close_cid_get) (simp add: agent_simps wf)
  then have down: "dm_get (ag_downloads a') k = (if fst k = cid then None else dm_get (ag_downloads a) k)"
    by (simp add: defs agent_simps)
  have "ag_ssh_stdin a' = ag_ssh_stdin a" "ag_sftp_stdin a' = ag_sftp_stdin a"
    by (simp_all add: defs agent_simps)
  then show "client_view a' k = (if fst k = cid then (None, None, None, None, None) else client_view a k)"
    using sess up down
    by (simp add: client_view_def ssh_input_def sftp_input_def cong: option.case_cong SessionHandle.case_cong)
  have "(\<exists>k\<in>set (keys_of_cid cid (ag_sessions a)). \<exists>h. dm_get (ag_sessions a) k = Some h \<and> handle_id h = c)
      \<longleftrightarrow> (\<exists>n h. dm_get (ag_sessions a) (cid, n) = Some h \<and> handle_id h = c)"
    using dm.iter_get [OF wf(1)] by (force simp: keys_of_cid_def image_iff)
  then show "ag_stopped a' c \<longleftrightarrow>
      ag_stopped a c \<or> (\<exists>n h. dm_get (ag_sessions a) (cid, n) = Some h \<and> handle_id h = c)"
    by (simp add: defs agent_simps close_session_stopped)
qed

lemma client_view_ack [simp]: "client_view (a\<lparr>ag_last_heartbeat := t\<rparr>) k = client_view a k"
  by (auto simp: client_view_def ssh_input_def sftp_input_def split: option.splits SessionHandle.splits)

section \<open>Properties\<close>

text \<open>
  C29: one message of the server aborts the agent exactly if it is an \<open>OpenTunnel\<close> with the
  credentials the agent asks for and a protocol byte above 1. The \<open>expect\<close> calls on the
  credentials never fail.
\<close>

theorem handle_message_panics_iff:
  "snd (handle_message S env node_id now d a) = Panic \<longleftrightarrow>
     (\<exists>protocol cid username password mid. d = NOpenTunnel protocol cid username password mid \<and>
        credentials_given env username password \<and> 1 < protocol)"
proof (cases "(S, env, node_id, now, d, a)" rule: handle_message.cases)
  case (1 S' env' n now' protocol cid username password mid a')
  have "1 < protocol \<longleftrightarrow> protocol \<noteq> 0 \<and> protocol \<noteq> 1"
    by unat_arith
  then show ?thesis
    using 1 by (cases "credentials_given env username password")
      (auto simp: handle_open_tunnel_given handle_open_tunnel_missing case_prod_unfold)
qed simp_all

text \<open>
  A message about one client leaves every other client alone: their sessions stay
  registered and are not stopped, and their queued commands, uploads and downloads do not change.
\<close>

theorem agent_command_isolation:
  assumes "agent_wf a" "frame_client d \<noteq> Some (fst k)"
  shows "client_view (fst (handle_message S env node_id now d a)) k = client_view a k \<and>
    (\<forall>h. dm_get (ag_sessions a) k = Some h \<longrightarrow>
       \<not> ag_stopped (fst (handle_message S env node_id now d a)) (handle_id h))"
proof -
  let ?a' = "fst (handle_message S env node_id now d a)"
  have view: "client_view ?a' k = client_view a k"
    using assms
    by (cases "(S, env, node_id, now, d, a)" rule: handle_message.cases)
      (simp_all add: send_defs client_view_forward client_view_open_tunnel close_cid_view)
  moreover have "dm_get (ag_sessions ?a') k = dm_get (ag_sessions a) k"
    using view by (simp add: client_view_def)
  ultimately show ?thesis
    using agent_wf_dests(4) [OF handle_message_agent_wf [OF assms(1)]] by metis
qed

text \<open>
  C15: when the server reports that a client disconnected, everything that client had on the
  agent is gone, its sessions are told to stop and no other session is, and every other client
  keeps what it has.
\<close>

theorem disconnect_releases_client:
  assumes "agent_wf a"
  shows "let a' = fst (handle_message S env node_id now (NConnectionDisconnect cid) a) in
    (\<forall>k. client_view a' k = (if fst k = cid then (None, None, None, None, None) else client_view a k)) \<and>
    (\<forall>c. ag_stopped a' c \<longleftrightarrow>
       ag_stopped a c \<or> (\<exists>n h. dm_get (ag_sessions a) (cid, n) = Some h \<and> handle_id h = c))"
  using close_cid_view [OF assms, of cid S] by simp

text \<open>Two clients, each with an SSH tunnel.\<close>

definition two_clients :: "(mem_fs, string) agent" where
  "two_clients = fst (start_ssh_tunnel 1 6 (Username ''v'') None
     (fst (start_ssh_tunnel 1 5 (Username ''u'') None example_agent)))"

lemma two_clients_wf: "agent_wf two_clients"
  by (simp add: two_clients_def start_tunnel_agent_wf example_agent_def agent_wf_new)

lemma two_clients_sessions: "ag_sessions two_clients = [((5, 1), SshHandle 0), ((6, 2), SshHandle 1)]"
  by (simp add: two_clients_def start_ssh_tunnel_def generate_session_id_def example_agent_simps Let_def
      agent_simps dm_insert_def)

lemma two_clients_view: "client_view two_clients (6, 2) = (Some (SshHandle 1), Some [], None, None, None)"
  by (simp add: client_view_def ssh_input_def sftp_input_def two_clients_sessions dm_get_def)
    (simp add: two_clients_def start_ssh_tunnel_def generate_session_id_def example_agent_simps Let_def
      agent_simps chan_simps)

definition example_agent_env :: agent_env where
  "example_agent_env = \<lparr>ae_mode = Production, ae_host = ''0.0.0.0'', ae_port = 8081,
     ae_stats_refresh_interval = 15, ae_server_host = ''https://api.example.org'', ae_server_port = 443,
     ae_ssh_host = ''localhost'', ae_ssh_port = 22, ae_ssh_auth_mode = PasswordAuth,
     ae_ssh_inactivity_secs = 0, ae_version = ''1.0''\<rparr>"

theorem agent_command_isolation_witness:
  "client_view (fst (handle_message mem_sftp example_agent_env 1 0 (NTunnelData 0 5 1 [65]) two_clients)) (6, 2) =
     (Some (SshHandle 1), Some [], None, None, None) \<and>
   \<not> ag_stopped (fst (handle_message mem_sftp example_agent_env 1 0 (NTunnelData 0 5 1 [65]) two_clients)) 1"
  using agent_command_isolation [OF two_clients_wf, of "NTunnelData 0 5 1 [65]" "(6, 2)" mem_sftp
      example_agent_env 1 0]
  by (simp add: two_clients_view two_clients_sessions dm_get_def del: handle_message.simps)

theorem disconnect_releases_client_witness:
  "let a' = fst (handle_message mem_sftp example_agent_env 1 0 (NConnectionDisconnect 5) two_clients) in
   client_view a' (5, 1) = (None, None, None, None, None) \<and>
   client_view a' (6, 2) = (Some (SshHandle 1), Some [], None, None, None) \<and> ag_stopped a' 0"
  using disconnect_releases_client [OF two_clients_wf, of mem_sftp example_agent_env 1 0 5]
  unfolding Let_def two_clients_sessions dm_get_def
  by (simp add: two_clients_view del: handle_message.simps)

text \<open>
  An \<open>OpenTunnel\<close> for a known protocol with the credentials the agent asks for registers
  one new session for its client, with an empty input, and spawns the task that serves it;
  without them nothing is registered, no task is spawned and the client is told which one is
  missing.
\<close>

theorem open_tunnel_effect:
  assumes "agent_wf a" "protocol \<le> 1"
  shows "let (a', r) = handle_message S env node_id now (NOpenTunnel protocol cid username password mid) a;
             sid = ag_session_counter a
    in if credentials_given env username password
       then r = Ok (Some (if protocol = 0
                          then SshTunnel node_id (given_auth env username password) cid sid mid (ag_next_chan a)
                          else SftpTunnel (given_auth env username password) cid sid mid (ag_next_chan a))) \<and>
            (if protocol = 0 then ssh_input a' (cid, sid) = Some [] else sftp_input a' (cid, sid) = Some []) \<and>
            (\<forall>k. k \<noteq> (cid, sid) \<longrightarrow> client_view a' k = client_view a k)
       else r = Ok None \<and>
            a' = (if \<exists>u. username = Some u \<and> \<not> blank u then send_requires_password_error cid mid a
                  else send_requires_username_error cid mid a)"
proof (cases "credentials_given env username password")
  case True
  have "protocol = 0 \<or> protocol = 1"
    using assms(2) by unat_arith
  then show ?thesis
    using start_ssh_tunnel_effect [OF assms(1)] start_sftp_tunnel_effect [OF assms(1)]
    by (auto simp: True handle_open_tunnel_given case_prod_unfold Let_def client_view_def agent_simps)
next
  case False
  then show ?thesis
    by (simp add: handle_open_tunnel_missing missing_credential_reply_def)
qed

theorem open_tunnel_effect_witness:
  "snd (handle_message mem_sftp example_agent_env 1 0 (NOpenTunnel 1 7 (Some ''u'') (Some ''p'') None) two_clients) =
     Ok (Some (SftpTunnel (UsernamePassword ''u'' ''p'') 7 3 None 2)) \<and>
   snd (handle_message mem_sftp example_agent_env 1 0 (NOpenTunnel 1 7 (Some '' '') None None) two_clients) = Ok None"
proof -
  have "ag_session_counter two_clients = 3" "ag_next_chan two_clients = 2"
    by (simp_all add: two_clients_def start_ssh_tunnel_def generate_session_id_def example_agent_simps Let_def
        insert_session_def dm_get_def dm_insert_def)
  moreover have "credentials_given example_agent_env (Some ''u'') (Some ''p'')"
    "\<not> credentials_given example_agent_env (Some '' '') None"
    by (simp_all add: credentials_given_def blank_def trim_def trim_matches_def trim_end_matches_def
        trim_start_def is_whitespace_def)
  ultimately show ?thesis
    using open_tunnel_effect [OF two_clients_wf, of 1 mem_sftp example_agent_env 1 0 7 "Some ''u''" "Some ''p''" None]
      open_tunnel_effect [OF two_clients_wf, of 1 mem_sftp example_agent_env 1 0 7 "Some '' ''" None None]
    by (simp add: case_prod_unfold Let_def given_auth_def example_agent_env_def del: handle_message.simps)
qed

text \<open>
  C36: the heartbeat task gives the connection up exactly when an acknowledgement has been
  received before and the last one is more than three intervals old; until the first
  acknowledgement it never does. No product or difference wraps around.
\<close>

theorem heartbeat_gives_up_iff:
  assumes "heartbeat_timeout_ms interval = Ok timeout"
  shows "snd (heartbeat_tick timeout now stats now' a) \<longleftrightarrow>
    0 < unat (ag_last_heartbeat a) \<and>
    unat (ag_last_heartbeat a) + 3000 * unat interval < unat (now_millis now)"
proof -
  have "unat interval < 2 ^ 16"
    using unsigned_less [of interval, where ?'a = nat] by simp
  moreover have "timeout = word_of_nat (unat interval * 1000 * 3)"
    using assms unfolding heartbeat_timeout_ms_def by (simp only: outcome.inject outcome.distinct split: if_splits)
  ultimately have t: "unat timeout = 3000 * unat interval"
    by (simp only: unat_of_nat) simp
  show ?thesis
    using t
    by (cases stats) (auto simp: heartbeat_tick_def Let_def word_less_nat_alt unat_saturating_sub)
qed

theorem heartbeat_gives_up_iff_witness:
  "let a = example_agent\<lparr>ag_last_heartbeat := 1000\<rparr> in
   heartbeat_timeout_ms 15 = Ok 45000 \<and>
   snd (heartbeat_tick 45000 46001000000 None 0 a) \<and> \<not> snd (heartbeat_tick 45000 46000000000 None 0 a)"
proof -
  have t: "heartbeat_timeout_ms 15 = Ok 45000"
    by (simp add: heartbeat_timeout_ms_def)
  show ?thesis
    unfolding Let_def heartbeat_gives_up_iff [OF t] using t by (simp add: now_millis_def)
qed

text \<open>
  C35: the agent starts serving tunnels only after the server's first message was a
  successful \<open>AuthResponse\<close> for this very node, and the only bytes it sent before are its
  \<open>Auth\<close> frame.
\<close>

theorem handshake_sound:
  assumes "agent_handshake C env node_id token evs = (sent, Ok rest)"
  shows "\<exists>data frame version bytes. evs = WsBinary data # rest \<and>
    Frame_decode Native64 C data = Ok frame \<and> fr_data frame = Node (NAuthResponse node_id True version) \<and>
    sent = Some bytes \<and> Frame_encode C (Frame_from_node (NAuth token node_id (ae_version env))) = Ok bytes"
proof -
  obtain bytes where bytes: "Frame_encode C (Frame_from_node (NAuth token node_id (ae_version env))) = Ok bytes"
    "sent = Some bytes"
    using assms by (auto simp: agent_handshake_def split: outcome.splits)
  with assms obtain version where v: "read_auth_response C evs = Ok (node_id, version)" "rest = tl evs"
    by (auto simp: agent_handshake_def split: outcome.splits if_splits)
  then have "read_next_frame C evs = Some (NAuthResponse node_id True version)"
    by (auto simp: read_auth_response_def split: option.splits NodeFrameData.splits if_splits)
  then obtain data frame where "evs = WsBinary data # tl evs" "Frame_decode Native64 C data = Ok frame"
    "fr_data frame = Node (NAuthResponse node_id True version)"
    by (auto simp: read_next_frame_def split: list.splits ws_event.splits outcome.splits FrameData.splits)
  with bytes v show ?thesis
    by blast
qed

text \<open>A codec that knows the two messages of the handshake.\<close>

definition handshake_codec :: codec where
  "handshake_codec = heartbeat_codec\<lparr>
     node_rmp_to_vec := (\<lambda>n. if n = NAuth ''t'' 1 ''1.0'' then Some [65]
                             else if n = NAuthResponse 1 True ''1.0'' then Some [66] else None),
     node_rmp_from_slice := (\<lambda>bs. if bs = [65] then Some (NAuth ''t'' 1 ''1.0'')
                             else if bs = [66] then Some (NAuthResponse 1 True ''1.0'') else None)\<rparr>"

theorem handshake_sound_witness:
  "\<exists>frame version. Frame_decode Native64 handshake_codec [1, 1, 1, 11, 0, 0, 0, 1, 66] = Ok frame \<and>
     fr_data frame = Node (NAuthResponse 1 True version)"
proof -
  have "Frame_decode Native64 handshake_codec [1, 1, 1, 11, 0, 0, 0, 1, 66] =
      Ok \<lparr>fr_version = 1, fr_encoding = MessagePack, fr_data = Node (NAuthResponse 1 True ''1.0'')\<rparr>"
    by (simp add: Frame_decode_def Let_def HEADER_SIZE_def FrameEncoding_try_from_def u32_from_be_def
        decode_payload_def handshake_codec_def)
  then have "agent_handshake handshake_codec example_agent_env 1 ''t'' [WsBinary [1, 1, 1, 11, 0, 0, 0, 1, 66]] =
      (Some [1, 1, 1, 10, 0, 0, 0, 1, 65], Ok [])"
    by (simp add: agent_handshake_def read_auth_response_def read_next_frame_def Frame_encode_def
        encode_parts_def Frame_from_node_def handshake_codec_def example_agent_env_def FRAME_VERSION_def
        u32_to_be_def)
  then show ?thesis
    using handshake_sound [of handshake_codec example_agent_env 1 "''t''"
        "[WsBinary [1, 1, 1, 11, 0, 0, 0, 1, 66]]" "Some [1, 1, 1, 10, 0, 0, 0, 1, 65]" "[]"] by auto
qed

section \<open>Every interleaving of the agent's tasks\<close>

lemma generate_id_fields [agent_simps]:
  "ag_sessions (fst (generate_id a)) = ag_sessions a"
  "ag_uploads (fst (generate_id a)) = ag_uploads a"
  "ag_downloads (fst (generate_id a)) = ag_downloads a"
  "ag_stopped (fst (generate_id a)) = ag_stopped a"
  "ag_next_chan (fst (generate_id a)) = ag_next_chan a"
  "ag_session_counter (fst (generate_id a)) = ag_session_counter a"
  "ag_ssh_stdin (fst (generate_id a)) = ag_ssh_stdin a"
  "ag_sftp_stdin (fst (generate_id a)) = ag_sftp_stdin a"
  by (simp_all add: generate_id_def)

text \<open>
  What a task beside the reader may touch: the tables of transfers, the file system, the outgoing
  queue; from the command channels it can only take.
\<close>

definition transfer_only :: "('f, 'h) agent \<Rightarrow> ('f, 'h) agent \<Rightarrow> bool" where
  "transfer_only a a' \<longleftrightarrow> ag_sessions a' = ag_sessions a \<and> ag_stopped a' = ag_stopped a \<and>
     ag_next_chan a' = ag_next_chan a \<and> ag_session_counter a' = ag_session_counter a \<and>
     (dm_wf (ag_uploads a) \<longrightarrow> dm_wf (ag_uploads a')) \<and> (dm_wf (ag_downloads a) \<longrightarrow> dm_wf (ag_downloads a')) \<and>
     (\<forall>c. set (ch_queue (ag_ssh_stdin a' c)) \<subseteq> set (ch_queue (ag_ssh_stdin a c)) \<and>
          set (ch_queue (ag_sftp_stdin a' c)) \<subseteq> set (ch_queue (ag_sftp_stdin a c)))"

lemma agent_wf_transfer: "agent_wf a \<Longrightarrow> transfer_only a a' \<Longrightarrow> agent_wf a'"
  by (rule agent_wf_frame) (auto simp: transfer_only_def agent_wf_dests)

lemma transfer_only_cleanup:
  "transfer_only a (cleanup_abandoned_uploads S now a)" "transfer_only a (cleanup_abandoned_downloads S now a)"
  by (simp_all add: transfer_only_def cleanup_abandoned_uploads_def cleanup_abandoned_downloads_def agent_simps
      upload_table.close_all_wf open_download_table.close_all_wf)

lemma transfer_only_trans: "transfer_only a b \<Longrightarrow> transfer_only b c \<Longrightarrow> transfer_only a c"
  unfolding transfer_only_def by (metis subset_trans)

lemma transfer_only_start_upload: "transfer_only a (start_upload S now upload cid sid mid a)"
  by (rule transfer_only_trans [OF transfer_only_cleanup(1) [of a S now]])
    (auto simp: start_upload_def Let_def transfer_only_def agent_simps case_prod_unfold dm.wf_insert
      split: outcome.splits)

lemma transfer_only_start_download: "transfer_only a (start_download S now download cid sid mid a)"
  by (rule transfer_only_trans [OF transfer_only_cleanup(2) [of a S now]])
    (auto simp: start_download_def Let_def transfer_only_def agent_simps case_prod_unfold dm.wf_insert
      split: outcome.splits)

lemma transfer_only_upload:
  "upload_file_chunk S now chunk cid sid mid a = Some a' \<Longrightarrow> transfer_only a a'"
  by (auto simp: upload_file_chunk_def append_chunk_def finish_upload_def Let_def transfer_only_def agent_simps case_prod_unfold
      dm.wf_insert dm.wf_remove split: outcome.splits option.splits if_splits)

lemma transfer_only_download:
  "transfer_only a (download_file_chunk S now cid sid mid download_id chunk_index a)"
  by (auto simp: download_file_chunk_def Let_def transfer_only_def agent_simps case_prod_unfold
      dm.wf_insert dm.wf_remove split: outcome.splits option.splits list.splits)

lemma transfer_only_delete: "transfer_only a (delete_file S data cid sid mid a)"
  by (auto simp: delete_file_def Let_def transfer_only_def agent_simps case_prod_unfold dm.wf_retain
      split: outcome.splits)

lemma transfer_only_list: "transfer_only a (send_directory_listing S path sid mid a)"
  by (auto simp: send_directory_listing_def transfer_only_def agent_simps split: outcome.splits)

lemma transfer_only_command:
  "sftp_command S now cid sid cmd a = Some a' \<Longrightarrow> transfer_only a a'"
  by (cases cmd) (auto simp: transfer_only_start_upload transfer_only_start_download transfer_only_upload
      transfer_only_download transfer_only_delete transfer_only_list)

text \<open>What the task of tunnel \<open>(cid, sid)\<close> reports: that it is open, that it is closed, or that it failed.\<close>

fun report_frame :: "uuid \<Rightarrow> u32 \<Rightarrow> NodeFrameData \<Rightarrow> bool" where
  "report_frame cid sid (NTunnelOpened protocol c n mid) \<longleftrightarrow> protocol \<in> {0, 1} \<and> c = cid \<and> n = sid"
| "report_frame cid sid (NTunnelClosed protocol c n mid) \<longleftrightarrow> protocol \<in> {0, 1} \<and> c = cid \<and> n = sid"
| "report_frame cid sid (NWebFrame (WError Generic err mid) (SessionId n)) \<longleftrightarrow> n = sid"
| "report_frame cid sid _ \<longleftrightarrow> False"

text \<open>
  One step of one of the tasks beside the reader: the heartbeat, the cleanup, the writer, a tunnel
  task taking a command from its channel, reporting, serving an event, or ending and so
  dropping its receiver. \<open>T\<close> holds the client and the number of every tunnel that was started.
\<close>

inductive task_step ::
  "('f, 'h) sftp \<Rightarrow> ssh_ext \<Rightarrow> codec \<Rightarrow> (uuid \<times> u32) set \<Rightarrow> ('f, 'h) agent \<Rightarrow> ('f, 'h) agent \<Rightarrow> bool"
  for S E C T where
  heartbeat: "task_step S E C T a (fst (heartbeat_tick timeout now stats now' a))"
| cleanup: "task_step S E C T a (cleanup_tick S now a)"
| written: "write_next C a = Some (a', bs) \<Longrightarrow> task_step S E C T a a'"
| ssh_take: "chan_recv (ag_ssh_stdin a c) = Some (cmd, ch) \<Longrightarrow>
    task_step S E C T a (a\<lparr>ag_ssh_stdin := (ag_ssh_stdin a)(c := ch)\<rparr>)"
| sftp_take: "chan_recv (ag_sftp_stdin a c) = Some (cmd', ch') \<Longrightarrow>
    task_step S E C T a (a\<lparr>ag_sftp_stdin := (ag_sftp_stdin a)(c := ch')\<rparr>)"
| ssh_event: "(cid, sid) \<in> T \<Longrightarrow> task_step S E C T a (fst (ssh_step E name sid ev a))"
| sftp_event: "(cid, sid) \<in> T \<Longrightarrow> sftp_command S now cid sid cmd' a = Some a' \<Longrightarrow> task_step S E C T a a'"
| report: "(cid, sid) \<in> T \<Longrightarrow> report_frame cid sid d \<Longrightarrow> task_step S E C T a (send_frame_data d a)"
| task_end: "task_step S E C T a
    (a\<lparr>ag_ssh_stdin := (ag_ssh_stdin a)(c := chan_close (ag_ssh_stdin a c)),
       ag_sftp_stdin := (ag_sftp_stdin a)(c := chan_close (ag_sftp_stdin a c))\<rparr>)"

text \<open>The reader handles a message, or another task takes a step.\<close>

inductive agent_step :: "('f, 'h) sftp \<Rightarrow> ssh_ext \<Rightarrow> codec \<Rightarrow> agent_env \<Rightarrow> uuid \<Rightarrow> ('f, 'h) agent \<Rightarrow> ('f, 'h) agent \<Rightarrow> bool"
  for S E C env node_id where
  message: "handle_message S env node_id now d a = (a', Ok task) \<Longrightarrow> agent_step S E C env node_id a a'"
| task: "task_step S E C T a a' \<Longrightarrow> agent_step S E C env node_id a a'"

definition agent_reachable ::
  "('f, 'h) sftp \<Rightarrow> ssh_ext \<Rightarrow> codec \<Rightarrow> agent_env \<Rightarrow> uuid \<Rightarrow> ('f, 'h) agent \<Rightarrow> bool" where
  "agent_reachable S E C env node_id a \<longleftrightarrow>
     (\<exists>sc ic fs. (agent_step S E C env node_id)\<^sup>*\<^sup>* (WebSocketConnection_new sc ic fs) a)"

lemma agent_reachable_intros:
  "agent_reachable S E C env node_id (WebSocketConnection_new sc ic fs)"
  "agent_reachable S E C env node_id a \<Longrightarrow> agent_step S E C env node_id a a' \<Longrightarrow>
    agent_reachable S E C env node_id a'"
  unfolding agent_reachable_def by (blast intro: rtranclp.rtrancl_into_rtrancl)+

lemma ssh_step_channels [agent_simps]:
  "ag_next_chan (fst (ssh_step E n sid ev a)) = ag_next_chan a"
  "ag_session_counter (fst (ssh_step E n sid ev a)) = ag_session_counter a"
  "ag_ssh_stdin (fst (ssh_step E n sid ev a)) = ag_ssh_stdin a"
  "ag_sftp_stdin (fst (ssh_step E n sid ev a)) = ag_sftp_stdin a"
  by (cases "(E, n, sid, ev, a)" rule: ssh_step.cases; simp add: agent_simps send_tunnel_data_def)+

text \<open>The tasks beside the reader leave the session table and the stop signals alone.\<close>

lemma task_step_transfer_only:
  assumes "task_step S E C T a a'"
  shows "transfer_only a a'"
  using assms
proof (cases rule: task_step.cases)
  case (sftp_event cid sid now cmd')
  then show ?thesis
    by (simp add: transfer_only_command)
next
  case (cleanup now)
  then show ?thesis
    by (simp add: cleanup_tick_def transfer_only_trans [OF transfer_only_cleanup(1) transfer_only_cleanup(2)])
next
  case (heartbeat timeout now stats now')
  then show ?thesis
    by (simp add: heartbeat_tick_def Let_def transfer_only_def agent_simps split: option.splits)
qed (auto simp: transfer_only_def agent_simps chan_simps write_next_def chan_recv_def split: option.splits list.splits)

lemma agent_step_wf:
  assumes "agent_step S E C env node_id a a'" "agent_wf a"
  shows "agent_wf a'"
  using assms
proof (cases rule: agent_step.cases)
  case (message now d task)
  then show ?thesis
    using handle_message_agent_wf [OF assms(2), of S env node_id now d] by simp
next
  case task
  then show ?thesis
    using assms(2) task_step_transfer_only agent_wf_transfer by blast
qed

interpretation agent_system: invariant_system "agent_step S E C env node_id" agent_wf for S E C env node_id
  by unfold_locales (rule agent_step_wf)

text \<open>
  In every interleaving of the reader, heartbeat, cleanup, writer and tunnel tasks from
  a fresh connection, the agent's tables have unique keys, and every registered session has a
  stop channel of its own that has not been used.
\<close>

theorem agent_reachable_wf:
  assumes "agent_reachable S E C env node_id a"
  shows "dm_wf (ag_sessions a) \<and> dm_wf (ag_uploads a) \<and> dm_wf (ag_downloads a) \<and>
    (\<forall>k h. dm_get (ag_sessions a) k = Some h \<longrightarrow> \<not> ag_stopped a (handle_id h)) \<and>
    (\<forall>k k' h h'. dm_get (ag_sessions a) k = Some h \<and> dm_get (ag_sessions a) k' = Some h' \<and> k \<noteq> k' \<longrightarrow>
       handle_id h \<noteq> handle_id h')"
proof -
  obtain sc ic fs where "(agent_step S E C env node_id)\<^sup>*\<^sup>* (WebSocketConnection_new sc ic fs) a"
    using assms unfolding agent_reachable_def by blast
  then have "agent_wf a"
    by (rule agent_system.reachable_inv [OF _ agent_wf_new])
  then show ?thesis
    unfolding agent_wf_def by blast
qed

theorem agent_reachable_wf_witness:
  "let a = fst (handle_message mem_sftp example_agent_env 1 0 (NOpenTunnel 0 5 (Some ''u'') (Some ''p'') None)
       example_agent)
   in dm_get (ag_sessions a) (5, 1) = Some (SshHandle 0) \<and> \<not> ag_stopped a 0"
proof -
  let ?d = "NOpenTunnel 0 5 (Some ''u'') (Some ''p'') None"
  let ?a = "fst (handle_message mem_sftp example_agent_env 1 0 ?d example_agent)"
  have cred: "credentials_given example_agent_env (Some ''u'') (Some ''p'')"
    by (simp add: credentials_given_def blank_def trim_def trim_matches_def trim_end_matches_def
        trim_start_def is_whitespace_def)
  have msg: "handle_message mem_sftp example_agent_env 1 0 ?d example_agent =
      (?a, Ok (Some (snd (start_ssh_tunnel 1 5 (given_auth example_agent_env (Some ''u'') (Some ''p'')) None
         example_agent))))"
    by (simp add: handle_open_tunnel_given [OF cred] case_prod_unfold)
  have get: "dm_get (ag_sessions ?a) (5, 1) = Some (SshHandle 0)"
    by (simp add: handle_open_tunnel_given [OF cred] case_prod_unfold start_ssh_tunnel_def
        generate_session_id_def example_agent_simps Let_def agent_simps dm_simps)
  have "agent_reachable mem_sftp example_ssh heartbeat_codec example_agent_env 1 example_agent"
    unfolding example_agent_def by (rule agent_reachable_intros)
  then have r: "agent_reachable mem_sftp example_ssh heartbeat_codec example_agent_env 1 ?a"
    by (rule agent_reachable_intros) (rule agent_step.message [OF msg])
  show ?thesis
    using get agent_reachable_wf [OF r] unfolding Let_def by (metis SessionHandle.sel(1))
qed

end
