(* ===== verification/Agent_Life.thy ===== *)
theory Agent_Life
  imports Agent_Ws
begin

text \<open>
  The life of one connection of the agent (\<open>WebSocketConnection::connect\<close> in \<open>agent/src/ws.rs\<close>): the
  handshake, the tasks it spawns, the end of the first of them, and the closing of what is left. The
  tasks are detached, so that the reader may outlive the connection.
\<close>

section \<open>The model\<close>

datatype conn_phase = Serving | EndedByReader | EndedByHeartbeat

record ('f, 'h) connection =
  co_agent :: "('f, 'h) agent"
  co_reader :: bool  \<comment> \<open>the reader task is running\<close>
  co_phase :: conn_phase
  co_tunnels :: "(uuid \<times> u32) set"  \<comment> \<open>client and number of the tunnels started so far\<close>

datatype connect_error = ConnectFailed | HandshakeFailed handshake_error

text \<open>
  \<open>connect\<close> up to the point where it waits for the first task to end. \<open>stream\<close> is what
  \<open>connect_async\<close> yields: no socket, or the events the server sends on it.
\<close>

definition connect ::
  "codec \<Rightarrow> agent_env \<Rightarrow> uuid \<Rightarrow> string \<Rightarrow> (string \<Rightarrow> ws_event list option) \<Rightarrow> ('f, 'h) agent
     \<Rightarrow> (connect_error, ('f, 'h) connection) outcome" where
  "connect C env node_id token stream a =
     (case stream (ws_endpoint env) of
        None \<Rightarrow> Err ConnectFailed
      | Some evs \<Rightarrow>
          (case snd (agent_handshake C env node_id token evs) of
             Err e \<Rightarrow> Err (HandshakeFailed e)
           | Panic \<Rightarrow> Panic
           | Ok _ \<Rightarrow> Ok \<lparr>co_agent = a, co_reader = True, co_phase = Serving, co_tunnels = {}\<rparr>))"

text \<open>The tunnel that a handled message starts.\<close>

fun spawned :: "tunnel_task option \<Rightarrow> (uuid \<times> u32) set" where
  "spawned (Some (SshTunnel node_id credentials cid sid mid c)) = {(cid, sid)}"
| "spawned (Some (SftpTunnel credentials cid sid mid c)) = {(cid, sid)}"
| "spawned None = {}"

text \<open>
  A step is labelled with the event it reads from the socket, if any. The reader goes on, stops at a
  bad frame, a close frame or the end of the stream, whatever became of the connection; so do the
  tunnel tasks, each of which speaks for the tunnel it was started for. The connection ends when the reader has stopped or when the heartbeat gives up, and
  then closes what the tables hold. The writer cannot end before: it waits on a channel whose sender
  the connection keeps.
\<close>

inductive life_act ::
  "('f, 'h) sftp \<Rightarrow> ssh_ext \<Rightarrow> codec \<Rightarrow> agent_env \<Rightarrow> uuid \<Rightarrow> ws_event option
     \<Rightarrow> ('f, 'h) connection \<Rightarrow> ('f, 'h) connection \<Rightarrow> bool"
  for S E C env node_id where
  reads: "co_reader y \<Longrightarrow> reader_step S C env node_id now ev (co_agent y) = (a', Continue t) \<Longrightarrow>
    life_act S E C env node_id (Some ev) y (y\<lparr>co_agent := a', co_tunnels := spawned t \<union> co_tunnels y\<rparr>)"
| stops: "co_reader y \<Longrightarrow> reader_step S C env node_id now ev (co_agent y) = (a', Stop) \<Longrightarrow>
    life_act S E C env node_id (Some ev) y (y\<lparr>co_agent := a', co_reader := False\<rparr>)"
| stream_end: "co_reader y \<Longrightarrow> life_act S E C env node_id None y (y\<lparr>co_reader := False\<rparr>)"
| other_task: "task_step S E C (co_tunnels y) (co_agent y) a' \<Longrightarrow> life_act S E C env node_id None y (y\<lparr>co_agent := a'\<rparr>)"
| reader_ended: "\<not> co_reader y \<Longrightarrow> co_phase y = Serving \<Longrightarrow>
    life_act S E C env node_id None y
      (y\<lparr>co_agent := close_everything S (co_agent y), co_phase := EndedByReader\<rparr>)"
| heartbeat_ended: "heartbeat_timeout_ms (ae_stats_refresh_interval env) = Ok timeout \<Longrightarrow> co_phase y = Serving \<Longrightarrow>
    snd (heartbeat_tick timeout now stats now' (co_agent y)) \<Longrightarrow>
    life_act S E C env node_id None y
      (y\<lparr>co_agent := close_everything S (co_agent y), co_phase := EndedByHeartbeat\<rparr>)"

definition life_step ::
  "('f, 'h) sftp \<Rightarrow> ssh_ext \<Rightarrow> codec \<Rightarrow> agent_env \<Rightarrow> uuid \<Rightarrow> ('f, 'h) connection \<Rightarrow> ('f, 'h) connection \<Rightarrow> bool" where
  "life_step S E C env node_id y y' \<longleftrightarrow> (\<exists>ev. life_act S E C env node_id ev y y')"

lemma life_stepI: "life_act S E C env node_id ev y y' \<Longrightarrow> life_step S E C env node_id y y'"
  by (auto simp: life_step_def)

lemma spawned_start:
  "spawned (Some (snd (start_ssh_tunnel n cid auth mid a))) = {(cid, ag_session_counter a)}"
  "spawned (Some (snd (start_sftp_tunnel cid auth mid a))) = {(cid, ag_session_counter a)}"
  by (simp_all add: start_ssh_tunnel_def start_sftp_tunnel_def generate_session_id_def Let_def)

section \<open>No tunnel task is lost\<close>

text \<open>
  The channel numbers below \<open>ag_next_chan\<close> are those of the tunnel tasks spawned so far: each is in the
  table or has its stop signal.
\<close>

definition tracked :: "('f, 'h) agent \<Rightarrow> bool" where
  "tracked a \<longleftrightarrow> (\<forall>c < ag_next_chan a. ag_stopped a c \<or> (\<exists>k h. dm_get (ag_sessions a) k = Some h \<and> handle_id h = c))"

lemma trackedD:
  "tracked a \<Longrightarrow> c < ag_next_chan a \<Longrightarrow> ag_stopped a c \<or> (\<exists>k h. dm_get (ag_sessions a) k = Some h \<and> handle_id h = c)"
  by (simp add: tracked_def)

lemma tracked_new: "tracked (WebSocketConnection_new sc ic fs)"
  by (simp add: tracked_def WebSocketConnection_new_def)

lemma tracked_frame:
  "tracked a \<Longrightarrow> ag_sessions a' = ag_sessions a \<Longrightarrow> ag_stopped a' = ag_stopped a \<Longrightarrow>
    ag_next_chan a' = ag_next_chan a \<Longrightarrow> tracked a'"
  by (simp add: tracked_def)

lemma tracked_insert_session:
  assumes "tracked a" "handle_id h = ag_next_chan a"
    "ag_sessions a' = ag_sessions a" "ag_stopped a' = ag_stopped a" "ag_next_chan a' = ag_next_chan a + 1"
  shows "tracked (insert_session k h a')"
  unfolding tracked_def
proof (intro allI impI)
  fix c assume "c < ag_next_chan (insert_session k h a')"
  then consider "c = ag_next_chan a" | "c < ag_next_chan a"
    using assms(5) by (auto simp: agent_simps less_Suc_eq)
  then show "ag_stopped (insert_session k h a') c \<or>
      (\<exists>k' h'. dm_get (ag_sessions (insert_session k h a')) k' = Some h' \<and> handle_id h' = c)"
  proof cases
    case 1
    then show ?thesis
      using assms(2) by (intro disjI2 exI [of _ k] exI [of _ h]) (simp add: agent_simps dm_simps)
  next
    case 2
    from trackedD [OF assms(1) this] show ?thesis
      by (auto simp: assms(3,4) agent_simps dm_simps) metis
  qed
qed

lemma tracked_start:
  "tracked a \<Longrightarrow> tracked (fst (start_ssh_tunnel n cid auth mid a))"
  "tracked a \<Longrightarrow> tracked (fst (start_sftp_tunnel cid auth mid a))"
  by (simp_all add: start_ssh_tunnel_def start_sftp_tunnel_def generate_session_id_def Let_def
      tracked_insert_session [of a])

lemma tracked_close_sessions:
  assumes "tracked a"
  shows "tracked (fold close_session ks a)"
  unfolding tracked_def
proof (intro allI impI)
  fix c assume "c < ag_next_chan (fold close_session ks a)"
  then have "c < ag_next_chan a"
    by (simp add: agent_simps)
  from trackedD [OF assms this] show "ag_stopped (fold close_session ks a) c \<or>
      (\<exists>k h. dm_get (ag_sessions (fold close_session ks a)) k = Some h \<and> handle_id h = c)"
    unfolding close_session_stopped session_table.table_close_all
    by (auto simp: dm_simps)
qed

lemma tracked_open_tunnel:
  assumes "tracked a"
  shows "tracked (fst (handle_open_tunnel env node_id protocol cid username password mid a))"
proof (cases "credentials_given env username password")
  case True
  then show ?thesis
    using assms by (simp add: handle_open_tunnel_given case_prod_unfold tracked_start)
next
  case False
  then show ?thesis
    by (auto simp: handle_open_tunnel_missing missing_credential_reply_def agent_simps
        send_requires_username_error_def send_requires_password_error_def
        intro: tracked_frame [OF assms])
qed

lemma tracked_disconnect:
  assumes "tracked a"
  shows "tracked (close_downloads_for_cid cid (close_uploads_for_cid S cid (close_tunnels_for_cid cid a)))"
  unfolding close_tunnels_for_cid_def close_uploads_for_cid_def close_downloads_for_cid_def
  by (rule tracked_frame [OF tracked_close_sessions [OF assms]]) (simp_all add: agent_simps)

lemma tracked_message:
  assumes "tracked a"
  shows "tracked (fst (handle_message S env node_id now d a))"
proof (cases d)
  case (NOpenTunnel protocol cid username password mid)
  then show ?thesis
    by (simp add: tracked_open_tunnel assms)
next
  case (NConnectionDisconnect cid)
  then show ?thesis
    by (simp add: tracked_disconnect assms)
qed (rule tracked_frame [OF assms]; simp add: send_defs agent_simps)+

lemma tracked_reader: "tracked a \<Longrightarrow> tracked (fst (reader_step S C env node_id now ev a))"
  using tracked_message [of a S env node_id now]
  by (auto simp: reader_step_def split: ws_event.splits outcome.splits FrameData.splits prod.splits)
    (metis fst_conv)+

lemma tracked_task: "task_step S E C T a a' \<Longrightarrow> tracked a \<Longrightarrow> tracked a'"
  using task_step_transfer_only tracked_frame unfolding transfer_only_def by metis

lemma close_everything_inv:
  assumes "agent_wf a"
  shows "agent_wf (close_everything S a)" "tracked a \<Longrightarrow> tracked (close_everything S a)"
proof -
  note w = agent_wf_close_sessions [OF assms]
  show "agent_wf (close_everything S a)"
    by (rule agent_wf_frame [OF w]) (simp_all add: close_everything_def Let_def agent_simps
        upload_table.close_all_wf open_download_table.close_all_wf agent_wf_dests [OF assms])
  show "tracked (close_everything S a)" if "tracked a"
    by (rule tracked_frame [OF tracked_close_sessions [OF that]]) (simp_all add: close_everything_def Let_def agent_simps)
qed

lemma agent_wf_reader: "agent_wf a \<Longrightarrow> agent_wf (fst (reader_step S C env node_id now ev a))"
  using handle_message_agent_wf [of a S env node_id now]
  by (auto simp: reader_step_def split: ws_event.splits outcome.splits FrameData.splits prod.splits)
    (metis fst_conv)+

definition life_inv :: "('f, 'h) connection \<Rightarrow> bool" where
  "life_inv y \<longleftrightarrow> agent_wf (co_agent y) \<and> tracked (co_agent y) \<and>
     (co_phase y = EndedByReader \<longrightarrow> \<not> co_reader y \<and> (\<forall>k. dm_get (ag_sessions (co_agent y)) k = None))"

lemma life_act_inv:
  assumes "life_act S E C env node_id e y y'" "life_inv y"
  shows "life_inv y'"
  using assms(1)
proof (cases rule: life_act.cases)
  case (reads now ev a' t)
  then show ?thesis
    using assms(2) agent_wf_reader [of "co_agent y" S C env node_id now ev]
      tracked_reader [of "co_agent y" S C env node_id now ev] by (simp add: life_inv_def)
next
  case (stops now ev a')
  then show ?thesis
    using assms(2) agent_wf_reader [of "co_agent y" S C env node_id now ev]
      tracked_reader [of "co_agent y" S C env node_id now ev] by (simp add: life_inv_def)
next
  case (other_task a')
  then show ?thesis
    using assms(2) task_step_transfer_only [of S E C "co_tunnels y" "co_agent y" a']
      tracked_task [of S E C "co_tunnels y" "co_agent y" a']
      agent_wf_transfer [of "co_agent y" a'] by (simp add: life_inv_def transfer_only_def)
next
  case reader_ended
  then show ?thesis
    using assms(2) close_everything_inv [of "co_agent y" S] close_everything_complete [of "co_agent y" S]
    by (simp add: life_inv_def)
next
  case (heartbeat_ended timeout now stats now')
  then show ?thesis
    using assms(2) close_everything_inv [of "co_agent y" S] by (simp add: life_inv_def)
qed (use assms(2) in \<open>simp_all add: life_inv_def\<close>)

interpretation life: invariant_system "life_step S E C env node_id" life_inv for S E C env node_id
  by unfold_locales (auto simp: life_step_def intro: life_act_inv)

lemma connect_Ok:
  "connect C env node_id token stream a = Ok y \<Longrightarrow> y = \<lparr>co_agent = a, co_reader = True, co_phase = Serving, co_tunnels = {}\<rparr>"
  by (auto simp: connect_def split: option.splits outcome.splits)

section \<open>Properties\<close>

text \<open>
  C14: no tunnel task is lost: whatever the tasks of a connection do, every tunnel task it spawned is in
  the session table or has been told to stop; and once the connection has ended because its reader
  stopped, the table is empty and all of them have been told.
\<close>

theorem no_tunnel_task_lost:
  assumes "connect C env node_id token stream (WebSocketConnection_new sc ic fs) = Ok y0"
    and "(life_step S E C env node_id)\<^sup>*\<^sup>* y0 y"
  shows "(\<forall>c. c < ag_next_chan (co_agent y) \<longrightarrow>
      ag_stopped (co_agent y) c \<or> (\<exists>k h. dm_get (ag_sessions (co_agent y)) k = Some h \<and> handle_id h = c)) \<and>
    (co_phase y = EndedByReader \<longrightarrow>
      (\<forall>k. dm_get (ag_sessions (co_agent y)) k = None) \<and>
      (\<forall>c. c < ag_next_chan (co_agent y) \<longrightarrow> ag_stopped (co_agent y) c))"
proof -
  have "life_inv y0"
    using connect_Ok [OF assms(1)] by (simp add: life_inv_def agent_wf_new tracked_new)
  then have "life_inv y"
    by (rule life.reachable_inv [OF assms(2)])
  then show ?thesis
    by (auto simp: life_inv_def tracked_def)
qed


section \<open>A run\<close>

text \<open>A codec that also knows one \<open>OpenTunnel\<close>, and a connection that was just accepted.\<close>

definition life_codec :: codec where
  "life_codec = handshake_codec\<lparr>node_rmp_from_slice := (node_rmp_from_slice handshake_codec)
     ([67] := Some (NOpenTunnel 0 5 (Some ''u'') (Some ''p'') None))\<rparr>"

definition life_start :: "u64 \<Rightarrow> (mem_fs, string) connection" where
  "life_start t = \<lparr>co_agent = example_agent\<lparr>ag_last_heartbeat := t\<rparr>, co_reader = True, co_phase = Serving, co_tunnels = {}\<rparr>"

lemma life_decode:
  "Frame_decode Native64 life_codec [1, 1, 1, 20, 0, 0, 0, 1, 67] =
     Ok \<lparr>fr_version = 1, fr_encoding = MessagePack, fr_data = Node (NOpenTunnel 0 5 (Some ''u'') (Some ''p'') None)\<rparr>"
  "Frame_decode Native64 life_codec [1, 1, 1, 11, 0, 0, 0, 1, 66] =
     Ok \<lparr>fr_version = 1, fr_encoding = MessagePack, fr_data = Node (NAuthResponse 1 True ''1.0'')\<rparr>"
  by (simp_all add: Frame_decode_def Let_def HEADER_SIZE_def FrameEncoding_try_from_def u32_from_be_def
      decode_payload_def life_codec_def handshake_codec_def)

lemma life_credentials: "credentials_given example_agent_env (Some ''u'') (Some ''p'')"
  by (simp add: credentials_given_def blank_def trim_def trim_matches_def trim_end_matches_def
      trim_start_def is_whitespace_def)

lemma life_connect:
  "connect life_codec example_agent_env 1 ''t'' (\<lambda>_. Some [WsBinary [1, 1, 1, 11, 0, 0, 0, 1, 66]])
     (WebSocketConnection_new 1 1 (ag_fs example_agent)) = Ok (life_start 0)"
proof -
  have "Frame_encode life_codec (Frame_from_node (NAuth ''t'' 1 (ae_version example_agent_env))) =
      Ok [1, 1, 1, 10, 0, 0, 0, 1, 65]"
    by (simp add: Frame_encode_def encode_parts_def Frame_from_node_def life_codec_def handshake_codec_def
        example_agent_env_def FRAME_VERSION_def u32_to_be_def)
  moreover have "read_auth_response life_codec [WsBinary [1, 1, 1, 11, 0, 0, 0, 1, 66]] = Ok (1, ''1.0'')"
    by (simp add: read_auth_response_def read_next_frame_def life_decode)
  ultimately show ?thesis
    by (simp add: connect_def agent_handshake_def life_start_def example_agent_simps)
qed

text \<open>The message opens an SSH tunnel.\<close>

definition opened_agent :: "(mem_fs, string) agent" where
  "opened_agent =
     fst (start_ssh_tunnel 1 5 (given_auth example_agent_env (Some ''u'') (Some ''p'')) None example_agent)"

lemma life_opens:
  "life_step mem_sftp example_ssh life_codec example_agent_env 1 (life_start 0) ((life_start 0)\<lparr>co_agent := opened_agent, co_tunnels := {(5, 1)}\<rparr>)"
proof -
  have a: "co_agent (life_start 0) = example_agent"
    by (simp add: life_start_def example_agent_simps)
  have "reader_step mem_sftp life_codec example_agent_env 1 0 (WsBinary [1, 1, 1, 20, 0, 0, 0, 1, 67])
      (co_agent (life_start 0)) =
      (opened_agent, Continue (Some (snd (start_ssh_tunnel 1 5 (given_auth example_agent_env (Some ''u'') (Some ''p'')) None
         example_agent))))"
    unfolding a by (simp add: reader_step_def life_decode handle_open_tunnel_given [OF life_credentials] case_prod_unfold
        opened_agent_def)
  from life_act.reads [OF _ this, of example_ssh] show ?thesis
    unfolding spawned_start by (intro life_stepI) (simp add: life_start_def example_agent_simps)
qed

theorem no_tunnel_task_lost_witness:
  "\<exists>y. (life_step mem_sftp example_ssh life_codec example_agent_env 1)\<^sup>*\<^sup>* (life_start 0) y \<and>
     co_phase y = EndedByReader \<and> ag_next_chan (co_agent y) = 1 \<and> ag_stopped (co_agent y) 0"
proof -
  let ?step = "life_step mem_sftp example_ssh life_codec example_agent_env 1"
  let ?y1 = "(life_start 0)\<lparr>co_agent := opened_agent, co_tunnels := {(5, 1)}\<rparr>"
  let ?y2 = "?y1\<lparr>co_reader := False\<rparr>"
  let ?y3 = "?y2\<lparr>co_agent := close_everything mem_sftp (co_agent ?y2), co_phase := EndedByReader\<rparr>"
  have "?step (life_start 0) ?y1"
    by (rule life_opens)
  moreover have "?step ?y1 ?y2"
    by (rule life_stepI, rule life_act.stream_end) (simp add: life_start_def)
  moreover have "?step ?y2 ?y3"
    by (rule life_stepI, rule life_act.reader_ended) (simp_all add: life_start_def)
  ultimately have r: "?step\<^sup>*\<^sup>* (life_start 0) ?y3"
    by (meson converse_rtranclp_into_rtranclp r_into_rtranclp)
  have n: "ag_next_chan (co_agent ?y3) = 1"
    by (simp add: close_everything_def Let_def agent_simps opened_agent_def start_ssh_tunnel_def
        generate_session_id_def example_agent_simps)
  show ?thesis
    using no_tunnel_task_lost [OF life_connect r] r n by (intro exI [of _ ?y3]) simp
qed


end
