(* ===== verification/Agent_Frames.thy ===== *)
theory Agent_Frames
  imports Agent_Life
begin

text \<open>
  The types of what the agent sends: of the frames of the protocol, those an agent may put in
  its outgoing queue, and that no task of a connection puts any other there. Also, that the whole run
  of a tunnel task is a sequence of the steps the interleavings are made of.
\<close>

section \<open>Tunnel tasks as sequences of steps\<close>

lemma ssh_loop_steps:
  assumes "(cid, sid) \<in> T"
  shows "(task_step S E C T)\<^sup>*\<^sup>* a (fst (ssh_loop E name sid evs a))"
proof (induction evs arbitrary: a)
  case (Cons ev evs)
  have "task_step S E C T a (fst (ssh_step E name sid ev a))"
    using assms by (rule task_step.ssh_event)
  then show ?case
    using Cons.IH [of "fst (ssh_step E name sid ev a)"]
    by (auto simp: case_prod_unfold split: bool.split intro: converse_rtranclp_into_rtranclp)
qed simp

lemma sftp_loop_steps:
  assumes "(cid, sid) \<in> T"
  shows "sftp_loop S cid sid cmds a = Some a' \<Longrightarrow> (task_step S E C T)\<^sup>*\<^sup>* a a'"
proof (induction cmds arbitrary: a)
  case (Cons x cmds)
  obtain now cmd where x: "x = (now, cmd)"
    by (cases x)
  obtain a1 where a1: "sftp_command S now cid sid cmd a = Some a1" "sftp_loop S cid sid cmds a1 = Some a'"
    using Cons.prems by (auto simp: x split: option.splits)
  then have "task_step S E C T a a1"
    using assms by (blast intro: task_step.sftp_event)
  then show ?case
    using Cons.IH [OF a1(2)] by (rule converse_rtranclp_into_rtranclp)
qed simp

lemma report_steps:
  assumes "(task_step S E C T)\<^sup>*\<^sup>* a b" "(cid, sid) \<in> T" "report_frame cid sid d"
  shows "(task_step S E C T)\<^sup>*\<^sup>* a (send_frame_data d b)"
  using assms(1) task_step.report [OF assms(2,3)] by (rule rtranclp.rtrancl_into_rtrancl)

lemma ssh_connect_steps:
  assumes "(cid, sid) \<in> T"
  shows "(task_step S E C T)\<^sup>*\<^sup>* a (fst (ssh_connect E env auth name cid sid mid evs a))"
proof -
  let ?a = "send_frame_data (NTunnelOpened (Protocol_as_u8 SSH) cid sid mid) a"
  have "(task_step S E C T)\<^sup>*\<^sup>* a ?a"
    by (rule report_steps [OF _ assms]) simp_all
  then have "(task_step S E C T)\<^sup>*\<^sup>* a (fst (ssh_loop E name sid evs ?a))"
    using ssh_loop_steps [OF assms] by (rule rtranclp_trans)
  then show ?thesis
    by (simp add: ssh_connect_def Let_def case_prod_unfold split: outcome.split)
qed

text \<open>A task reports under its own number.\<close>

lemma ssh_connect_ids:
  assumes "ssh_connect E env auth name cid sid mid evs a = (a1, outs, r)"
  shows "r = Ok sid' \<Longrightarrow> sid' = sid" "r = Err (fid, err) \<Longrightarrow> fid = SessionId sid"
  using assms by (auto simp: ssh_connect_def Let_def split: outcome.splits prod.splits)

lemma sftp_connect_ids:
  assumes "sftp_connect E S env auth cid sid mid cmds a = Some (a1, r)"
  shows "r = Ok sid' \<Longrightarrow> sid' = sid" "r = Err (fid, err) \<Longrightarrow> fid = SessionId sid"
  using assms by (auto simp: sftp_connect_def Let_def split: outcome.splits option.splits)

lemma ssh_task_steps:
  assumes "(cid, sid) \<in> T"
  shows "(task_step S E C T)\<^sup>*\<^sup>* a (fst (ssh_task E env auth name cid sid mid evs a))"
proof -
  obtain a1 outs r where c: "ssh_connect E env auth name cid sid mid evs a = (a1, outs, r)"
    by (cases "ssh_connect E env auth name cid sid mid evs a")
  then have "(task_step S E C T)\<^sup>*\<^sup>* a a1"
    using ssh_connect_steps [OF assms, of S E C a env auth name mid evs] by simp
  then show ?thesis
    using c assms ssh_connect_ids [OF c] by (auto simp: ssh_task_def split: outcome.split intro: report_steps)
qed

lemma sftp_connect_steps:
  assumes "(cid, sid) \<in> T" "sftp_connect E S env auth cid sid mid cmds a = Some (a', r)"
  shows "(task_step S E C T)\<^sup>*\<^sup>* a a'"
proof -
  let ?a = "send_frame_data (NTunnelOpened (Protocol_as_u8 SFTP) cid sid mid) a"
  have "(task_step S E C T)\<^sup>*\<^sup>* a ?a"
    by (rule report_steps [OF _ assms(1)]) simp_all
  moreover have "(task_step S E C T)\<^sup>*\<^sup>* ?a a'"
    using assms(2) sftp_loop_steps [OF assms(1), of S cmds ?a a' E C]
    by (auto simp: sftp_connect_def Let_def split: outcome.splits option.splits)
  ultimately show ?thesis
    by (rule rtranclp_trans)
qed

lemma sftp_task_steps:
  assumes "(cid, sid) \<in> T" "sftp_task E S env auth cid sid mid cmds a = Some a'"
  shows "(task_step S E C T)\<^sup>*\<^sup>* a a'"
  using assms sftp_connect_steps [OF assms(1), of E S env auth mid cmds a] sftp_connect_ids [of E S env auth cid sid mid cmds a]
  by (auto simp: sftp_task_def split: option.splits prod.splits outcome.splits intro: report_steps)

section \<open>The frames of an agent\<close>

text \<open>
  An answer goes to the session it speaks of; an error may also go to a client that has no session yet.
\<close>

fun answers :: "WebFrameId \<Rightarrow> WebFrameData \<Rightarrow> bool" where
  "answers fid (WTunnelData protocol name sid data) \<longleftrightarrow> protocol = 0 \<and> fid = SessionId sid"
| "answers fid (WSFTPListItems path sid dir mid) \<longleftrightarrow> fid = SessionId sid"
| "answers fid (WSFTPDownloadStartResponse sid mid response) \<longleftrightarrow> fid = SessionId sid"
| "answers fid (WSFTPDownloadChunk sid mid chunk) \<longleftrightarrow> fid = SessionId sid"
| "answers fid (WSFTPUploadStartResponse sid mid response) \<longleftrightarrow> fid = SessionId sid"
| "answers fid (WSFTPUploadChunkAck sid upload_id chunk_index) \<longleftrightarrow> fid = SessionId sid"
| "answers fid (WError kind err mid) \<longleftrightarrow> True"
| "answers fid _ \<longleftrightarrow> False"

fun agent_frame :: "NodeFrameData \<Rightarrow> bool" where
  "agent_frame (NHeartbeat stats sent_at) \<longleftrightarrow> True"
| "agent_frame (NTunnelOpened protocol cid sid mid) \<longleftrightarrow> protocol \<in> {0, 1}"
| "agent_frame (NTunnelClosed protocol cid sid mid) \<longleftrightarrow> protocol \<in> {0, 1}"
| "agent_frame (NWebFrame w fid) \<longleftrightarrow> answers fid w"
| "agent_frame _ \<longleftrightarrow> False"

definition tx_all :: "(NodeFrameData \<Rightarrow> bool) \<Rightarrow> ('f, 'h) agent \<Rightarrow> bool" where
  "tx_all P a \<longleftrightarrow> (\<forall>frame \<in> set (ch_queue (ag_tx a)). \<exists>d. frame = Frame_from_node d \<and> P d)"

lemma tx_all_new: "tx_all P (WebSocketConnection_new sc ic fs)"
  by (simp add: tx_all_def WebSocketConnection_new_def chan_simps)

lemma tx_all_cong: "tx_all P a \<Longrightarrow> ag_tx a' = ag_tx a \<Longrightarrow> tx_all P a'"
  by (simp add: tx_all_def)

lemma tx_all_mono: "tx_all P a \<Longrightarrow> (\<And>d. P d \<Longrightarrow> Q d) \<Longrightarrow> tx_all Q a"
  unfolding tx_all_def by blast

lemma tx_all_send:
  "tx_all P a \<Longrightarrow> P d \<Longrightarrow> tx_all P (send_frame_data d a)"
  "tx_all P a \<Longrightarrow> P d \<Longrightarrow> tx_all P (send_await d a)"
  by (auto simp: tx_all_def send_frame_data_queue send_await_queue)

text \<open>What beside sending changes the agent leaves the queue alone.\<close>

lemma fold_tx: "(\<And>x a. ag_tx (f x a) = ag_tx a) \<Longrightarrow> ag_tx (fold f xs a) = ag_tx a"
  by (induction xs arbitrary: a) simp_all

lemma tx_untouched [agent_simps]:
  "ag_tx (fst (generate_id a)) = ag_tx a"
  "ag_tx (cleanup_abandoned_uploads S now a) = ag_tx a"
  "ag_tx (cleanup_abandoned_downloads S now a) = ag_tx a"
  "ag_tx (handle_shutdown h a) = ag_tx a"
  by (simp_all add: generate_id_def cleanup_abandoned_uploads_def cleanup_abandoned_downloads_def handle_shutdown_def
      agent_simps)

lemma tx_untouched_sessions [agent_simps]:
  "ag_tx (insert_session k h a) = ag_tx a"
  "ag_tx (close_session k a) = ag_tx a"
  "ag_tx (fst (forward_ssh cid sid cmd a)) = ag_tx a"
  "ag_tx (fst (forward_sftp cid sid cmd' a)) = ag_tx a"
  by (simp_all add: insert_session_def close_session_def forward_ssh_def forward_sftp_def Let_def agent_simps
      split: option.split SessionHandle.split SessionCommand.split prod.split)

lemma tx_untouched_tunnels [agent_simps]:
  "ag_tx (fst (start_ssh_tunnel n cid auth mid a)) = ag_tx a"
  "ag_tx (fst (start_sftp_tunnel cid auth mid a)) = ag_tx a"
  "ag_tx (close_everything S a) = ag_tx a"
  "ag_tx (close_downloads_for_cid cid (close_uploads_for_cid S cid (close_tunnels_for_cid cid a))) = ag_tx a"
  by (simp_all add: start_ssh_tunnel_def start_sftp_tunnel_def generate_session_id_def close_everything_def Let_def
      close_downloads_for_cid_def close_uploads_for_cid_def close_tunnels_for_cid_def agent_simps
      fold_tx [of close_session])

lemma tx_all_fields:
  "tx_all P (a\<lparr>ag_fs := fs\<rparr>) = tx_all P a"
  "tx_all P (a\<lparr>ag_uploads := us\<rparr>) = tx_all P a"
  "tx_all P (a\<lparr>ag_downloads := ds\<rparr>) = tx_all P a"
  "tx_all P (fst (generate_id a)) = tx_all P a"
  "tx_all P (cleanup_abandoned_uploads S now a) = tx_all P a"
  "tx_all P (cleanup_abandoned_downloads S now a) = tx_all P a"
  by (simp_all add: tx_all_def agent_simps)

text \<open>
  A condition on outgoing frames that the tasks of a connection meet when the tunnels in \<open>T\<close> were
  started: it allows heartbeats, and what the task of a tunnel in \<open>T\<close> reports and answers.
\<close>

locale frame_policy =
  fixes T :: "(uuid \<times> u32) set"
    and P :: "NodeFrameData \<Rightarrow> bool"
  assumes heartbeats: "P (NHeartbeat stats sent_at)"
    and reports: "(cid, sid) \<in> T \<Longrightarrow> report_frame cid sid d \<Longrightarrow> P d"
    and answered: "(cid, sid) \<in> T \<Longrightarrow> answers (SessionId sid) w \<Longrightarrow> P (NWebFrame w (SessionId sid))"
begin

lemma tx_all_transfers:
  assumes "tx_all P a" "(cid, sid) \<in> T"
  shows "tx_all P (start_upload S now upload cid sid mid a)"
    and "tx_all P (start_download S now download cid sid mid a)"
    and "tx_all P (download_file_chunk S now cid sid mid download_id chunk_index a)"
    and "tx_all P (delete_file S data cid sid mid a)"
    and "tx_all P (send_directory_listing S path sid mid a)"
    and "upload_file_chunk S now chunk cid sid mid a = Some a' \<Longrightarrow> tx_all P a'"
  using assms(1) answered [OF assms(2)]
  by (auto simp: start_upload_def start_download_def download_file_chunk_def delete_file_def
      send_directory_listing_def upload_file_chunk_def append_chunk_def finish_upload_def Let_def case_prod_unfold
      tx_all_fields tx_all_send split: outcome.splits option.splits list.splits if_splits)

lemma tx_all_command: "sftp_command S now cid sid cmd a = Some a' \<Longrightarrow> (cid, sid) \<in> T \<Longrightarrow> tx_all P a \<Longrightarrow> tx_all P a'"
  by (cases cmd) (auto simp: tx_all_transfers)

lemma tx_all_ssh_step:
  assumes "tx_all P a" "(cid, sid) \<in> T"
  shows "tx_all P (fst (ssh_step E name sid ev a))"
  using assms(1) answered [OF assms(2)]
  by (cases "(E, name, sid, ev, a)" rule: ssh_step.cases) (simp_all add: send_tunnel_data_def tx_all_send)

lemma tx_all_task:
  assumes "task_step S E C T a a'" "tx_all P a"
  shows "tx_all P a'"
  using assms(1)
proof (cases rule: task_step.cases)
  case (heartbeat timeout now stats now')
  then show ?thesis
    using assms(2) by (simp add: heartbeat_tick_def Let_def tx_all_send heartbeats split: option.split)
next
  case (written bs)
  then show ?thesis
    using assms(2) by (auto simp: tx_all_def write_next_def chan_recv_def split: option.splits list.splits)
qed (use assms(2) in \<open>auto simp: tx_all_ssh_step tx_all_command tx_all_fields cleanup_tick_def
    intro: tx_all_send reports tx_all_cong\<close>)

end

text \<open>The reader answers an \<open>OpenTunnel\<close> without credentials itself.\<close>

lemma tx_all_message:
  assumes "tx_all P a"
    and "\<And>protocol cid username password mid kind err. d = NOpenTunnel protocol cid username password mid \<Longrightarrow>
      P (NWebFrame (WError kind err mid) (ConnectionId cid))"
  shows "tx_all P (fst (handle_message S env node_id now d a))"
proof (cases d)
  case (NOpenTunnel protocol cid username password mid)
  then show ?thesis
    using assms(1) assms(2) [OF NOpenTunnel]
    by (cases "credentials_given env username password")
      (auto simp: handle_open_tunnel_given handle_open_tunnel_missing missing_credential_reply_def case_prod_unfold
        send_requires_username_error_def send_requires_password_error_def agent_simps
        intro: tx_all_send tx_all_cong)
qed (rule tx_all_cong [OF assms(1)]; simp add: send_defs agent_simps)+

text \<open>
  A step of a connection, whichever task takes it, keeps the condition: for what a new tunnel may say it
  need not hold before the step that starts it.
\<close>

lemma life_act_tx_all:
  assumes "life_act S E C env node_id e y y'" "frame_policy (co_tunnels y) P" "tx_all P (co_agent y)"
    and "\<And>bs frame protocol cid username password mid kind err. e = Some (WsBinary bs) \<Longrightarrow> Frame_decode Native64 C bs = Ok frame \<Longrightarrow>
      fr_data frame = Node (NOpenTunnel protocol cid username password mid) \<Longrightarrow>
      P (NWebFrame (WError kind err mid) (ConnectionId cid))"
  shows "tx_all P (co_agent y')"
proof -
  have rd: "tx_all P a'" if "reader_step S C env node_id now ev (co_agent y) = (a', r)" "e = Some ev" for now ev a' r
  proof (cases "\<exists>bs frame d. ev = WsBinary bs \<and> Frame_decode Native64 C bs = Ok frame \<and> fr_data frame = Node d")
    case True
    then obtain bs frame d where d: "ev = WsBinary bs" "Frame_decode Native64 C bs = Ok frame" "fr_data frame = Node d"
      by blast
    then have "a' = fst (handle_message S env node_id now d (co_agent y))"
      using that(1) by (auto simp: reader_step_def split: outcome.splits prod.splits)
    then show ?thesis
      using tx_all_message [OF assms(3), of d S env node_id now] assms(4) d that(2) by blast
  next
    case False
    then show ?thesis
      using that(1) assms(3) by (auto simp: reader_step_def split: ws_event.splits outcome.splits FrameData.splits)
  qed
  from assms(1) show ?thesis
    by (cases rule: life_act.cases)
      (use assms(3) rd in \<open>auto intro: frame_policy.tx_all_task [OF assms(2)] tx_all_cong simp: agent_simps\<close>)
qed

lemma write_next_tx_all:
  assumes "write_next C a = Some (a', Some bs)" "tx_all P a"
  shows "\<exists>d. P d \<and> Frame_encode C (Frame_from_node d) = Ok bs"
  using assms by (auto simp: write_next_def tx_all_def chan_recv_def split: option.splits outcome.splits list.splits)

section \<open>Every frame is one an agent may send\<close>

lemma report_frame_typed: "report_frame cid sid d \<Longrightarrow> agent_frame d"
  by (cases "(cid, sid, d)" rule: report_frame.cases) auto

interpretation typed: frame_policy T agent_frame for T
  by unfold_locales (auto intro: report_frame_typed)

lemma life_act_tx_typed:
  assumes "life_act S E C env node_id e y y'" "tx_all agent_frame (co_agent y)"
  shows "tx_all agent_frame (co_agent y')"
  by (rule life_act_tx_all [OF assms(1) typed.frame_policy_axioms assms(2)]) simp

end
