(* ===== verification/Agent_Host.thy ===== *)
theory Agent_Host
  imports Agent_Frames
begin

text \<open>
  What the agent promises, as an abstract transition system: a host that knows, of every session, only
  its kind and the commands that wait for it, oldest first. Every run of a connection, with all
  its tasks, is a run of the host.
\<close>

section \<open>The contract\<close>

datatype inbox = Shell "SSHCommand list" | Files "SFTPCommand list"

type_synonym host = "uuid \<times> u32 \<Rightarrow> inbox option"

text \<open>
  A session is opened with an empty inbox, given a command at the end, or takes the oldest; a client
  leaves with all its sessions; the connection ends with all sessions.
\<close>

inductive host_step :: "host \<Rightarrow> host \<Rightarrow> bool" where
  opens: "i = Shell [] \<or> i = Files [] \<Longrightarrow> host_step h (h(k \<mapsto> i))"
| shell_given: "h k = Some (Shell q) \<Longrightarrow> host_step h (h(k \<mapsto> Shell (q @ [cmd])))"
| files_given: "h k = Some (Files q') \<Longrightarrow> host_step h (h(k \<mapsto> Files (q' @ [cmd'])))"
| shell_takes: "h k = Some (Shell (cmd # q)) \<Longrightarrow> host_step h (h(k \<mapsto> Shell q))"
| files_takes: "h k = Some (Files (cmd' # q')) \<Longrightarrow> host_step h (h(k \<mapsto> Files q'))"
| leaves: "host_step h (\<lambda>k. if fst k = cid then None else h k)"
| ends: "host_step h (\<lambda>k. None)"

definition host_of :: "('f, 'h) agent \<Rightarrow> host" where
  "host_of a k =
     (case ssh_input a k of
        Some q \<Rightarrow> Some (Shell q)
      | None \<Rightarrow> map_option Files (sftp_input a k))"

section \<open>What the steps of a connection do to the inboxes\<close>

lemma inputs_registered:
  "ssh_input a k = Some q \<Longrightarrow> dm_get (ag_sessions a) k \<noteq> None"
  "sftp_input a k = Some q' \<Longrightarrow> dm_get (ag_sessions a) k \<noteq> None"
  by (auto simp: ssh_input_def sftp_input_def split: option.splits)

lemma start_tunnel_kinds:
  "sftp_input (fst (start_ssh_tunnel n cid auth mid a)) (cid, ag_session_counter a) = None"
  "ssh_input (fst (start_sftp_tunnel cid auth mid a)) (cid, ag_session_counter a) = None"
  by (simp_all add: start_ssh_tunnel_def start_sftp_tunnel_def generate_session_id_def Let_def ssh_input_def
      sftp_input_def agent_simps dm_simps)

lemma start_tunnel_inputs:
  assumes "agent_wf a"
  shows "k \<noteq> (cid, ag_session_counter a) \<Longrightarrow>
      dm_get (ag_sessions (fst (start_ssh_tunnel n cid auth mid a))) k = dm_get (ag_sessions a) k"
    and "ssh_input (fst (start_ssh_tunnel n cid auth mid a)) k =
      (if k = (cid, ag_session_counter a) then Some [] else ssh_input a k)"
    and "sftp_input (fst (start_ssh_tunnel n cid auth mid a)) k =
      (if k = (cid, ag_session_counter a) then None else sftp_input a k)"
    and "k \<noteq> (cid, ag_session_counter a) \<Longrightarrow>
      dm_get (ag_sessions (fst (start_sftp_tunnel cid auth mid a))) k = dm_get (ag_sessions a) k"
    and "ssh_input (fst (start_sftp_tunnel cid auth mid a)) k =
      (if k = (cid, ag_session_counter a) then None else ssh_input a k)"
    and "sftp_input (fst (start_sftp_tunnel cid auth mid a)) k =
      (if k = (cid, ag_session_counter a) then Some [] else sftp_input a k)"
  using start_ssh_tunnel_effect [OF assms] start_sftp_tunnel_effect [OF assms] start_tunnel_kinds by auto

lemma reader_step_message:
  assumes "reader_step S C env node_id now (WsBinary bs) a = (a', r)" "r = Continue t \<or> r = Stop"
  shows "a' = a \<or> (\<exists>frame d. Frame_decode Native64 C bs = Ok frame \<and> fr_data frame = Node d \<and>
    a' = fst (handle_message S env node_id now d a))"
  using assms by (auto simp: reader_step_def split: outcome.splits FrameData.splits prod.splits)

lemma inputs_exclusive: "ssh_input a k = Some q \<Longrightarrow> sftp_input a k = None"
  by (auto simp: ssh_input_def sftp_input_def split: option.splits SessionHandle.splits)

lemma host_of_cong:
  "(\<And>k. ssh_input a' k = ssh_input a k) \<Longrightarrow> (\<And>k. sftp_input a' k = sftp_input a k) \<Longrightarrow> host_of a' = host_of a"
  by (simp add: host_of_def fun_eq_iff split: option.split)

lemma host_of_None: "host_of a k = None \<longleftrightarrow> dm_get (ag_sessions a) k = None"
  by (auto simp: host_of_def ssh_input_def sftp_input_def split: option.splits SessionHandle.splits)

lemma host_start:
  assumes "agent_wf a"
  shows "host_step (host_of a) (host_of (fst (start_ssh_tunnel n cid auth mid a)))"
    and "host_step (host_of a) (host_of (fst (start_sftp_tunnel cid auth mid a)))"
proof -
  have "host_of (fst (start_ssh_tunnel n cid auth mid a)) = (host_of a)((cid, ag_session_counter a) \<mapsto> Shell [])"
    "host_of (fst (start_sftp_tunnel cid auth mid a)) = (host_of a)((cid, ag_session_counter a) \<mapsto> Files [])"
    by (auto simp: fun_eq_iff host_of_def start_tunnel_inputs [OF assms] split: option.split)
  then show "host_step (host_of a) (host_of (fst (start_ssh_tunnel n cid auth mid a)))"
    and "host_step (host_of a) (host_of (fst (start_sftp_tunnel cid auth mid a)))"
    by (auto intro: host_step.opens)
qed

lemma host_forward:
  assumes "agent_wf a"
  shows "host_step\<^sup>=\<^sup>= (host_of a) (host_of (fst (forward_ssh cid sid cmd a)))"
    and "host_step\<^sup>=\<^sup>= (host_of a) (host_of (fst (forward_sftp cid sid cmd' a)))"
proof -
  let ?k = "(cid, sid)"
  show "host_step\<^sup>=\<^sup>= (host_of a) (host_of (fst (forward_ssh cid sid cmd a)))"
  proof (cases "\<exists>q. ssh_input a ?k = Some q \<and> snd (forward_ssh cid sid cmd a) = Ok ()")
    case True
    then obtain q where q: "ssh_input a ?k = Some q" "snd (forward_ssh cid sid cmd a) = Ok ()"
      by blast
    then have "host_of (fst (forward_ssh cid sid cmd a)) = (host_of a)(?k \<mapsto> Shell (q @ [cmd]))"
      by (auto simp: fun_eq_iff host_of_def ssh_input_forward [OF assms] ssh_input_forward_sftp split: option.split)
    then show ?thesis
      using host_step.shell_given [of "host_of a" ?k q cmd] q(1) by (simp add: host_of_def)
  next
    case False
    then have "host_of (fst (forward_ssh cid sid cmd a)) = host_of a"
      by (intro host_of_cong) (auto simp: ssh_input_forward [OF assms] ssh_input_forward_sftp split: option.splits)
    then show ?thesis
      by simp
  qed
  show "host_step\<^sup>=\<^sup>= (host_of a) (host_of (fst (forward_sftp cid sid cmd' a)))"
  proof (cases "\<exists>q. sftp_input a ?k = Some q \<and> snd (forward_sftp cid sid cmd' a) = Ok ()")
    case True
    then obtain q where q: "sftp_input a ?k = Some q" "snd (forward_sftp cid sid cmd' a) = Ok ()"
      by blast
    then have n: "ssh_input a ?k = None"
      using inputs_exclusive [of a ?k] by (cases "ssh_input a ?k") auto
    with q have "host_of (fst (forward_sftp cid sid cmd' a)) = (host_of a)(?k \<mapsto> Files (q @ [cmd']))"
      by (auto simp: fun_eq_iff host_of_def sftp_input_forward [OF assms] ssh_input_forward_sftp split: option.split)
    then show ?thesis
      using host_step.files_given [of "host_of a" ?k q cmd'] q(1) n by (simp add: host_of_def)
  next
    case False
    then have "host_of (fst (forward_sftp cid sid cmd' a)) = host_of a"
      by (intro host_of_cong) (auto simp: sftp_input_forward [OF assms] ssh_input_forward_sftp split: option.splits)
    then show ?thesis
      by simp
  qed
qed

lemma host_same_queues:
  assumes "ag_sessions a' = ag_sessions a" "ag_ssh_stdin a' = ag_ssh_stdin a" "ag_sftp_stdin a' = ag_sftp_stdin a"
  shows "host_of a' = host_of a"
  using assms by (intro host_of_cong) (simp_all add: ssh_input_def sftp_input_def split: option.split SessionHandle.split)

lemma host_send: "host_of (send_frame_data d a) = host_of a"
  by (rule host_same_queues) (simp_all add: agent_simps)

lemma host_message:
  assumes "agent_wf a"
  shows "host_step\<^sup>=\<^sup>= (host_of a) (host_of (fst (handle_message S env node_id now d a)))"
proof (cases d)
  case (NOpenTunnel protocol cid username password mid)
  then show ?thesis
    using host_start [OF assms]
    by (cases "credentials_given env username password")
      (auto simp: handle_open_tunnel_given handle_open_tunnel_missing missing_credential_reply_def case_prod_unfold
        send_requires_username_error_def send_requires_password_error_def host_send)
next
  case (NConnectionDisconnect cid)
  let ?a' = "close_downloads_for_cid cid (close_uploads_for_cid S cid (close_tunnels_for_cid cid a))"
  have "host_of ?a' k = (if fst k = cid then None else host_of a k)" for k
    using close_cid_view(1) [OF assms, of cid S k]
    by (auto simp: host_of_def client_view_def split: if_splits option.split)
  then have "host_of ?a' = (\<lambda>k. if fst k = cid then None else host_of a k)"
    by blast
  then show ?thesis
    using NConnectionDisconnect host_step.leaves [of "host_of a" cid] by simp
next
  case (NHeartbeatAck sent_at received)
  have "host_of (a\<lparr>ag_last_heartbeat := t\<rparr>) = host_of a" for t
    by (rule host_same_queues) simp_all
  with NHeartbeatAck show ?thesis
    by simp
qed (use host_forward [OF assms] in \<open>simp_all add: send_defs\<close>)

text \<open>Serving a command leaves the channels alone.\<close>

lemma transfers_keep_channels:
  "ag_ssh_stdin (start_upload S now upload cid sid mid a) = ag_ssh_stdin a \<and>
     ag_sftp_stdin (start_upload S now upload cid sid mid a) = ag_sftp_stdin a"
  "ag_ssh_stdin (start_download S now download cid sid mid a) = ag_ssh_stdin a \<and>
     ag_sftp_stdin (start_download S now download cid sid mid a) = ag_sftp_stdin a"
  "ag_ssh_stdin (download_file_chunk S now cid sid mid download_id chunk_index a) = ag_ssh_stdin a \<and>
     ag_sftp_stdin (download_file_chunk S now cid sid mid download_id chunk_index a) = ag_sftp_stdin a"
  "ag_ssh_stdin (delete_file S data cid sid mid a) = ag_ssh_stdin a \<and>
     ag_sftp_stdin (delete_file S data cid sid mid a) = ag_sftp_stdin a"
  "ag_ssh_stdin (send_directory_listing S path sid mid a) = ag_ssh_stdin a \<and>
     ag_sftp_stdin (send_directory_listing S path sid mid a) = ag_sftp_stdin a"
  "upload_file_chunk S now chunk cid sid mid a = Some a' \<Longrightarrow>
     ag_ssh_stdin a' = ag_ssh_stdin a \<and> ag_sftp_stdin a' = ag_sftp_stdin a"
  by (auto simp: start_upload_def start_download_def download_file_chunk_def delete_file_def send_directory_listing_def
      upload_file_chunk_def append_chunk_def finish_upload_def cleanup_abandoned_uploads_def cleanup_abandoned_downloads_def Let_def
      case_prod_unfold agent_simps split: outcome.splits option.splits list.splits if_splits)

text \<open>A tunnel task that takes a command takes the oldest of its own session, if it still has one.\<close>

lemma host_take_ssh:
  assumes "agent_wf a" "chan_recv (ag_ssh_stdin a c) = Some (cmd, ch)"
  shows "host_step\<^sup>=\<^sup>= (host_of a) (host_of (a\<lparr>ag_ssh_stdin := (ag_ssh_stdin a)(c := ch)\<rparr>))"
proof (cases "\<exists>k. dm_get (ag_sessions a) k = Some (SshHandle c)")
  case True
  then obtain k where k: "dm_get (ag_sessions a) k = Some (SshHandle c)"
    by blast
  have others: "dm_get (ag_sessions a) k' \<noteq> Some (SshHandle c)" if "k' \<noteq> k" for k'
    using agent_wf_dests(5) [OF assms(1) k, of k' "SshHandle c"] that by auto
  obtain q where q: "ch_queue (ag_ssh_stdin a c) = cmd # q" "ch_queue ch = q"
    using assms(2) by (auto simp: chan_recv_def split: list.splits)
  have h: "host_of a k = Some (Shell (cmd # q))"
    by (simp add: host_of_def ssh_input_def k q)
  have "host_of (a\<lparr>ag_ssh_stdin := (ag_ssh_stdin a)(c := ch)\<rparr>) = (host_of a)(k \<mapsto> Shell q)"
    using others by (auto simp: fun_eq_iff host_of_def ssh_input_def sftp_input_def k q
        split: option.split SessionHandle.split)
  then show ?thesis
    using host_step.shell_takes [of "host_of a" k cmd q] h by simp
next
  case False
  then have "host_of (a\<lparr>ag_ssh_stdin := (ag_ssh_stdin a)(c := ch)\<rparr>) = host_of a"
    by (intro host_of_cong) (auto simp: ssh_input_def sftp_input_def split: option.split SessionHandle.split)
  then show ?thesis
    by simp
qed

lemma host_take_sftp:
  assumes "agent_wf a" "chan_recv (ag_sftp_stdin a c) = Some (cmd, ch)"
  shows "host_step\<^sup>=\<^sup>= (host_of a) (host_of (a\<lparr>ag_sftp_stdin := (ag_sftp_stdin a)(c := ch)\<rparr>))"
proof (cases "\<exists>k. dm_get (ag_sessions a) k = Some (SftpHandle c)")
  case True
  then obtain k where k: "dm_get (ag_sessions a) k = Some (SftpHandle c)"
    by blast
  have others: "dm_get (ag_sessions a) k' \<noteq> Some (SftpHandle c)" if "k' \<noteq> k" for k'
    using agent_wf_dests(5) [OF assms(1) k, of k' "SftpHandle c"] that by auto
  obtain q where q: "ch_queue (ag_sftp_stdin a c) = cmd # q" "ch_queue ch = q"
    using assms(2) by (auto simp: chan_recv_def split: list.splits)
  have h: "host_of a k = Some (Files (cmd # q))"
    by (simp add: host_of_def ssh_input_def sftp_input_def k q)
  have "host_of (a\<lparr>ag_sftp_stdin := (ag_sftp_stdin a)(c := ch)\<rparr>) = (host_of a)(k \<mapsto> Files q)"
    using others by (auto simp: fun_eq_iff host_of_def ssh_input_def sftp_input_def k q
        split: option.split SessionHandle.split)
  then show ?thesis
    using host_step.files_takes [of "host_of a" k cmd q] h by simp
next
  case False
  then have "host_of (a\<lparr>ag_sftp_stdin := (ag_sftp_stdin a)(c := ch)\<rparr>) = host_of a"
    by (intro host_of_cong) (auto simp: ssh_input_def sftp_input_def split: option.split SessionHandle.split)
  then show ?thesis
    by simp
qed

lemma host_command:
  assumes "sftp_command S now cid sid cmd a = Some a'"
  shows "host_of a' = host_of a"
proof -
  have "ag_ssh_stdin a' = ag_ssh_stdin a \<and> ag_sftp_stdin a' = ag_sftp_stdin a"
    using assms by (cases cmd) (auto simp: transfers_keep_channels)
  then show ?thesis
    using transfer_only_command [OF assms] by (intro host_same_queues) (simp_all add: transfer_only_def)
qed

lemma host_task:
  assumes "task_step S E C T a a'" "agent_wf a"
  shows "host_step\<^sup>=\<^sup>= (host_of a) (host_of a')"
  using assms(1)
proof (cases rule: task_step.cases)
  case (heartbeat timeout now stats now')
  then show ?thesis
    by (simp add: heartbeat_tick_def Let_def host_send split: option.split)
next
  case (cleanup now)
  have "host_of (cleanup_tick S now a) = host_of a"
    by (rule host_same_queues) (simp_all add: cleanup_tick_def cleanup_abandoned_uploads_def
        cleanup_abandoned_downloads_def agent_simps)
  with cleanup show ?thesis
    by simp
next
  case (written bs)
  then have "host_of a' = host_of a"
    by (intro host_same_queues) (auto simp: write_next_def split: option.splits prod.splits)
  then show ?thesis
    by simp
next
  case (ssh_event cid sid name ev)
  have "host_of (fst (ssh_step E name sid ev a)) = host_of a"
    by (rule host_same_queues) (simp_all add: agent_simps)
  with ssh_event show ?thesis
    by simp
next
  case (task_end c)
  have "host_of a' = host_of a"
    unfolding task_end by (intro host_of_cong)
      (auto simp: ssh_input_def sftp_input_def chan_simps split: option.split SessionHandle.split)
  then show ?thesis
    by simp
next
  case (sftp_event cid sid now cmd)
  then show ?thesis
    by (simp add: host_command)
next
  case (report cid sid d)
  then show ?thesis
    by (simp add: host_send)
qed (use host_take_ssh [OF assms(2)] host_take_sftp [OF assms(2)] in simp_all)

lemma host_life:
  assumes "life_act S E C env node_id e y y'" "life_inv y"
  shows "host_step\<^sup>=\<^sup>= (host_of (co_agent y)) (host_of (co_agent y'))"
proof -
  have wf: "agent_wf (co_agent y)"
    using assms(2) by (simp add: life_inv_def)
  have rd: "host_step\<^sup>=\<^sup>= (host_of (co_agent y)) (host_of a')"
    if "reader_step S C env node_id now ev (co_agent y) = (a', r)" "r = Continue t \<or> r = Stop" for now ev a' r t
  proof (cases "\<exists>bs. ev = WsBinary bs")
    case True
    then show ?thesis
      using reader_step_message that host_message [OF wf] by fastforce
  next
    case False
    then show ?thesis
      using that by (auto simp: reader_step_def split: ws_event.splits)
  qed
  have ce: "host_of (close_everything S (co_agent y)) = (\<lambda>k. None)"
    using close_everything_complete [OF wf] by (simp add: fun_eq_iff host_of_None)
  from assms(1) show ?thesis
    by (cases rule: life_act.cases) (use rd host_task [OF _ wf] host_step.ends in \<open>auto simp: ce\<close>)
qed

interpretation contract: simulation "life_step S E C env node_id" life_inv host_step "\<lambda>y. host_of (co_agent y)"
  for S E C env node_id
proof
  fix y y' assume "life_step S E C env node_id y y'" "life_inv y"
  then have "host_step\<^sup>=\<^sup>= (host_of (co_agent y)) (host_of (co_agent y'))"
    using host_life unfolding life_step_def by blast
  then show "host_step\<^sup>*\<^sup>* (host_of (co_agent y)) (host_of (co_agent y'))"
    by auto
qed

section \<open>Properties\<close>



end
