(* ===== verification/Network.thy ===== *)
theory Network
  imports Server_Trace Agent_Host
begin

text \<open>
  Server and agent over one websocket: the frames the server writes to the socket of a node are what
  the agent of this node reads, and the other way round. The theory shows that whatever reaches a
  session of a client on the agent was asked for by this client on its own socket of the server.
\<close>

section \<open>What a session is given\<close>

text \<open>The command a message of the server becomes, and the session it is for.\<close>

fun ssh_command :: "NodeFrameData \<Rightarrow> ((uuid \<times> u32) \<times> SSHCommand) option" where
  "ssh_command (NTunnelData protocol cid sid data) =
     (if protocol = Protocol_as_u8 SSH then Some ((cid, sid), SSHData data) else None)"
| "ssh_command (NSSHWindowResize cid sid cols rows w h) = Some ((cid, sid), SSHResize cols rows w h)"
| "ssh_command _ = None"

fun sftp_command_of :: "NodeFrameData \<Rightarrow> ((uuid \<times> u32) \<times> SFTPCommand) option" where
  "sftp_command_of (NSFTPList cid path sid mid) = Some ((cid, sid), SFTPListCmd path mid)"
| "sftp_command_of (NSFTPUploadStart cid sid mid upload) = Some ((cid, sid), SFTPUploadStartCmd upload mid)"
| "sftp_command_of (NSFTPUpload cid sid mid chunk) = Some ((cid, sid), SFTPUploadCmd chunk mid)"
| "sftp_command_of (NSFTPDownloadStart cid sid mid download) = Some ((cid, sid), SFTPDownloadStartCmd download mid)"
| "sftp_command_of (NSFTPDownloadChunkRequest cid sid mid download_id chunk_index) =
     Some ((cid, sid), SFTPDownloadChunkCmd \<lparr>dlc_download_id = download_id, dlc_chunk_index = chunk_index,
        dlc_chunk_size = 0, dlc_data = []\<rparr> mid)"
| "sftp_command_of (NSFTPDownloadChunk cid sid mid chunk) = Some ((cid, sid), SFTPDownloadChunkCmd chunk mid)"
| "sftp_command_of (NSFTPDelete cid sid mid data) = Some ((cid, sid), SFTPDeleteCmd data mid)"
| "sftp_command_of _ = None"

text \<open>Everything a session is and holds stems from messages in \<open>P\<close>.\<close>

definition sourced :: "(NodeFrameData \<Rightarrow> bool) \<Rightarrow> ('f, 'h) agent \<Rightarrow> bool" where
  "sourced P a \<longleftrightarrow>
     (\<forall>cid sid. dm_get (ag_sessions a) (cid, sid) \<noteq> None \<longrightarrow>
        (\<exists>protocol username password mid. P (NOpenTunnel protocol cid username password mid))) \<and>
     (\<forall>k q cmd. ssh_input a k = Some q \<and> cmd \<in> set q \<longrightarrow> (\<exists>g. P g \<and> ssh_command g = Some (k, cmd))) \<and>
     (\<forall>k q cmd. sftp_input a k = Some q \<and> cmd \<in> set q \<longrightarrow> (\<exists>g. P g \<and> sftp_command_of g = Some (k, cmd)))"

lemma sourced_new: "sourced P (WebSocketConnection_new sc ic fs)"
  by (simp add: sourced_def WebSocketConnection_new_def ssh_input_def sftp_input_def dm_get_def)

lemma sourced_mono: "sourced P a \<Longrightarrow> (\<And>g. P g \<Longrightarrow> Q g) \<Longrightarrow> sourced Q a"
  unfolding sourced_def by blast

lemma sourced_view:
  assumes "sourced P a"
    and "\<And>k. dm_get (ag_sessions a') k = None \<or>
      dm_get (ag_sessions a') k = dm_get (ag_sessions a) k \<and> ssh_input a' k = ssh_input a k \<and>
      sftp_input a' k = sftp_input a k"
  shows "sourced P a'"
  unfolding sourced_def
proof (intro conjI allI impI; (elim conjE)?)
  fix cid sid assume "dm_get (ag_sessions a') (cid, sid) \<noteq> None"
  then show "\<exists>protocol username password mid. P (NOpenTunnel protocol cid username password mid)"
    using assms(2) [of "(cid, sid)"] assms(1) unfolding sourced_def by metis
next
  fix k q cmd assume "ssh_input a' k = Some q" "cmd \<in> set q"
  then show "\<exists>g. P g \<and> ssh_command g = Some (k, cmd)"
    using assms(2) [of k] assms(1) inputs_registered(1) [of a' k q] unfolding sourced_def by metis
next
  fix k q cmd assume "sftp_input a' k = Some q" "cmd \<in> set q"
  then show "\<exists>g. P g \<and> sftp_command_of g = Some (k, cmd)"
    using assms(2) [of k] assms(1) inputs_registered(2) [of a' k q] unfolding sourced_def by metis
qed

lemma sourced_transfer:
  assumes "sourced P a" "transfer_only a a'"
  shows "sourced P a'"
proof -
  have t: "ag_sessions a' = ag_sessions a" "set (ch_queue (ag_ssh_stdin a' c)) \<subseteq> set (ch_queue (ag_ssh_stdin a c))"
    "set (ch_queue (ag_sftp_stdin a' c)) \<subseteq> set (ch_queue (ag_sftp_stdin a c))" for c
    using assms(2) by (simp_all add: transfer_only_def)
  have ssh: "\<exists>q'. ssh_input a k = Some q' \<and> set q \<subseteq> set q'" if "ssh_input a' k = Some q" for k q
    using that t(1) t(2) by (auto simp: ssh_input_def split: option.splits SessionHandle.splits)
  have sftp: "\<exists>q'. sftp_input a k = Some q' \<and> set q \<subseteq> set q'" if "sftp_input a' k = Some q" for k q
    using that t(1) t(3) by (auto simp: sftp_input_def split: option.splits SessionHandle.splits)
  show ?thesis
    using assms(1) unfolding sourced_def t(1) by (meson ssh sftp subsetD)
qed

lemma sourced_forward:
  assumes "sourced P a" "agent_wf a" "P g"
  shows "ssh_command g = Some ((cid, sid), cmd) \<Longrightarrow> sourced P (fst (forward_ssh cid sid cmd a))"
    and "sftp_command_of g = Some ((cid, sid), cmd') \<Longrightarrow> sourced P (fst (forward_sftp cid sid cmd' a))"
proof -
  assume g: "ssh_command g = Some ((cid, sid), cmd)"
  show "sourced P (fst (forward_ssh cid sid cmd a))"
    using assms(1) g assms(3) unfolding sourced_def
    by (auto simp: agent_simps ssh_input_forward [OF assms(2)] split: if_splits)
next
  assume g: "sftp_command_of g = Some ((cid, sid), cmd')"
  show "sourced P (fst (forward_sftp cid sid cmd' a))"
    using assms(1) g assms(3) unfolding sourced_def
    by (auto simp: agent_simps sftp_input_forward [OF assms(2)] split: if_splits)
qed

lemma sourced_start:
  assumes "sourced P a" "agent_wf a" "P (NOpenTunnel protocol cid username password mid)"
  shows "sourced P (fst (start_ssh_tunnel n cid auth mid' a))" "sourced P (fst (start_sftp_tunnel cid auth mid' a))"
  using assms(1,3) start_tunnel_inputs(1,4) [OF assms(2)]
  unfolding sourced_def start_tunnel_inputs(2,3,5,6) [OF assms(2)]
  by (auto split: if_splits) metis+

lemma sourced_message:
  assumes "sourced P a" "agent_wf a" "P d"
  shows "sourced P (fst (handle_message S env node_id now d a))"
proof (cases d)
  case (NOpenTunnel protocol cid username password mid)
  show ?thesis
  proof (cases "credentials_given env username password")
    case True
    then show ?thesis
      using sourced_start [OF assms(1,2) assms(3) [unfolded NOpenTunnel]] assms(1)
      by (simp add: NOpenTunnel handle_open_tunnel_given case_prod_unfold)
  next
    case False
    then show ?thesis
      using assms(1) by (auto simp: NOpenTunnel handle_open_tunnel_missing missing_credential_reply_def
          send_requires_username_error_def send_requires_password_error_def transfer_only_def agent_simps
          intro: sourced_transfer)
  qed
next
  case (NConnectionDisconnect cid)
  show ?thesis
    unfolding NConnectionDisconnect handle_message.simps fst_conv
  proof (rule sourced_view [OF assms(1)])
    fix k
    let ?a' = "close_downloads_for_cid cid (close_uploads_for_cid S cid (close_tunnels_for_cid cid a))"
    show "dm_get (ag_sessions ?a') k = None \<or> dm_get (ag_sessions ?a') k = dm_get (ag_sessions a) k \<and>
        ssh_input ?a' k = ssh_input a k \<and> sftp_input ?a' k = sftp_input a k"
      using close_cid_view(1) [OF assms(2), of cid S k] by (cases "fst k = cid") (simp_all add: client_view_def)
  qed
next
  case (NTunnelData protocol cid sid data)
  then show ?thesis
    using assms(1) sourced_forward(1) [OF assms, of cid sid "SSHData data"] by (simp add: send_defs)
next
  case (NSSHWindowResize cid sid cols rows w h)
  then show ?thesis
    using sourced_forward(1) [OF assms] by (simp add: send_defs)
next
  case (NHeartbeatAck sent_at received)
  then show ?thesis
    by (auto simp: transfer_only_def intro: sourced_transfer [OF assms(1)])
qed (use assms(1) sourced_forward(2) [OF assms] in \<open>simp_all add: send_defs\<close>)

lemma sourced_close_everything:
  assumes "sourced P a" "agent_wf a"
  shows "sourced P (close_everything S a)"
  by (rule sourced_view [OF assms(1)]) (use close_everything_complete [OF assms(2)] in blast)

section \<open>Server and agent\<close>

record ('f, 'h) network =
  nt_server :: system
  nt_agent :: "('f, 'h) connection"
  nt_down :: "bytes list"  \<comment> \<open>written by the server, not yet read by the agent\<close>
  nt_up :: "bytes list"

definition on_socket :: "uuid \<Rightarrow> chan_id \<Rightarrow> action \<Rightarrow> bool" where
  "on_socket nid tx l \<longleftrightarrow> (\<exists>ev. l = NodeRecv nid tx ev) \<or> (\<exists>out. l = NodeSend nid tx out)"

text \<open>
  The agent of node \<open>nid\<close> is at the other end of the socket of the task \<open>(nid, tx)\<close>. A message reaches the
  other side unchanged and in order, or not at all; the websocket library refuses messages of
  4 GiB. Steps of the server beside this socket, and of the agent beside its reader, are free.
\<close>

inductive net_act ::
  "server_ext \<Rightarrow> ('f, 'h) sftp \<Rightarrow> ssh_ext \<Rightarrow> agent_env \<Rightarrow> uuid \<Rightarrow> chan_id \<Rightarrow> action
     \<Rightarrow> ('f, 'h) network \<Rightarrow> ('f, 'h) network \<Rightarrow> bool" for X S E env nid tx where
  server_works: "server_act X l (nt_server n) y \<Longrightarrow> \<not> on_socket nid tx l \<Longrightarrow>
    net_act X S E env nid tx l n (n\<lparr>nt_server := y\<rparr>)"
| server_writes: "server_act X (NodeSend nid tx out) (nt_server n) y \<Longrightarrow>
    net_act X S E env nid tx (NodeSend nid tx out) n
      (n\<lparr>nt_server := y, nt_down := nt_down n @ (case out of Some bs \<Rightarrow> [bs] | None \<Rightarrow> [])\<rparr>)"
| server_reads: "nt_up n = bs # up \<Longrightarrow> length bs < 2 ^ 32 \<Longrightarrow> server_act X (NodeRecv nid tx (WsBinary bs)) (nt_server n) y \<Longrightarrow>
    net_act X S E env nid tx (NodeRecv nid tx (WsBinary bs)) n (n\<lparr>nt_server := y, nt_up := up\<rparr>)"
| server_other: "ev \<in> {WsError, WsClose, WsOther} \<Longrightarrow> server_act X (NodeRecv nid tx ev) (nt_server n) y \<Longrightarrow>
    net_act X S E env nid tx (NodeRecv nid tx ev) n (n\<lparr>nt_server := y\<rparr>)"
| agent_reads: "nt_down n = bs # down \<Longrightarrow> length bs < 2 ^ 32 \<Longrightarrow>
    life_act S E (x_codec X) env nid (Some (WsBinary bs)) (nt_agent n) c \<Longrightarrow>
    net_act X S E env nid tx Silent n (n\<lparr>nt_agent := c, nt_down := down\<rparr>)"
| agent_other: "ev \<in> {WsError, WsClose, WsOther} \<Longrightarrow>
    life_act S E (x_codec X) env nid (Some ev) (nt_agent n) c \<Longrightarrow>
    net_act X S E env nid tx Silent n (n\<lparr>nt_agent := c\<rparr>)"
| agent_writes: "write_next (x_codec X) (co_agent (nt_agent n)) = Some (a, Some bs) \<Longrightarrow>
    net_act X S E env nid tx Silent n (n\<lparr>nt_agent := (nt_agent n)\<lparr>co_agent := a\<rparr>, nt_up := nt_up n @ [bs]\<rparr>)"
| agent_works: "life_act S E (x_codec X) env nid None (nt_agent n) c \<Longrightarrow>
    net_act X S E env nid tx Silent n (n\<lparr>nt_agent := c\<rparr>)"
| lost: "net_act X S E env nid tx Silent n (n\<lparr>nt_down := take i (nt_down n), nt_up := take j (nt_up n)\<rparr>)"

text \<open>Every frame on its way to the agent, and everything its sessions hold, is licensed.\<close>

definition net_inv :: "server_ext \<Rightarrow> action list \<Rightarrow> ('f, 'h) network \<Rightarrow> bool" where
  "net_inv X tr n \<longleftrightarrow>
     (\<forall>g \<in> mail (sy_state (nt_server n)). licensed X tr g) \<and>
     (\<forall>bs \<in> set (nt_down n). \<exists>g. licensed X tr g \<and> Frame_encode (x_codec X) (Frame_from_node g) = Ok bs) \<and>
     life_inv (nt_agent n) \<and> sourced (licensed X tr) (co_agent (nt_agent n))"

lemma net_inv_mono: "net_inv X tr n \<Longrightarrow> net_inv X (tr @ [l]) n"
  unfolding net_inv_def using licensed_mono sourced_mono [of "licensed X tr" _ "licensed X (tr @ [l])"] by blast

lemma life_act_sourced:
  assumes "life_act S E C env nid e y y'" "life_inv y" "sourced P (co_agent y)"
    and "\<And>bs frame d. e = Some (WsBinary bs) \<Longrightarrow> Frame_decode Native64 C bs = Ok frame \<Longrightarrow> fr_data frame = Node d \<Longrightarrow> P d"
  shows "sourced P (co_agent y')"
proof -
  have wf: "agent_wf (co_agent y)"
    using assms(2) by (simp add: life_inv_def)
  have rd: "sourced P a'" if "reader_step S C env nid now ev (co_agent y) = (a', r)" "r = Continue t \<or> r = Stop" "e = Some ev"
    for now ev a' r t
  proof (cases "\<exists>bs. ev = WsBinary bs")
    case True
    then show ?thesis
      using reader_step_message that sourced_message [OF assms(3) wf assms(4)] assms(3) by metis
  next
    case False
    then show ?thesis
      using that assms(3) by (auto simp: reader_step_def split: ws_event.splits)
  qed
  from assms(1) show ?thesis
    by (cases rule: life_act.cases)
      (use rd assms(3) sourced_close_everything [OF assms(3) wf] in
        \<open>auto intro: sourced_transfer [OF assms(3) task_step_transfer_only]\<close>)
qed

lemma net_act_inv:
  assumes "net_act X S E env nid tx l n n'" "net_inv X tr n" "codec_inverse (x_codec X)"
  shows "net_inv X (tr @ [l]) n'"
proof -
  let ?P = "licensed X (tr @ [l])"
  note inv = net_inv_mono [OF assms(2), of l]
  have life: "life_inv (nt_agent n)" "sourced ?P (co_agent (nt_agent n))"
    and down: "\<forall>bs \<in> set (nt_down n). \<exists>g. ?P g \<and> Frame_encode (x_codec X) (Frame_from_node g) = Ok bs"
    using inv by (simp_all add: net_inv_def)
  have srv: "\<forall>g \<in> mail (sy_state y). ?P g" if "server_act X l (nt_server n) y" for y
    using origin.act_hinv [OF that, of tr] assms(2) by (simp add: net_inv_def)
  have ag: "net_inv X (tr @ [l]) (n\<lparr>nt_agent := c\<rparr>)"
    if "life_act S E (x_codec X) env nid e (nt_agent n) c"
      "\<And>bs frame d. e = Some (WsBinary bs) \<Longrightarrow> Frame_decode Native64 (x_codec X) bs = Ok frame \<Longrightarrow> fr_data frame = Node d \<Longrightarrow> ?P d"
    for e c
    using life_act_inv [OF that(1) life(1)] life_act_sourced [OF that(1) life that(2)] inv by (simp add: net_inv_def)
  from assms(1) show ?thesis
  proof (cases rule: net_act.cases)
    case (server_works y)
    then show ?thesis
      using srv inv by (simp add: net_inv_def)
  next
    case (server_writes out y)
    have "\<exists>g. ?P g \<and> Frame_encode (x_codec X) (Frame_from_node g) = Ok bs" if "out = Some bs" for bs
      using node_send_mail [OF server_writes(3) [unfolded that]] inv unfolding net_inv_def by metis
    then show ?thesis
      using srv [of y] server_writes inv by (auto simp: net_inv_def split: option.splits)
  next
    case (server_reads bs up y)
    then show ?thesis
      using srv inv by (simp add: net_inv_def)
  next
    case (server_other ev y)
    then show ?thesis
      using srv inv by (simp add: net_inv_def)
  next
    case (agent_reads bs down c)
    have "?P d" if "Frame_decode Native64 (x_codec X) bs = Ok frame" "fr_data frame = Node d" for frame d
      using down agent_reads(3,4) decode_node_frame [OF assms(3)] that by fastforce
    then have "net_inv X (tr @ [l]) (n\<lparr>nt_agent := c\<rparr>)"
      using ag [OF agent_reads(5)] by simp
    then show ?thesis
      using agent_reads(2,3) by (simp add: net_inv_def)
  next
    case (agent_other ev c)
    then show ?thesis
      using ag [OF agent_other(4)] by auto
  next
    case (agent_writes a bs)
    have "life_act S E (x_codec X) env nid None (nt_agent n) ((nt_agent n)\<lparr>co_agent := a\<rparr>)"
      by (rule life_act.other_task, rule task_step.written [OF agent_writes(3)])
    from ag [OF this] have "net_inv X (tr @ [l]) (n\<lparr>nt_agent := (nt_agent n)\<lparr>co_agent := a\<rparr>\<rparr>)"
      by simp
    then show ?thesis
      using agent_writes(2) by (simp add: net_inv_def)
  next
    case (agent_works c)
    then show ?thesis
      using ag [OF agent_works(3)] by simp
  next
    case (lost i j)
    then show ?thesis
      using inv by (auto simp: net_inv_def dest: in_set_takeD)
  qed
qed

interpretation wire: history_system "net_act X S E env nid tx"
  "\<lambda>tr n. codec_inverse (x_codec X) \<longrightarrow> net_inv X tr n" for X S E env nid tx
  by unfold_locales (blast intro: net_act_inv)

text \<open>Every message on its way to the server is the encoding of a frame an agent may send.\<close>

definition net_typed :: "server_ext \<Rightarrow> ('f, 'h) network \<Rightarrow> bool" where
  "net_typed X n \<longleftrightarrow> tx_all agent_frame (co_agent (nt_agent n)) \<and>
     (\<forall>bs \<in> set (nt_up n). \<exists>d. agent_frame d \<and> Frame_encode (x_codec X) (Frame_from_node d) = Ok bs)"

lemma net_act_typed:
  assumes "net_act X S E env nid tx l n n'" "net_typed X n"
  shows "net_typed X n'"
  using assms(1)
proof (cases rule: net_act.cases)
  case (agent_writes a bs)
  have "life_act S E (x_codec X) env nid None (nt_agent n) ((nt_agent n)\<lparr>co_agent := a\<rparr>)"
    by (rule life_act.other_task, rule task_step.written [OF agent_writes(3)])
  from life_act_tx_typed [OF this] show ?thesis
    using agent_writes assms(2) write_next_tx_all [OF agent_writes(3)] by (auto simp: net_typed_def)
next
  case (lost i j)
  then show ?thesis
    using assms(2) by (auto simp: net_typed_def dest: in_set_takeD)
qed (use assms(2) in \<open>auto simp: net_typed_def intro: life_act_tx_typed\<close>)

interpretation upward: history_system "net_act X S E env nid tx" "\<lambda>tr. net_typed X" for X S E env nid tx
  by unfold_locales (rule net_act_typed)

lemma agent_frame_accepted:
  "agent_frame d \<Longrightarrow> dm_get (st_nodes s) nid \<noteq> None \<Longrightarrow> snd (handle_node_frame X now nid d s)"
  by (cases d) (auto simp: handle_node_frame_def handle_node_heartbeat_def Let_def split: option.splits prod.splits bool.splits)

text \<open>A request names the client that made it.\<close>

lemma asks_client: "asks X l cid g \<Longrightarrow> frame_client g = Some cid"
proof -
  have "web_request cid w = Some (t, sid, g) \<Longrightarrow> frame_client g = Some cid" for w t sid
    by (cases "(cid, w)" rule: web_request.cases) auto
  then show "asks X l cid g \<Longrightarrow> frame_client g = Some cid"
    by (auto simp: asks_def request_frame_def)
qed

lemma command_client:
  "ssh_command g = Some ((cid, sid), cmd) \<Longrightarrow> frame_client g = Some cid \<and> \<not> own_frame g"
  "sftp_command_of g = Some ((cid, sid), cmd') \<Longrightarrow> frame_client g = Some cid \<and> \<not> own_frame g"
  by (cases g; auto split: if_splits)+

lemma licensed_client:
  "licensed X tr g \<Longrightarrow> frame_client g = Some cid \<Longrightarrow> \<not> own_frame g \<Longrightarrow> \<exists>l \<in> set tr. asks X l cid g"
  using asks_client by (fastforce simp: licensed_def)

section \<open>Properties\<close>

text \<open>
  C2: whatever a session on the agent is given was asked for by its own client. In every run of a
  server and the agent of a node, with any other clients and nodes, a session of client \<open>cid\<close> exists only
  if this client sent an \<open>OpenTunnel\<close> on its own socket, and every command in the queue of the session
  is one this client sent for this very session.
\<close>

theorem session_input_comes_from_its_client:
  assumes "run (net_act X S E env nid tx) n0 tr n" "codec_inverse (x_codec X)"
    and "\<forall>g \<in> mail (sy_state (nt_server n0)). own_frame g" "nt_down n0 = []"
    and "nt_agent n0 = \<lparr>co_agent = WebSocketConnection_new sc ic fs, co_reader = True, co_phase = Serving, co_tunnels = {}\<rparr>"
  shows "(\<forall>cid sid. dm_get (ag_sessions (co_agent (nt_agent n))) (cid, sid) \<noteq> None \<longrightarrow>
      (\<exists>l \<in> set tr. \<exists>protocol username password mid. asks X l cid (NOpenTunnel protocol cid username password mid))) \<and>
    (\<forall>cid sid q cmd. ssh_input (co_agent (nt_agent n)) (cid, sid) = Some q \<and> cmd \<in> set q \<longrightarrow>
      (\<exists>l \<in> set tr. \<exists>g. asks X l cid g \<and> ssh_command g = Some ((cid, sid), cmd))) \<and>
    (\<forall>cid sid q cmd. sftp_input (co_agent (nt_agent n)) (cid, sid) = Some q \<and> cmd \<in> set q \<longrightarrow>
      (\<exists>l \<in> set tr. \<exists>g. asks X l cid g \<and> sftp_command_of g = Some ((cid, sid), cmd)))"
proof -
  have "net_inv X [] n0"
    using assms(3-5) by (auto simp: net_inv_def licensed_def life_inv_def agent_wf_new tracked_new sourced_new)
  then have src: "sourced (licensed X tr) (co_agent (nt_agent n))"
    using wire.run_hinv [OF assms(1)] assms(2) by (simp add: net_inv_def)
  have op: "\<exists>l \<in> set tr. asks X l cid (NOpenTunnel protocol cid username password mid)"
    if "licensed X tr (NOpenTunnel protocol cid username password mid)" for cid protocol username password mid
    using licensed_client [OF that] by simp
  show ?thesis
  proof (intro conjI allI impI; (elim conjE)?)
    fix cid sid assume "dm_get (ag_sessions (co_agent (nt_agent n))) (cid, sid) \<noteq> None"
    then show "\<exists>l \<in> set tr. \<exists>protocol username password mid. asks X l cid (NOpenTunnel protocol cid username password mid)"
      using src op unfolding sourced_def by meson
  next
    fix cid sid q cmd assume "ssh_input (co_agent (nt_agent n)) (cid, sid) = Some q" "cmd \<in> set q"
    then obtain g where "licensed X tr g" "ssh_command g = Some ((cid, sid), cmd)"
      using src unfolding sourced_def by meson
    then show "\<exists>l \<in> set tr. \<exists>g. asks X l cid g \<and> ssh_command g = Some ((cid, sid), cmd)"
      using licensed_client command_client(1) by meson
  next
    fix cid sid q cmd assume "sftp_input (co_agent (nt_agent n)) (cid, sid) = Some q" "cmd \<in> set q"
    then obtain g where "licensed X tr g" "sftp_command_of g = Some ((cid, sid), cmd)"
      using src unfolding sourced_def by meson
    then show "\<exists>l \<in> set tr. \<exists>g. asks X l cid g \<and> sftp_command_of g = Some ((cid, sid), cmd)"
      using licensed_client command_client(2) by meson
  qed
qed

text \<open>
  C4: the protocol of the agent is well typed. In every run, each message on the socket from the
  agent to the server decodes to a frame that an agent may send: a heartbeat, a notice that a tunnel of a known
  protocol is open or closed, or an answer addressed to the very session it speaks of or an
  error. The server therefore never ends the socket over one of them while the node is
  registered.
\<close>

theorem agent_messages_well_typed:
  assumes "run (net_act X S E env nid tx) n0 tr n" "codec_inverse (x_codec X)"
    and "nt_up n0 = []"
    and "nt_agent n0 = \<lparr>co_agent = WebSocketConnection_new sc ic fs, co_reader = True, co_phase = Serving, co_tunnels = {}\<rparr>"
    and "bs \<in> set (nt_up n)" "length bs < 2 ^ 32"
  shows "\<exists>frame d. Frame_decode Native64 (x_codec X) bs = Ok frame \<and> fr_data frame = Node d \<and> agent_frame d \<and>
    (\<forall>s now. dm_get (st_nodes s) nid \<noteq> None \<longrightarrow> snd (handle_node_event X now nid (WsBinary bs) s))"
proof -
  have "net_typed X n0"
    using assms(3,4) by (simp add: net_typed_def tx_all_new)
  then have "net_typed X n"
    using upward.run_hinv [OF assms(1)] by simp
  then obtain d where d: "agent_frame d" "Frame_encode (x_codec X) (Frame_from_node d) = Ok bs"
    using assms(5) unfolding net_typed_def by blast
  obtain frame where f: "Frame_decode Native64 (x_codec X) bs = Ok frame" "fr_data frame = Node d"
    using decode_node_frame [OF assms(2) d(2) assms(6)] by blast
  then have "snd (handle_node_event X now nid (WsBinary bs) s)" if "dm_get (st_nodes s) nid \<noteq> None" for s now
    using agent_frame_accepted [OF d(1) that, of X now] by (simp add: handle_node_event_def)
  with f d(1) show ?thesis
    by blast
qed

section \<open>A run\<close>

text \<open>
  The example server with the agent of its node 1: client 5 opens an SSH tunnel and types a letter; each
  message takes three steps, from the client to the server, onto the socket, and to the agent.
\<close>

definition joined :: "(uuid \<times> u32) set \<Rightarrow> (mem_fs, string) agent \<Rightarrow> (mem_fs, string) network" where
  "joined T a = \<lparr>nt_server = typing_system,
     nt_agent = \<lparr>co_agent = a, co_reader = True, co_phase = Serving, co_tunnels = T\<rparr>,
     nt_down = [], nt_up = []\<rparr>"

abbreviation example_hop :: "action \<Rightarrow> (mem_fs, string) network \<Rightarrow> (mem_fs, string) network \<Rightarrow> bool" where
  "example_hop \<equiv> net_act example_ext mem_sftp example_ssh example_agent_env 1 0"

lemma message_travels:
  assumes "run example_hop n0 tr (joined T a)"
    and "server_act example_ext (WebRecv 5 1 ev) typing_system (posted g)"
    and "Frame_encode example_codec (Frame_from_node g) = Ok bs" "length bs < 2 ^ 32"
    and "reader_step mem_sftp example_codec example_agent_env 1 0 (WsBinary bs) a = (a', Continue t)"
  shows "run example_hop n0 (tr @ [WebRecv 5 1 ev, NodeSend 1 0 (Some bs), Silent]) (joined (spawned t \<union> T) a')"
proof -
  let ?n1 = "(joined T a)\<lparr>nt_server := posted g\<rparr>"
  let ?n2 = "(joined T a)\<lparr>nt_down := [bs]\<rparr>"
  have "example_hop (WebRecv 5 1 ev) (joined T a) ?n1"
    using assms(2) by (intro net_act.server_works) (simp_all add: joined_def on_socket_def)
  moreover have "example_hop (NodeSend 1 0 (Some bs)) ?n1 ?n2"
    using net_act.server_writes [of example_ext 1 0 "Some bs" ?n1 typing_system mem_sftp example_ssh example_agent_env]
      posted_write [OF assms(3)] by (simp add: joined_def)
  moreover have "example_hop Silent ?n2 (joined (spawned t \<union> T) a')"
    using net_act.agent_reads [of ?n2 bs "[]" mem_sftp example_ssh example_ext example_agent_env 1
        "(nt_agent (joined T a))\<lparr>co_agent := a', co_tunnels := spawned t \<union> T\<rparr>" 0] assms(4)
      life_act.reads [of "nt_agent (joined T a)" mem_sftp example_codec example_agent_env 1 0 "WsBinary bs" a' t] assms(5)
    by (simp add: joined_def example_ext_codec)
  ultimately have "run example_hop n0 (((tr @ [WebRecv 5 1 ev]) @ [NodeSend 1 0 (Some bs)]) @ [Silent])
      (joined (spawned t \<union> T) a')"
    using assms(1) by (meson run_step)
  then show ?thesis
    by simp
qed

text \<open>The agent before and after the tunnel is opened, and the steps in between.\<close>

abbreviation hop_fresh :: "(mem_fs, string) agent" where
  "hop_fresh \<equiv> WebSocketConnection_new 9 1 (ag_fs example_agent)"

definition hop_opened :: "(mem_fs, string) agent" where
  "hop_opened = fst (start_ssh_tunnel 1 5 (given_auth example_agent_env (Some ''u'') (Some ''p'')) None hop_fresh)"

definition hop_opening :: "action list" where
  "hop_opening = [WebRecv 5 1 (WsBinary (web_msg 20 7)), NodeSend 1 0 (Some (node_msg 20 8)), Silent]"

lemma hop_reader:
  obtains t where "spawned t = {(5, 9)}"
    "reader_step mem_sftp example_codec example_agent_env 1 0 (WsBinary (node_msg 20 8)) hop_fresh = (hop_opened, Continue t)"
proof
  let ?t = "snd (start_ssh_tunnel 1 5 (given_auth example_agent_env (Some ''u'') (Some ''p'')) None hop_fresh)"
  show "spawned (Some ?t) = {(5, 9)}"
    unfolding spawned_start by (simp add: WebSocketConnection_new_def)
  show "reader_step mem_sftp example_codec example_agent_env 1 0 (WsBinary (node_msg 20 8)) hop_fresh =
      (hop_opened, Continue (Some ?t))"
    by (simp add: reader_step_def decode_node_msg example_node_frames_def hop_opened_def
        handle_open_tunnel_given [OF life_credentials] case_prod_unfold)
qed

lemma hop_opens: "run example_hop (joined {} hop_fresh) hop_opening (joined {(5, 9)} hop_opened)"
proof -
  obtain t where t: "spawned t = {(5, 9)}"
    "reader_step mem_sftp example_codec example_agent_env 1 0 (WsBinary (node_msg 20 8)) hop_fresh = (hop_opened, Continue t)"
    by (rule hop_reader)
  from message_travels [OF run_start typing_posts(2) example_wire(7) example_lengths(2) t(2), of "{}"] show ?thesis
    by (simp add: hop_opening_def t(1))
qed

theorem session_input_comes_from_its_client_witness:
  "\<exists>tr n. run example_hop (joined {} hop_fresh) tr n \<and>
     ssh_input (co_agent (nt_agent n)) (5, 9) = Some [SSHData [65]] \<and>
     (\<exists>l \<in> set tr. \<exists>g. asks example_ext l 5 g \<and> ssh_command g = Some ((5, 9), SSHData [65]))"
proof -
  let ?a2 = "fst (forward_ssh 5 9 (SSHData [65]) hop_opened)"
  have wf: "agent_wf hop_opened"
    by (simp add: hop_opened_def start_tunnel_agent_wf agent_wf_new)
  have s: "ag_session_counter hop_fresh = 9"
    by (simp add: WebSocketConnection_new_def)
  have "reader_step mem_sftp example_codec example_agent_env 1 0 (WsBinary (node_msg 22 6)) hop_opened =
      (?a2, Continue None)"
    by (simp add: reader_step_def decode_node_msg example_node_frames_def send_defs)
  then obtain tr where r: "run example_hop (joined {} hop_fresh) tr (joined {(5, 9)} ?a2)"
    using message_travels [OF hop_opens typing_posts(1) example_wire(5) example_lengths(2)] by fastforce
  have "snd (forward_ssh 5 9 (SSHData [65]) hop_opened) = Ok ()"
    by (simp add: hop_opened_def forward_ssh_def start_ssh_tunnel_def generate_session_id_def WebSocketConnection_new_def
        Let_def agent_simps dm_simps chan_send_def chan_new_def)
  then have q: "ssh_input (co_agent (nt_agent (joined {(5, 9)} ?a2))) (5, 9) = Some [SSHData [65]]"
    by (simp add: joined_def ssh_input_forward [OF wf]) (simp add: hop_opened_def start_tunnel_inputs(2) [OF agent_wf_new] s)
  have "codec_inverse (x_codec example_ext)"
    by (simp add: example_ext_codec example_codec_inverse)
  moreover have "\<forall>g \<in> mail (sy_state (nt_server (joined {} hop_fresh))). own_frame g" "nt_down (joined {} hop_fresh) = []"
    "nt_agent (joined {} hop_fresh) = \<lparr>co_agent = hop_fresh, co_reader = True, co_phase = Serving, co_tunnels = {}\<rparr>"
    by (simp_all add: joined_def typing_mail)
  ultimately have "\<exists>l \<in> set tr. \<exists>g. asks example_ext l 5 g \<and> ssh_command g = Some ((5, 9), SSHData [65])"
    using session_input_comes_from_its_client [OF r] q list.set_intros(1) [of "SSHData [65]" "[]"] by blast
  with r q show ?thesis
    by blast
qed

text \<open>The shell prints a letter, which the agent puts on the socket.\<close>

definition hop_printed :: "(mem_fs, string) network" where
  "hop_printed = (joined {(5, 9)} hop_opened)\<lparr>nt_up := [node_msg 50 2]\<rparr>"

lemma hop_shell:
  obtains a where "task_step mem_sftp example_ssh example_codec {(5, 9)} hop_opened a"
    "write_next example_codec a = Some (hop_opened, Some (node_msg 50 2))"
proof
  let ?a = "fst (ssh_step example_ssh ''n1'' 9 (SshMsg (Some (CMData [66]))) hop_opened)"
  show "task_step mem_sftp example_ssh example_codec {(5, 9)} hop_opened ?a"
    by (rule task_step.ssh_event [of 5]) simp
  have "ag_tx hop_opened = chan_new 1024"
    by (simp add: hop_opened_def agent_simps) (simp add: WebSocketConnection_new_def)
  then show "write_next example_codec ?a = Some (hop_opened, Some (node_msg 50 2))"
    by (simp add: write_next_def send_tunnel_data_def send_frame_data_def chan_try_send_def chan_recv_def chan_new_def
        example_wire)
qed

lemma hop_prints: "run example_hop (joined {} hop_fresh) (hop_opening @ [Silent, Silent]) hop_printed"
proof -
  let ?n0 = "joined {(5, 9)} hop_opened"
  obtain a where a: "task_step mem_sftp example_ssh example_codec {(5, 9)} hop_opened a"
    "write_next example_codec a = Some (hop_opened, Some (node_msg 50 2))"
    by (rule hop_shell)
  let ?n1 = "?n0\<lparr>nt_agent := (nt_agent ?n0)\<lparr>co_agent := a\<rparr>\<rparr>"
  have "example_hop Silent ?n0 ?n1"
    using a(1) by (intro net_act.agent_works life_act.other_task) (simp add: joined_def example_ext_codec)
  moreover have "example_hop Silent ?n1 hop_printed"
    using net_act.agent_writes [of example_ext ?n1 hop_opened "node_msg 50 2" mem_sftp example_ssh example_agent_env 1 0] a(2)
    by (simp add: joined_def hop_printed_def example_ext_codec)
  ultimately have "run example_hop (joined {} hop_fresh) ((hop_opening @ [Silent]) @ [Silent]) hop_printed"
    using hop_opens by (meson run_step)
  then show ?thesis
    by simp
qed

theorem agent_messages_well_typed_witness:
  "\<exists>tr n. run example_hop (joined {} hop_fresh) tr n \<and> nt_up n = [node_msg 50 2] \<and>
     (\<exists>frame d. Frame_decode Native64 example_codec (node_msg 50 2) = Ok frame \<and> fr_data frame = Node d \<and>
        agent_frame d) \<and>
     snd (handle_node_event example_ext 10 1 (WsBinary (node_msg 50 2)) example_state)"
proof -
  have c: "codec_inverse (x_codec example_ext)"
    by (simp add: example_ext_codec example_codec_inverse)
  have n: "nt_up (joined {} hop_fresh) = []"
    "nt_agent (joined {} hop_fresh) = \<lparr>co_agent = hop_fresh, co_reader = True, co_phase = Serving, co_tunnels = {}\<rparr>"
    "node_msg 50 2 \<in> set (nt_up hop_printed)"
    by (simp_all add: joined_def hop_printed_def)
  have "dm_get (st_nodes example_state) 1 \<noteq> None"
    by (simp add: example_defs)
  moreover obtain frame d where "Frame_decode Native64 example_codec (node_msg 50 2) = Ok frame" "fr_data frame = Node d"
    "agent_frame d"
    "\<forall>s now. dm_get (st_nodes s) 1 \<noteq> None \<longrightarrow> snd (handle_node_event example_ext now 1 (WsBinary (node_msg 50 2)) s)"
    using agent_messages_well_typed [OF hop_prints c n example_lengths(2)] unfolding example_ext_codec by blast
  moreover have "nt_up hop_printed = [node_msg 50 2]"
    by (simp add: hop_printed_def)
  ultimately show ?thesis
    using hop_prints by blast
qed

end
