(* ===== verification/Broker.thy ===== *)
theory Broker
  imports Server_System
begin

text \<open>
  What the server is for, without its registries, channels, clocks and stores: a broker between
  nodes and clients. It knows a mailbox per online node, a mailbox per online client and, for each
  node and session number, the client the tunnel belongs to. The theory states the broker as a
  transition system and proves that every interleaving of the server's tasks is one of its runs.
\<close>

section \<open>The broker\<close>

record broker =
  bk_nodes :: "uuid \<rightharpoonup> NodeFrameData chan"
  bk_clients :: "uuid \<rightharpoonup> WebFrameData chan"
  bk_tunnels :: "uuid \<times> u32 \<rightharpoonup> uuid"

definition post :: "'a \<Rightarrow> 'k \<Rightarrow> ('k \<rightharpoonup> 'a chan) \<Rightarrow> ('k \<rightharpoonup> 'a chan)" where
  "post f k m = (case m k of None \<Rightarrow> m | Some c \<Rightarrow> m(k \<mapsto> fst (chan_send f c)))"

definition to_node :: "NodeFrameData \<Rightarrow> uuid \<Rightarrow> broker \<Rightarrow> broker" where
  "to_node f nid b = b\<lparr>bk_nodes := post f nid (bk_nodes b)\<rparr>"

definition to_client :: "WebFrameData \<Rightarrow> uuid \<Rightarrow> broker \<Rightarrow> broker" where
  "to_client f cid b = b\<lparr>bk_clients := post f cid (bk_clients b)\<rparr>"

definition set_tunnel :: "uuid \<Rightarrow> u32 \<Rightarrow> uuid option \<Rightarrow> broker \<Rightarrow> broker" where
  "set_tunnel nid sid c b = b\<lparr>bk_tunnels := (bk_tunnels b)((nid, sid) := c)\<rparr>"

text \<open>The tunnels of a node are closed one by one, each with a notice to its client.\<close>

fun close_tunnels :: "uuid \<Rightarrow> u32 list \<Rightarrow> broker \<Rightarrow> broker" where
  "close_tunnels nid [] b = b"
| "close_tunnels nid (sid # sids) b =
     (case bk_tunnels b (nid, sid) of
        None \<Rightarrow> close_tunnels nid sids b
      | Some cid \<Rightarrow>
          close_tunnels nid sids (to_client (WTunnelClosed 0 sid None) cid (set_tunnel nid sid None b)))"

definition broker_node_frame :: "uuid \<Rightarrow> u64 \<Rightarrow> NodeFrameData \<Rightarrow> broker \<Rightarrow> broker" where
  "broker_node_frame nid received f b =
     (case f of
        NHeartbeat _ sent_at \<Rightarrow> to_node (NHeartbeatAck sent_at received) nid b
      | NTunnelOpened protocol cid sid mid \<Rightarrow>
          to_client (WTunnelOpened protocol sid mid) cid (set_tunnel nid sid (Some cid) b)
      | NTunnelClosed protocol cid sid mid \<Rightarrow>
          to_client (WTunnelClosed protocol sid mid) cid (set_tunnel nid sid None b)
      | NWebFrame g (ConnectionId cid) \<Rightarrow> to_client g cid b
      | NWebFrame g (SessionId sid) \<Rightarrow>
          (case bk_tunnels b (nid, sid) of None \<Rightarrow> b | Some cid \<Rightarrow> to_client g cid b)
      | _ \<Rightarrow> b)"

text \<open>
  A request of a client: a session request goes to the node of the tunnel if the tunnel is the
  client's own; an \<open>OpenTunnel\<close> goes to whatever online node it names.
\<close>

definition broker_web_frame :: "server_ext \<Rightarrow> uuid \<Rightarrow> WebFrameData \<Rightarrow> broker \<Rightarrow> broker" where
  "broker_web_frame X cid f b =
     (case web_request cid f of
        Some (target, sid, g) \<Rightarrow>
          (case x_parse_uuid X target of
             None \<Rightarrow> b
           | Some nid \<Rightarrow> if bk_tunnels b (nid, sid) = Some cid then to_node g nid b else b)
      | None \<Rightarrow>
          (case f of
             WOpenTunnel protocol target username password mid \<Rightarrow>
               (case x_parse_uuid X target of
                  None \<Rightarrow> b
                | Some nid \<Rightarrow>
                    if nid \<in> dom (bk_nodes b)
                    then to_node (NOpenTunnel protocol cid username password mid) nid b
                    else to_client (WError Generic
                           (''Node[id='' @ x_uuid_str X nid @ ''] could not be found'') mid) cid b)
           | _ \<Rightarrow> b))"

definition broker_client_down :: "uuid \<Rightarrow> broker \<Rightarrow> broker" where
  "broker_client_down cid b =
     b\<lparr>bk_clients := (bk_clients b)(cid := None),
       bk_nodes := \<lambda>nid. map_option (\<lambda>c. fst (chan_send (NConnectionDisconnect cid) c)) (bk_nodes b nid)\<rparr>"

inductive broker_step :: "server_ext \<Rightarrow> broker \<Rightarrow> broker \<Rightarrow> bool" for X where
  node_up:
    "broker_step X b (b\<lparr>bk_nodes := (bk_nodes b)
       (nid \<mapsto> (chan_new 256)\<lparr>ch_queue := [NAuthResponse nid True (x_version X)]\<rparr>)\<rparr>)"
| node_down:
    "nid \<in> dom (bk_nodes b) \<Longrightarrow> distinct sids \<Longrightarrow> set sids = {sid. bk_tunnels b (nid, sid) \<noteq> None} \<Longrightarrow>
     broker_step X b (close_tunnels nid sids (b\<lparr>bk_nodes := (bk_nodes b)(nid := None)\<rparr>))"
| node_frame: "broker_step X b (broker_node_frame nid received f b)"
| node_taken:
    "bk_nodes b nid = Some c \<Longrightarrow> chan_recv c = Some (f, c') \<Longrightarrow> c'' = c' \<or> c'' = chan_close c' \<Longrightarrow>
     broker_step X b (b\<lparr>bk_nodes := (bk_nodes b)(nid \<mapsto> c'')\<rparr>)"
| client_up:
    "broker_step X b (b\<lparr>bk_clients := (bk_clients b)
       (cid \<mapsto> (chan_new 256)\<lparr>ch_queue := [WAuthSuccess cid version mid]\<rparr>)\<rparr>)"
| client_down: "broker_step X b (broker_client_down cid b)"
| client_frame: "broker_step X b (broker_web_frame X cid f b)"
| client_taken:
    "bk_clients b cid = Some c \<Longrightarrow> chan_recv c = Some (f, c') \<Longrightarrow> c'' = c' \<or> c'' = chan_close c' \<Longrightarrow>
     broker_step X b (b\<lparr>bk_clients := (bk_clients b)(cid \<mapsto> c'')\<rparr>)"
| silent_dropped:
    "broker_step X b (b\<lparr>bk_nodes := bk_nodes b |` N, bk_clients := bk_clients b |` C\<rparr>)"

section \<open>The broker a server state stands for\<close>

definition broker_of :: "AppState \<Rightarrow> broker" where
  "broker_of s =
     \<lparr>bk_nodes = \<lambda>nid. map_option (\<lambda>info. st_node_chans s (nc_tx info)) (dm_get (st_nodes s) nid),
      bk_clients = \<lambda>cid. map_option (\<lambda>info. st_web_chans s (wc_tx info)) (dm_get (st_connections s) cid),
      bk_tunnels = \<lambda>(nid, sid). map_option fst (dm_get (st_tunnel_sessions s) (TunnelSessionKey_new nid sid))\<rparr>"

lemma broker_of_sel [simp]:
  "bk_nodes (broker_of s) nid = map_option (\<lambda>info. st_node_chans s (nc_tx info)) (dm_get (st_nodes s) nid)"
  "bk_clients (broker_of s) cid = map_option (\<lambda>info. st_web_chans s (wc_tx info)) (dm_get (st_connections s) cid)"
  "bk_tunnels (broker_of s) (nid, sid) =
     map_option fst (dm_get (st_tunnel_sessions s) (TunnelSessionKey_new nid sid))"
  by (simp_all add: broker_of_def)

lemma broker_eqI:
  fixes b b' :: broker
  assumes "\<And>nid. bk_nodes b nid = bk_nodes b' nid" "\<And>cid. bk_clients b cid = bk_clients b' cid"
    "\<And>nid sid. bk_tunnels b (nid, sid) = bk_tunnels b' (nid, sid)"
  shows "b = b'"
  using assms by (cases b; cases b') (auto simp: fun_eq_iff)

lemma broker_of_frame:
  assumes "st_nodes s' = st_nodes s" "st_connections s' = st_connections s"
    "st_tunnel_sessions s' = st_tunnel_sessions s" "st_node_chans s' = st_node_chans s"
    "st_web_chans s' = st_web_chans s"
  shows "broker_of s' = broker_of s"
  using assms by (simp add: broker_of_def)

lemma broker_of_update [simp]:
  "broker_of (s\<lparr>st_memory_db := m\<rparr>) = broker_of s"
  "broker_of (s\<lparr>st_db := db\<rparr>) = broker_of s"
  by (rule broker_of_frame; simp)+

text \<open>Registered senders are not shared, so a send changes one mailbox.\<close>

lemma broker_of_send:
  assumes "state_wf s" "dm_get (st_nodes s) nid = Some info"
  shows "broker_of (fst (send_to_node (nc_tx info) f s)) = to_node f nid (broker_of s)"
proof (rule broker_eqI)
  fix n
  have "nc_tx i = nc_tx info \<longleftrightarrow> n = nid" if "dm_get (st_nodes s) n = Some i" for i
    using assms that unfolding state_wf_def chans_separate_def by (metis option.inject)
  then show "bk_nodes (broker_of (fst (send_to_node (nc_tx info) f s))) n
      = bk_nodes (to_node f nid (broker_of s)) n"
    using assms(2)
    by (cases "dm_get (st_nodes s) n")
      (auto simp: to_node_def post_def srv_simps send_to_node_def case_prod_unfold Let_def)
qed (simp_all add: to_node_def srv_simps)

lemma broker_of_notify:
  assumes "state_wf s"
  shows "broker_of (fst (notify_client_by_cid cid f s)) = to_client f cid (broker_of s)"
proof (cases "dm_get (st_connections s) cid")
  case None
  then show ?thesis
    by (intro broker_eqI) (simp_all add: notify_client_by_cid_def to_client_def post_def)
next
  case (Some info)
  show ?thesis
  proof (rule broker_eqI)
    fix c
    have "wc_tx i = wc_tx info \<longleftrightarrow> c = cid" if "dm_get (st_connections s) c = Some i" for i
      using assms Some that unfolding state_wf_def chans_separate_def by (metis option.inject)
    then show "bk_clients (broker_of (fst (notify_client_by_cid cid f s))) c
        = bk_clients (to_client f cid (broker_of s)) c"
      using Some
      by (cases "dm_get (st_connections s) c")
        (auto simp: notify_client_by_cid_def to_client_def post_def send_to_web_def case_prod_unfold Let_def)
  qed (simp_all add: to_client_def srv_simps)
qed

section \<open>Functional refinement of the handlers\<close>

lemma broker_of_forward:
  assumes "state_wf s"
  shows "broker_of (forward_to_session X cid target sid g s) =
    (case x_parse_uuid X target of
       None \<Rightarrow> broker_of s
     | Some nid \<Rightarrow> if bk_tunnels (broker_of s) (nid, sid) = Some cid then to_node g nid (broker_of s) else broker_of s)"
proof (cases "x_parse_uuid X target")
  case None
  then show ?thesis
    by (simp add: forward_to_session_def get_node_id_by_cid_and_sid_def)
next
  case (Some nid)
  have keyed: "sessions_keyed s"
    using assms by (simp add: state_wf_def)
  then have "bk_tunnels (broker_of s) (nid, sid) = Some cid \<longleftrightarrow>
      dm_get (st_tunnel_sessions s) (TunnelSessionKey_new nid sid) = Some (cid, nid)"
    by (force simp: sessions_keyed_def TunnelSessionKey_new_def)
  moreover have "to_node g nid (broker_of s) = broker_of s" if "dm_get (st_nodes s) nid = None"
    using that by (simp add: to_node_def post_def)
  ultimately show ?thesis
    using broker_of_send [OF assms, of nid] Some
    by (auto simp: forward_session_chan [OF keyed] session_chan_def split: option.splits)
qed

lemma broker_of_open_tunnel:
  assumes "state_wf s"
  shows "broker_of (handle_web_open_tunnel X cid protocol target mid username password s) =
    broker_web_frame X cid (WOpenTunnel protocol target username password mid) (broker_of s)"
  using broker_of_send [OF assms] broker_of_notify [OF assms]
  by (auto simp: handle_web_open_tunnel_def broker_web_frame_def split: option.splits)

lemma broker_of_web_heartbeat: "broker_of (update_web_heartbeat now cid s) = broker_of s"
  by (rule broker_eqI) (auto simp: update_web_heartbeat_def dm_simps split: option.splits)

lemma broker_of_web_frame:
  assumes "state_wf s"
  shows "broker_of (fst (handle_web_frame X now cid f s)) = broker_web_frame X cid f (broker_of s)"
  by (cases f)
    (simp_all add: web_forwarders broker_of_forward [OF assms] broker_of_open_tunnel [OF assms]
      broker_of_web_heartbeat, simp_all add: broker_web_frame_def)

lemma broker_of_heartbeat:
  assumes "state_wf s"
  shows "broker_of (fst (handle_node_heartbeat X now nid stats sent_at s)) =
    to_node (NHeartbeatAck sent_at (now_millis now)) nid (broker_of s)"
proof (cases "dm_get (st_nodes s) nid")
  case None
  then show ?thesis
    by (simp add: handle_node_heartbeat_def to_node_def post_def)
next
  case (Some info)
  let ?s1 = "fst (send_to_node (nc_tx info) (NHeartbeatAck sent_at (now_millis now)) s)"
  have "broker_of (?s1\<lparr>st_memory_db := m, st_nodes := dm_insert nid (info\<lparr>nc_node := n\<rparr>) (st_nodes ?s1)\<rparr>)
      = broker_of ?s1" for m n
    using Some by (intro broker_eqI) (auto simp: dm_simps srv_simps)
  then show ?thesis
    using Some broker_of_send [OF assms Some]
    by (auto simp: handle_node_heartbeat_def Let_def split: option.splits prod.splits bool.splits)
qed

lemma broker_of_set_session:
  "broker_of (s\<lparr>st_tunnel_sessions := dm_insert (TunnelSessionKey_new nid sid) (cid, nid) (st_tunnel_sessions s)\<rparr>)
     = set_tunnel nid sid (Some cid) (broker_of s)"
  "broker_of (s\<lparr>st_tunnel_sessions := dm_remove (TunnelSessionKey_new nid sid) (st_tunnel_sessions s)\<rparr>)
     = set_tunnel nid sid None (broker_of s)"
  by (rule broker_eqI; auto simp: set_tunnel_def dm_simps TunnelSessionKey_new_def)+

lemma state_wf_set_session:
  assumes "state_wf s"
  shows "state_wf (s\<lparr>st_tunnel_sessions := dm_insert (TunnelSessionKey_new nid sid) (cid, nid) (st_tunnel_sessions s)\<rparr>)"
    "state_wf (s\<lparr>st_tunnel_sessions := dm_remove key (st_tunnel_sessions s)\<rparr>)"
  using assms
  by (auto simp: state_wf_def sessions_keyed_def chans_allocated_def chans_separate_def dm_simps
      dm.wf_insert dm.wf_remove TunnelSessionKey_new_def split: if_splits)

lemma broker_of_session_lookup:
  assumes "state_wf s"
  shows "(case get_connection_id_by_sid s sid nid of Ok cid \<Rightarrow> F cid | _ \<Rightarrow> d) =
    (case bk_tunnels (broker_of s) (nid, sid) of None \<Rightarrow> d | Some cid \<Rightarrow> F cid)"
  using assms
  by (force simp: get_connection_id_by_sid_def state_wf_def sessions_keyed_def TunnelSessionKey_new_def
      split: option.splits)

lemma broker_of_node_frame:
  assumes "state_wf s"
  shows "broker_of (fst (handle_node_frame X now nid f s)) =
    broker_node_frame nid (now_millis now) f (broker_of s)"
proof (cases f)
  case (NHeartbeat stats sent_at)
  then show ?thesis
    using broker_of_heartbeat [OF assms]
    by (simp add: handle_node_frame_def broker_node_frame_def case_prod_unfold)
next
  case (NWebFrame g fid)
  then show ?thesis
    using broker_of_notify [OF assms]
    by (cases fid)
      (simp_all add: handle_node_frame_def handle_frame_response_def broker_node_frame_def
        broker_of_session_lookup [OF assms] split: option.splits)
qed (simp_all add: handle_node_frame_def handle_tunnel_opened_def handle_tunnel_closed_def
    broker_node_frame_def Let_def broker_of_notify state_wf_set_session assms broker_of_set_session)

lemma broker_of_close_sessions:
  assumes "state_wf s" "distinct (map fst L)"
    and "\<And>key v. (key, v) \<in> set L \<Longrightarrow> dm_get (st_tunnel_sessions s) key = Some v \<and> tsk_node_id key = nid"
  shows "broker_of (fst (close_sessions L n s)) = close_tunnels nid (map (\<lambda>e. tsk_sid (fst e)) L) (broker_of s)"
  using assms
proof (induction L arbitrary: n s)
  case (Cons e L)
  obtain key cid m where e: "e = (key, cid, m)"
    by (cases e) auto
  have key: "key = TunnelSessionKey_new nid (tsk_sid key)" and get: "dm_get (st_tunnel_sessions s) key = Some (cid, m)"
    using Cons.prems(3) [of key "(cid, m)"] by (auto simp: e TunnelSessionKey_new_def)
  let ?s1 = "s\<lparr>st_tunnel_sessions := dm_remove key (st_tunnel_sessions s)\<rparr>"
  let ?s2 = "fst (notify_client_by_cid cid (WTunnelClosed 0 (tsk_sid key) None) ?s1)"
  have wf: "state_wf ?s1"
    using Cons.prems(1) by (rule state_wf_set_session)
  have "broker_of ?s1 = set_tunnel nid (tsk_sid key) None (broker_of s)"
    using broker_of_set_session(2) [where s = s and nid = nid and sid = "tsk_sid key"] key by simp
  then have s2: "broker_of ?s2 =
      to_client (WTunnelClosed 0 (tsk_sid key) None) cid (set_tunnel nid (tsk_sid key) None (broker_of s))"
    using broker_of_notify [OF wf] by simp
  have "broker_of (fst (close_sessions L k ?s2)) = close_tunnels nid (map (\<lambda>e. tsk_sid (fst e)) L) (broker_of ?s2)" for k
  proof (rule Cons.IH)
    show "state_wf ?s2"
      using wf by (simp add: state_wf_notify)
    show "distinct (map fst L)"
      using Cons.prems(2) by simp
    fix key' v assume "(key', v) \<in> set L"
    moreover from this have "key' \<noteq> key"
      using Cons.prems(2) by (force simp: e)
    ultimately show "dm_get (st_tunnel_sessions ?s2) key' = Some v \<and> tsk_node_id key' = nid"
      using Cons.prems(3) [of key' v] by (simp add: srv_simps dm_simps)
  qed
  then show ?case
    using get key by (simp add: e Let_def case_prod_unfold s2 [symmetric])
qed simp

text \<open>The sessions of a node, in the order of the registry.\<close>

abbreviation node_entries :: "uuid \<Rightarrow> AppState \<Rightarrow> (TunnelSessionKey \<times> uuid \<times> uuid) list" where
  "node_entries nid s \<equiv> filter (\<lambda>(key, _). tsk_node_id key = nid) (dm_iter (st_tunnel_sessions s))"

lemma node_entries_iff:
  assumes "state_wf s"
  shows "(key, v) \<in> set (node_entries nid s) \<longleftrightarrow>
    dm_get (st_tunnel_sessions s) key = Some v \<and> tsk_node_id key = nid"
  using assms dm.iter_get [of "st_tunnel_sessions s" key v] by (auto simp: state_wf_def)

lemma node_entries_distinct:
  assumes "state_wf s"
  shows "distinct (map fst (node_entries nid s))" "distinct (map (\<lambda>e. tsk_sid (fst e)) (node_entries nid s))"
proof -
  show d: "distinct (map fst (node_entries nid s))"
    using assms dm.iter_distinct [of "st_tunnel_sessions s"]
    by (intro distinct_map_filter) (simp add: state_wf_def)
  have node: "tsk_node_id key = nid" if "key \<in> fst ` set (node_entries nid s)" for key
    using that by auto
  have "inj_on tsk_sid (fst ` set (node_entries nid s))"
  proof (rule inj_onI)
    fix k k' assume "k \<in> fst ` set (node_entries nid s)" "k' \<in> fst ` set (node_entries nid s)"
    then have "tsk_node_id k = tsk_node_id k'"
      using node by metis
    then show "tsk_sid k = tsk_sid k' \<Longrightarrow> k = k'"
      by simp
  qed
  then show "distinct (map (\<lambda>e. tsk_sid (fst e)) (node_entries nid s))"
    using d by (simp add: distinct_map comp_inj_on [unfolded comp_def])
qed

lemma node_entries_sids:
  assumes "state_wf s"
  shows "set (map (\<lambda>e. tsk_sid (fst e)) (node_entries nid s)) = {sid. bk_tunnels (broker_of s) (nid, sid) \<noteq> None}"
    (is "?A = ?B")
proof (intro set_eqI iffI)
  fix sid assume "sid \<in> ?A"
  then obtain key v where "(key, v) \<in> set (node_entries nid s)" "sid = tsk_sid key"
    by (auto simp del: set_filter)
  moreover from this have get: "dm_get (st_tunnel_sessions s) key = Some v" and "tsk_node_id key = nid"
    using node_entries_iff [OF assms] by blast+
  ultimately have "key = TunnelSessionKey_new nid sid"
    by (simp add: TunnelSessionKey_new_def)
  with get show "sid \<in> ?B"
    by simp
next
  fix sid assume "sid \<in> ?B"
  then obtain v where "dm_get (st_tunnel_sessions s) (TunnelSessionKey_new nid sid) = Some v"
    by auto
  moreover have "tsk_node_id (TunnelSessionKey_new nid sid) = nid" "tsk_sid (TunnelSessionKey_new nid sid) = sid"
    by (simp_all add: TunnelSessionKey_new_def)
  ultimately have "(TunnelSessionKey_new nid sid, v) \<in> set (node_entries nid s)" and
    "sid = tsk_sid (fst (TunnelSessionKey_new nid sid, v))"
    using node_entries_iff [OF assms] by (blast, simp)
  then show "sid \<in> ?A"
    unfolding list.set_map by (rule image_eqI [rotated])
qed

lemma broker_of_disconnect_node:
  assumes "state_wf s" "dm_get (st_nodes s) nid = Some info"
  shows "broker_of (disconnect_node X nid s) =
      close_tunnels nid (map (\<lambda>e. tsk_sid (fst e)) (node_entries nid s))
        ((broker_of s)\<lparr>bk_nodes := (bk_nodes (broker_of s))(nid := None)\<rparr>)"
proof -
  let ?s2 = "s\<lparr>st_nodes := dm_remove nid (st_nodes s),
    st_memory_db := fst (set_node_disconnected X (nc_node_record info) (st_memory_db s))\<rparr>"
  have wf2: "state_wf ?s2"
    using assms(1)
    by (auto simp: state_wf_def sessions_keyed_def chans_allocated_def chans_separate_def dm_simps
        dm.wf_remove split: if_splits)
  have "broker_of (fst (close_sessions (node_entries nid s) 0 ?s2)) =
      close_tunnels nid (map (\<lambda>e. tsk_sid (fst e)) (node_entries nid s)) (broker_of ?s2)"
  proof (rule broker_of_close_sessions [OF wf2 node_entries_distinct(1) [OF assms(1)]])
    fix key v assume "(key, v) \<in> set (node_entries nid s)"
    then show "dm_get (st_tunnel_sessions ?s2) key = Some v \<and> tsk_node_id key = nid"
      using node_entries_iff [OF assms(1)] by simp
  qed
  moreover have "broker_of ?s2 = (broker_of s)\<lparr>bk_nodes := (bk_nodes (broker_of s))(nid := None)\<rparr>"
    by (rule broker_eqI) (simp_all add: dm_simps)
  moreover have "disconnect_node X nid s = fst (close_sessions (node_entries nid s) 0 ?s2)"
    using assms(2) by (simp add: disconnect_node_def notify_all_clients_for_closed_tunnel_def Let_def)
  ultimately show ?thesis
    by simp
qed

lemma send_all_chan:
  "st_node_chans (send_all f L s) tx =
     (if \<exists>e \<in> set L. nc_tx (snd e) = tx \<and> \<not> ch_closed (st_node_chans s tx)
      then (st_node_chans s tx)\<lparr>ch_queue := ch_queue (st_node_chans s tx) @
             replicate (length (filter (\<lambda>(_, c). nc_tx c = tx) L)) f\<rparr>
      else st_node_chans s tx)"
  by (induction L arbitrary: s)
    (auto simp: send_to_node_def chan_send_def Let_def case_prod_unfold split: if_splits)

lemma broker_of_disconnect_web:
  assumes "state_wf s"
  shows "broker_of (disconnect_web_client X cid s) = broker_client_down cid (broker_of s)"
proof -
  define s2 where "s2 = (case dm_get (st_connections s) cid of None \<Rightarrow> s
    | Some info \<Rightarrow> s\<lparr>st_connections := dm_remove cid (st_connections s),
        st_memory_db := fst (set_connection_disconnected X cid (st_memory_db s))\<rparr>)"
  have s': "disconnect_web_client X cid s = notify_nodes_client_disconnect cid s2"
    by (simp add: disconnect_web_client_def s2_def Let_def split: option.splits)
  have s2: "st_nodes s2 = st_nodes s" "st_node_chans s2 = st_node_chans s"
    "st_tunnel_sessions s2 = st_tunnel_sessions s" "st_web_chans s2 = st_web_chans s"
    "dm_get (st_connections s2) c = (if c = cid then None else dm_get (st_connections s) c)" for c
    by (auto simp: s2_def dm_simps split: option.splits)
  have wf: "dm_wf (st_nodes s)"
    using assms by (simp add: state_wf_def)
  have "st_node_chans (notify_nodes_client_disconnect cid s2) (nc_tx info) =
      fst (chan_send (NConnectionDisconnect cid) (st_node_chans s (nc_tx info)))"
    if "dm_get (st_nodes s) nid = Some info" for nid info
  proof -
    have "\<exists>e \<in> set (dm_iter (st_nodes s)). nc_tx (snd e) = nc_tx info"
      using that dm.iter_get [OF wf, of nid info] by force
    then show ?thesis
      using registered_once [OF assms that]
      by (simp add: notify_nodes_client_disconnect_def send_all_chan s2 chan_send_def)
  qed
  then show ?thesis
    by (intro broker_eqI)
      (auto simp: s' broker_client_down_def notify_nodes_client_disconnect_def srv_simps s2 option.map_comp
        intro!: option.map_cong)
qed

section \<open>The simulation\<close>

text \<open>
  Beside the invariant of the system, the channels of running tasks have been created and belong
  to one identifier each.
\<close>

definition tasks_own :: "chan_id \<Rightarrow> (uuid \<times> chan_id) set \<Rightarrow> bool" where
  "tasks_own next T \<longleftrightarrow>
     (\<forall>i tx. (i, tx) \<in> T \<longrightarrow> tx < next) \<and> (\<forall>i j tx. (i, tx) \<in> T \<longrightarrow> (j, tx) \<in> T \<longrightarrow> i = j)"

definition broker_inv :: "system \<Rightarrow> bool" where
  "broker_inv y \<longleftrightarrow> system_inv y \<and>
     tasks_own (st_next_chan (sy_state y)) (sy_node_tasks y) \<and>
     tasks_own (st_next_chan (sy_state y)) (sy_web_tasks y)"

lemma tasks_own_rules:
  "tasks_own next T \<Longrightarrow> tasks_own next (T - S)"
  "tasks_own next T \<Longrightarrow> next \<le> next' \<Longrightarrow> tasks_own next' T"
  "tasks_own next T \<Longrightarrow> tasks_own (Suc next) (insert (i, next) T)"
  by (fastforce simp: tasks_own_def)+

lemma node_event_next: "st_next_chan (fst (handle_node_event X now nid ev s)) = st_next_chan s"
proof -
  have "st_next_chan (fst (handle_node_heartbeat X now nid st t s)) = st_next_chan s" for st t
    by (auto simp: handle_node_heartbeat_def Let_def srv_simps split: option.splits prod.splits bool.splits)
  then have "st_next_chan (fst (handle_node_frame X now nid f s)) = st_next_chan s" for f
    by (cases f)
      (auto simp: handle_node_frame_def case_prod_unfold handle_tunnel_opened_def handle_tunnel_closed_def
        handle_frame_response_def srv_simps Let_def split: WebFrameId.splits outcome.splits)
  then show ?thesis
    by (auto simp: handle_node_event_def split: ws_event.splits outcome.splits FrameData.splits)
qed

lemma web_event_next: "st_next_chan (fst (handle_web_event X now cid ev s)) = st_next_chan s"
proof -
  have "st_next_chan (forward_to_session X cid t sid g s) = st_next_chan s" for t sid g
    by (simp add: forward_to_session_def srv_simps split: outcome.splits option.splits)
  then have "st_next_chan (fst (handle_web_frame X now cid f s)) = st_next_chan s" for f
    by (cases f)
      (auto simp: web_forwarders update_web_heartbeat_def handle_web_open_tunnel_def srv_simps
        split: option.splits)
  then show ?thesis
    by (auto simp: handle_web_event_def split: ws_event.splits outcome.splits FrameData.splits)
qed

lemma socket_end_next:
  "st_next_chan (node_socket_end X nid tx s) = st_next_chan s"
  "st_next_chan (web_socket_end X cid tx s) = st_next_chan s"
  by (auto simp: node_socket_end_def web_socket_end_def close_node_chan_def close_web_chan_def
      disconnect_node_def disconnect_web_client_def notify_nodes_client_disconnect_def Let_def srv_simps
      split: option.splits)

lemma socket_open_next:
  "st_next_chan (fst (node_socket_open X now ip evs s)) = Suc (st_next_chan s)"
  "node_socket_open X now ip evs s = (s', Some (nid, tx)) \<Longrightarrow> tx = st_next_chan s"
  "st_next_chan (fst (web_socket_open X now cid ip evs s)) = Suc (st_next_chan s)"
  "web_socket_open X now cid ip evs s = (s', Some (c, tx)) \<Longrightarrow> tx = st_next_chan s"
proof -
  have n: "st_next_chan (fst (wait_for_node_auth X now tx evs (fst (alloc_node_chan s)))) = Suc (st_next_chan s)" for tx
    using wait_for_node_auth_state [of X now tx evs "fst (alloc_node_chan s)"]
    by (auto simp: srv_simps alloc_node_chan_def)
  have w: "st_next_chan (fst (wait_for_web_auth X now cid tx evs (fst (alloc_web_chan s)))) = Suc (st_next_chan s)" for tx
    using wait_for_web_auth_state [of X now cid tx evs "fst (alloc_web_chan s)"]
    by (auto simp: srv_simps alloc_web_chan_def)
  show "st_next_chan (fst (node_socket_open X now ip evs s)) = Suc (st_next_chan s)"
    using n [of "st_next_chan s"]
    by (auto simp: node_socket_open_def alloc_node_chan_def close_node_chan_def Let_def
        split: prod.splits outcome.splits)
  show "st_next_chan (fst (web_socket_open X now cid ip evs s)) = Suc (st_next_chan s)"
    using w [of "st_next_chan s"]
    by (auto simp: web_socket_open_def alloc_web_chan_def close_web_chan_def Let_def
        split: prod.splits outcome.splits)
  show "node_socket_open X now ip evs s = (s', Some (nid, tx)) \<Longrightarrow> tx = st_next_chan s"
    by (erule node_socket_open_Some) simp
  show "web_socket_open X now cid ip evs s = (s', Some (c, tx)) \<Longrightarrow> tx = st_next_chan s"
    by (erule web_socket_open_Some) simp
qed

lemma write_step_next:
  "node_write_step X tx s = Some (s', out) \<Longrightarrow> st_next_chan s' = st_next_chan s"
  "web_write_step X tx s = Some (s', out) \<Longrightarrow> st_next_chan s' = st_next_chan s"
  by (auto simp: node_write_step_def web_write_step_def Let_def close_node_chan_def close_web_chan_def
      split: option.splits outcome.splits)

lemma http_next:
  "st_next_chan (fst (create_auth_challenge X random now nid s)) = st_next_chan s"
  "st_next_chan (fst (verify_auth_challenge X now req s)) = st_next_chan s"
  "st_next_chan (fst (require_node_jwt X now headers (heartbeat now) s)) = st_next_chan s"
  "st_next_chan (fst (claim_node X now new_id headers payload s)) = st_next_chan s"
  "st_next_chan (keep_server_alive_task X stats_json s) = st_next_chan s"
proof -
  have db: "st_next_chan t = st_next_chan s" if "\<exists>db. t = s\<lparr>st_db := db\<rparr>" for t
    using that by auto
  show "st_next_chan (fst (create_auth_challenge X random now nid s)) = st_next_chan s"
    by (rule db, rule http_frame)
  show "st_next_chan (fst (verify_auth_challenge X now req s)) = st_next_chan s"
    by (rule db, rule http_frame)
  show "st_next_chan (fst (require_node_jwt X now headers (heartbeat now) s)) = st_next_chan s"
    by (rule db, rule http_frame)
  show "st_next_chan (fst (claim_node X now new_id headers payload s)) = st_next_chan s"
    by (rule db, rule http_frame)
  show "st_next_chan (keep_server_alive_task X stats_json s) = st_next_chan s"
    by (simp add: keep_server_alive_task_def Let_def split: option.splits)
qed

lemma next_chan_dest:
  "node_socket_open X now ip evs s = (s', r) \<Longrightarrow> st_next_chan s' = Suc (st_next_chan s)"
  "web_socket_open X now cid ip evs s = (s', r) \<Longrightarrow> st_next_chan s' = Suc (st_next_chan s)"
  "handle_node_event X now nid ev s = (s', g) \<Longrightarrow> st_next_chan s' = st_next_chan s"
  "handle_web_event X now cid ev s = (s', g) \<Longrightarrow> st_next_chan s' = st_next_chan s"
  using socket_open_next(1) [of X now ip evs s] socket_open_next(3) [of X now cid ip evs s]
    node_event_next [of X now nid ev s] web_event_next [of X now cid ev s]
  by auto

lemma broker_inv_step:
  assumes "server_step X y y'" "broker_inv y"
  shows "broker_inv y'"
proof -
  obtain l where act: "server_act X l y y'"
    using assms(1) by (rule server_stepE)
  have "system_inv y'"
    using assms server_step_inv by (auto simp: broker_inv_def)
  moreover have "tasks_own (st_next_chan (sy_state y')) (sy_node_tasks y') \<and>
      tasks_own (st_next_chan (sy_state y')) (sy_web_tasks y')"
    using act assms(2) unfolding broker_inv_def
    by (induction rule: server_act.induct)
      (auto simp: next_chan_dest write_step_next socket_end_next http_next srv_simps
        intro: tasks_own_rules dest!: socket_open_next(2,4))
  ultimately show ?thesis
    by (simp add: broker_inv_def)
qed

text \<open>Channels of other tasks are invisible to the broker.\<close>

lemma broker_of_node_chan:
  assumes "\<And>i info. dm_get (st_nodes s) i = Some info \<Longrightarrow> nc_tx info = tx \<Longrightarrow> i = nid"
  shows "broker_of (s\<lparr>st_node_chans := (st_node_chans s)(tx := c)\<rparr>) =
    (if \<exists>info. dm_get (st_nodes s) nid = Some info \<and> nc_tx info = tx
     then (broker_of s)\<lparr>bk_nodes := (bk_nodes (broker_of s))(nid \<mapsto> c)\<rparr> else broker_of s)"
proof (rule broker_eqI)
  fix i
  show "bk_nodes (broker_of (s\<lparr>st_node_chans := (st_node_chans s)(tx := c)\<rparr>)) i =
    bk_nodes (if \<exists>info. dm_get (st_nodes s) nid = Some info \<and> nc_tx info = tx
     then (broker_of s)\<lparr>bk_nodes := (bk_nodes (broker_of s))(nid \<mapsto> c)\<rparr> else broker_of s) i"
    using assms [of i] by (cases "dm_get (st_nodes s) i") auto
qed auto

lemma broker_of_web_chan:
  assumes "\<And>i info. dm_get (st_connections s) i = Some info \<Longrightarrow> wc_tx info = tx \<Longrightarrow> i = cid"
  shows "broker_of (s\<lparr>st_web_chans := (st_web_chans s)(tx := c)\<rparr>) =
    (if \<exists>info. dm_get (st_connections s) cid = Some info \<and> wc_tx info = tx
     then (broker_of s)\<lparr>bk_clients := (bk_clients (broker_of s))(cid \<mapsto> c)\<rparr> else broker_of s)"
proof (rule broker_eqI)
  fix i
  show "bk_clients (broker_of (s\<lparr>st_web_chans := (st_web_chans s)(tx := c)\<rparr>)) i =
    bk_clients (if \<exists>info. dm_get (st_connections s) cid = Some info \<and> wc_tx info = tx
     then (broker_of s)\<lparr>bk_clients := (bk_clients (broker_of s))(cid \<mapsto> c)\<rparr> else broker_of s) i"
    using assms [of i] by (cases "dm_get (st_connections s) i") auto
qed auto

lemma task_channels:
  assumes "broker_inv y"
  shows "(nid, tx) \<in> sy_node_tasks y \<Longrightarrow> dm_get (st_nodes (sy_state y)) i = Some info \<Longrightarrow> nc_tx info = tx \<Longrightarrow> i = nid"
    "(cid, tx) \<in> sy_web_tasks y \<Longrightarrow> dm_get (st_connections (sy_state y)) j = Some conn \<Longrightarrow> wc_tx conn = tx \<Longrightarrow> j = cid"
  using assms unfolding broker_inv_def system_inv_def tasks_own_def by blast+

text \<open>The same after an event was handled: it keeps the registered senders.\<close>

lemma task_channels_event:
  assumes "broker_inv y"
  shows "(nid, tx) \<in> sy_node_tasks y \<Longrightarrow>
      dm_get (st_nodes (fst (handle_node_event X now n ev (sy_state y)))) i = Some info \<Longrightarrow> nc_tx info = tx \<Longrightarrow> i = nid"
    "(cid, tx) \<in> sy_web_tasks y \<Longrightarrow>
      dm_get (st_connections (fst (handle_web_event X now c ev (sy_state y)))) j = Some conn \<Longrightarrow> wc_tx conn = tx \<Longrightarrow> j = cid"
proof -
  note n = fun_cong [OF node_event_txs(1) [of X now n ev "sy_state y"], of i]
  note w = fun_cong [OF web_event_txs(2) [of X now c ev "sy_state y"], of j]
  show "(nid, tx) \<in> sy_node_tasks y \<Longrightarrow>
      dm_get (st_nodes (fst (handle_node_event X now n ev (sy_state y)))) i = Some info \<Longrightarrow> nc_tx info = tx \<Longrightarrow> i = nid"
    using n task_channels(1) [OF assms, of nid tx i]
    by (cases "dm_get (st_nodes (sy_state y)) i") (auto simp: node_txs_def)
  show "(cid, tx) \<in> sy_web_tasks y \<Longrightarrow>
      dm_get (st_connections (fst (handle_web_event X now c ev (sy_state y)))) j = Some conn \<Longrightarrow> wc_tx conn = tx \<Longrightarrow> j = cid"
    using w task_channels(2) [OF assms, of cid tx j]
    by (cases "dm_get (st_connections (sy_state y)) j") (auto simp: web_txs_def)
qed

lemma broker_node_end:
  assumes "state_wf s" and own: "\<And>i info. dm_get (st_nodes s) i = Some info \<Longrightarrow> nc_tx info = tx \<Longrightarrow> i = nid"
  shows "(broker_step X)\<^sup>*\<^sup>* (broker_of s) (broker_of (node_socket_end X nid tx s))"
proof (cases "dm_get (st_nodes s) nid")
  case None
  then show ?thesis
    using broker_of_node_chan [of s tx nid] own
    by (simp add: node_socket_end_def close_node_chan_def disconnect_node_def)
next
  case (Some info)
  let ?s = "close_node_chan tx s"
  have wf: "state_wf ?s"
    using assms(1) by (simp add: close_node_chan_def)
  have get: "dm_get (st_nodes ?s) nid = Some info"
    using Some by (simp add: close_node_chan_def)
  have "(broker_of ?s)\<lparr>bk_nodes := (bk_nodes (broker_of ?s))(nid := None)\<rparr> =
      (broker_of s)\<lparr>bk_nodes := (bk_nodes (broker_of s))(nid := None)\<rparr>"
    using broker_of_node_chan [of s tx nid] own by (simp add: close_node_chan_def)
  then have "broker_of (node_socket_end X nid tx s) =
      close_tunnels nid (map (\<lambda>e. tsk_sid (fst e)) (node_entries nid ?s))
        ((broker_of s)\<lparr>bk_nodes := (bk_nodes (broker_of s))(nid := None)\<rparr>)"
    using broker_of_disconnect_node [OF wf get, of X] by (simp add: node_socket_end_def)
  moreover have "bk_tunnels (broker_of ?s) = bk_tunnels (broker_of s)"
    by (simp add: close_node_chan_def broker_of_def)
  moreover from this have "set (map (\<lambda>e. tsk_sid (fst e)) (node_entries nid ?s)) = {sid. bk_tunnels (broker_of s) (nid, sid) \<noteq> None}"
    using node_entries_sids [OF wf, of nid] by presburger
  from this have "broker_step X (broker_of s) (close_tunnels nid (map (\<lambda>e. tsk_sid (fst e)) (node_entries nid ?s))
        ((broker_of s)\<lparr>bk_nodes := (bk_nodes (broker_of s))(nid := None)\<rparr>))"
    using Some by (intro broker_step.node_down node_entries_distinct(2) [OF wf]) (auto simp: dom_def)
  ultimately show ?thesis
    by (metis r_into_rtranclp)
qed

lemma broker_web_end:
  assumes "state_wf s" and own: "\<And>i info. dm_get (st_connections s) i = Some info \<Longrightarrow> wc_tx info = tx \<Longrightarrow> i = cid"
  shows "(broker_step X)\<^sup>*\<^sup>* (broker_of s) (broker_of (web_socket_end X cid tx s))"
proof -
  have wf: "state_wf (close_web_chan tx s)"
    using assms(1) by (simp add: close_web_chan_def)
  have "broker_client_down cid (broker_of (close_web_chan tx s)) = broker_client_down cid (broker_of s)"
    using broker_of_web_chan [of s tx cid] own by (simp add: close_web_chan_def broker_client_down_def)
  then have "broker_of (web_socket_end X cid tx s) = broker_client_down cid (broker_of s)"
    using broker_of_disconnect_web [OF wf] by (simp add: web_socket_end_def)
  then show ?thesis
    using broker_step.client_down [of X "broker_of s" cid] by auto
qed

lemma fresh_chan_unregistered:
  assumes "state_wf s"
  shows "dm_get (st_nodes s) i = Some info \<Longrightarrow> nc_tx info \<noteq> st_next_chan s"
    "dm_get (st_connections s) j = Some conn \<Longrightarrow> wc_tx conn \<noteq> st_next_chan s"
  using assms unfolding state_wf_def chans_allocated_def by (metis less_irrefl)+

lemma broker_node_open:
  assumes "state_wf s" "node_socket_open X now ip evs s = (s', Some (nid, tx))"
  shows "broker_step X (broker_of s) (broker_of s')"
proof -
  let ?s0 = "fst (alloc_node_chan s)" let ?f = "NAuthResponse nid True (x_version X)"
  obtain s1 rec where tx: "tx = st_next_chan s"
    and w: "wait_for_node_auth X now tx evs ?s0 = (s1, Ok nid)"
    and s': "s' = s1\<lparr>st_memory_db := fst (set_node_connected X rec (st_server s1) (st_memory_db s1)),
           st_nodes := dm_insert nid (NodeConnection_new now (st_id s1) ip tx rec) (st_nodes s1)\<rparr>"
    using assms(2) by (rule node_socket_open_Some)
  have s1: "s1 = fst (send_to_node tx ?f ?s0)"
    using w by (rule wait_for_node_auth_Ok)
  have "broker_of s' = (broker_of s)\<lparr>bk_nodes := (bk_nodes (broker_of s))(nid \<mapsto> (chan_new 256)\<lparr>ch_queue := [?f]\<rparr>)\<rparr>"
  proof (rule broker_eqI)
    fix i
    show "bk_nodes (broker_of s') i =
        bk_nodes ((broker_of s)\<lparr>bk_nodes := (bk_nodes (broker_of s))(nid \<mapsto> (chan_new 256)\<lparr>ch_queue := [?f]\<rparr>)\<rparr>) i"
      using fresh_chan_unregistered(1) [OF assms(1), of i]
      by (cases "dm_get (st_nodes s) i")
        (auto simp: s' s1 tx dm_simps send_to_node_def chan_send_def chan_new_def alloc_node_chan_def
          NodeConnection_new_def Let_def)
  qed (simp_all add: s' s1 srv_simps alloc_node_chan_def)
  then show ?thesis
    by (simp add: broker_step.node_up)
qed

lemma broker_web_open:
  assumes "state_wf s" "web_socket_open X now new_cid ip evs s = (s', Some (cid, tx))"
  shows "broker_step X (broker_of s) (broker_of s')"
proof -
  let ?s0 = "fst (alloc_web_chan s)"
  obtain s1 where tx: "tx = st_next_chan s"
    and w: "wait_for_web_auth X now new_cid tx evs ?s0 = (s1, Ok cid)"
    and s': "s' = s1\<lparr>st_connections := dm_insert cid (WebConnection_new now ip tx) (st_connections s1),
           st_memory_db := fst (set_connection_connected X cid ip (st_server s1) (st_memory_db s1))\<rparr>"
    using assms(2) by (rule web_socket_open_Some)
  obtain v mid where cid: "cid = new_cid" and s1: "s1 = fst (send_to_web tx (WAuthSuccess new_cid v mid) ?s0)"
    using w by (rule wait_for_web_auth_Ok)
  let ?c = "(chan_new 256)\<lparr>ch_queue := [WAuthSuccess cid v mid]\<rparr>"
  have "broker_of s' = (broker_of s)\<lparr>bk_clients := (bk_clients (broker_of s))(cid \<mapsto> ?c)\<rparr>"
  proof (rule broker_eqI)
    fix i
    show "bk_clients (broker_of s') i = bk_clients ((broker_of s)\<lparr>bk_clients := (bk_clients (broker_of s))(cid \<mapsto> ?c)\<rparr>) i"
      using fresh_chan_unregistered(2) [OF assms(1), of i]
      by (cases "dm_get (st_connections s) i")
        (auto simp: s' s1 tx cid dm_simps send_to_web_def chan_send_def chan_new_def alloc_web_chan_def
          WebConnection_new_def Let_def)
  qed (simp_all add: s' s1 srv_simps alloc_web_chan_def)
  then show ?thesis
    by (simp add: broker_step.client_up)
qed

lemma broker_node_reject:
  assumes "state_wf s" "node_socket_open X now ip evs s = (s', None)"
  shows "broker_of s' = broker_of s"
proof -
  let ?s0 = "fst (alloc_node_chan s)" let ?w = "fst (wait_for_node_auth X now (st_next_chan s) evs (fst (alloc_node_chan s)))"
  have s': "s' = close_node_chan (st_next_chan s) ?w"
    using node_socket_open_None [OF assms(2)] by simp
  have "?w = ?s0 \<or> (\<exists>f. ?w = fst (send_to_node (st_next_chan s) f ?s0))"
    by (rule wait_for_node_auth_state)
  then show ?thesis
    unfolding s'
  proof (elim disjE exE; intro broker_eqI)
  qed (use fresh_chan_unregistered(1) [OF assms(1)] in
    \<open>auto simp: close_node_chan_def alloc_node_chan_def send_to_node_def Let_def case_prod_unfold
       intro!: option.map_cong0 option.map_cong\<close>)
qed

lemma broker_web_reject:
  assumes "state_wf s" "web_socket_open X now new_cid ip evs s = (s', None)"
  shows "broker_of s' = broker_of s"
proof -
  let ?s0 = "fst (alloc_web_chan s)" let ?w = "fst (wait_for_web_auth X now new_cid (st_next_chan s) evs (fst (alloc_web_chan s)))"
  have s': "s' = close_web_chan (st_next_chan s) ?w"
    using web_socket_open_None [OF assms(2)] by simp
  have "?w = ?s0 \<or> (\<exists>f. ?w = fst (send_to_web (st_next_chan s) f ?s0))"
    by (rule wait_for_web_auth_state)
  then show ?thesis
    unfolding s'
  proof (elim disjE exE; intro broker_eqI)
  qed (use fresh_chan_unregistered(2) [OF assms(1)] in
    \<open>auto simp: close_web_chan_def alloc_web_chan_def send_to_web_def Let_def case_prod_unfold
       intro!: option.map_cong\<close>)
qed

lemma broker_node_write:
  assumes "node_write_step X tx s = Some (s', out)"
    and own: "\<And>i info. dm_get (st_nodes s) i = Some info \<Longrightarrow> nc_tx info = tx \<Longrightarrow> i = nid"
  shows "(broker_step X)\<^sup>*\<^sup>* (broker_of s) (broker_of s')"
proof -
  obtain f c where recv: "chan_recv (st_node_chans s tx) = Some (f, c)"
    using assms(1) by (auto simp: node_write_step_def split: option.splits)
  with assms(1) obtain c'' where c'': "c'' = c \<or> c'' = chan_close c"
    and s': "s' = s\<lparr>st_node_chans := (st_node_chans s)(tx := c'')\<rparr>"
    by (auto simp: node_write_step_def Let_def close_node_chan_def split: outcome.splits)
  show ?thesis
  proof (cases "\<exists>info. dm_get (st_nodes s) nid = Some info \<and> nc_tx info = tx")
    case True
    then have "bk_nodes (broker_of s) nid = Some (st_node_chans s tx)"
      by auto
    from broker_step.node_taken [OF this recv c'', of X] have "broker_step X (broker_of s) (broker_of s')"
      using True broker_of_node_chan [of s tx nid c''] own by (simp add: s')
    then show ?thesis ..
  next
    case False
    then show ?thesis
      using broker_of_node_chan [of s tx nid c''] own by (auto simp: s')
  qed
qed

lemma broker_web_write:
  assumes "web_write_step X tx s = Some (s', out)"
    and own: "\<And>i info. dm_get (st_connections s) i = Some info \<Longrightarrow> wc_tx info = tx \<Longrightarrow> i = cid"
  shows "(broker_step X)\<^sup>*\<^sup>* (broker_of s) (broker_of s')"
proof -
  obtain f c where recv: "chan_recv (st_web_chans s tx) = Some (f, c)"
    using assms(1) by (auto simp: web_write_step_def split: option.splits)
  with assms(1) obtain c'' where c'': "c'' = c \<or> c'' = chan_close c"
    and s': "s' = s\<lparr>st_web_chans := (st_web_chans s)(tx := c'')\<rparr>"
    by (auto simp: web_write_step_def Let_def close_web_chan_def split: outcome.splits)
  show ?thesis
  proof (cases "\<exists>info. dm_get (st_connections s) cid = Some info \<and> wc_tx info = tx")
    case True
    then have "bk_clients (broker_of s) cid = Some (st_web_chans s tx)"
      by auto
    from broker_step.client_taken [OF this recv c'', of X] have "broker_step X (broker_of s) (broker_of s')"
      using True broker_of_web_chan [of s tx cid c''] own by (simp add: s')
    then show ?thesis ..
  next
    case False
    then show ?thesis
      using broker_of_web_chan [of s tx cid c''] own by (auto simp: s')
  qed
qed

lemma broker_refresh:
  assumes "state_wf s"
  shows "broker_step X (broker_of s) (broker_of (refresh_connections_task X now s))"
proof -
  let ?s = "refresh_connections_task X now s"
  have "broker_of ?s = (broker_of s)\<lparr>bk_nodes := bk_nodes (broker_of s) |` dom (dm_get (st_nodes ?s)),
      bk_clients := bk_clients (broker_of s) |` dom (dm_get (st_connections ?s))\<rparr>"
    by (rule broker_eqI)
      (auto simp: srv_simps cleanup_get [OF assms] restrict_map_def split: option.splits if_splits)
  then show ?thesis
    by (simp add: broker_step.silent_dropped)
qed

text \<open>An event is at most one frame, and a frame that cannot be decoded is none.\<close>

lemma broker_node_event:
  assumes "state_wf s"
  shows "(broker_step X)\<^sup>*\<^sup>* (broker_of s) (broker_of (fst (handle_node_event X now nid ev s)))"
  using broker_of_node_frame [OF assms] broker_step.node_frame
  by (auto simp: handle_node_event_def split: ws_event.splits outcome.splits FrameData.splits
      intro: r_into_rtranclp)

lemma broker_web_event:
  assumes "state_wf s"
  shows "(broker_step X)\<^sup>*\<^sup>* (broker_of s) (broker_of (fst (handle_web_event X now cid ev s)))"
  using broker_of_web_frame [OF assms] broker_step.client_frame
  by (auto simp: handle_web_event_def split: ws_event.splits outcome.splits FrameData.splits
      intro: r_into_rtranclp)

lemma broker_http:
  "broker_of (fst (create_auth_challenge X random now nid s)) = broker_of s"
  "broker_of (fst (verify_auth_challenge X now req s)) = broker_of s"
  "broker_of (fst (require_node_jwt X now headers (heartbeat now) s)) = broker_of s"
  "broker_of (fst (claim_node X now new_id headers payload s)) = broker_of s"
  "broker_of (keep_server_alive_task X stats_json s) = broker_of s"
proof -
  have db: "broker_of t = broker_of s" if "\<exists>db. t = s\<lparr>st_db := db\<rparr>" for t
    using that by auto
  show "broker_of (fst (create_auth_challenge X random now nid s)) = broker_of s"
    by (rule db, rule http_frame)
  show "broker_of (fst (verify_auth_challenge X now req s)) = broker_of s"
    by (rule db, rule http_frame)
  show "broker_of (fst (require_node_jwt X now headers (heartbeat now) s)) = broker_of s"
    by (rule db, rule http_frame)
  show "broker_of (fst (claim_node X now new_id headers payload s)) = broker_of s"
    by (rule db, rule http_frame)
  show "broker_of (keep_server_alive_task X stats_json s) = broker_of s"
    by (simp add: keep_server_alive_task_def Let_def split: option.splits)
qed

lemma broker_simulates:
  assumes "server_step X y y'" "broker_inv y"
  shows "(broker_step X)\<^sup>*\<^sup>* (broker_of (sy_state y)) (broker_of (sy_state y'))"
proof -
  have wf: "state_wf (sy_state y)"
    using assms(2) by (simp add: broker_inv_def system_inv_def)
  obtain l where "server_act X l y y'"
    using assms(1) by (rule server_stepE)
  then show ?thesis
  proof cases
    case (node_stop nid tx now ev s')
    have s': "s' = fst (handle_node_event X now nid ev (sy_state y))"
      using node_stop(4) by simp
    have "(broker_step X)\<^sup>*\<^sup>* (broker_of s') (broker_of (node_socket_end X nid tx s'))"
      by (rule broker_node_end)
        (use handle_node_event_wf [OF wf] task_channels_event(1) [OF assms(2) node_stop(3)] in \<open>simp_all add: s'\<close>)
    then show ?thesis
      using broker_node_event [OF wf, of X now nid ev] by (simp add: node_stop(2) s')
  next
    case (web_stop cid tx now ev s')
    have s': "s' = fst (handle_web_event X now cid ev (sy_state y))"
      using web_stop(4) by simp
    have "(broker_step X)\<^sup>*\<^sup>* (broker_of s') (broker_of (web_socket_end X cid tx s'))"
      by (rule broker_web_end)
        (use handle_web_event_wf [OF wf] task_channels_event(2) [OF assms(2) web_stop(3)] in \<open>simp_all add: s'\<close>)
    then show ?thesis
      using broker_web_event [OF wf, of X now cid ev] by (simp add: web_stop(2) s')
  next
    case (node_event nid tx now ev s')
    then show ?thesis
      using broker_node_event [OF wf, of X now nid ev] by simp
  next
    case (web_event cid tx now ev s')
    then show ?thesis
      using broker_web_event [OF wf, of X now cid ev] by simp
  next
    case (node_eof nid tx)
    then show ?thesis
      using broker_node_end [OF wf task_channels(1) [OF assms(2) node_eof(3)], where X = X] by simp
  next
    case (web_eof cid tx)
    then show ?thesis
      using broker_web_end [OF wf task_channels(2) [OF assms(2) web_eof(3)], where X = X] by simp
  next
    case (node_write nid tx s' out)
    then show ?thesis
      using broker_node_write [OF node_write(4) task_channels(1) [OF assms(2) node_write(3)]] by simp
  next
    case (web_write cid tx s' out)
    then show ?thesis
      using broker_web_write [OF web_write(4) task_channels(2) [OF assms(2) web_write(3)]] by simp
  qed (use wf in \<open>auto simp: broker_http broker_node_reject broker_web_reject
      intro: broker_node_open broker_web_open broker_refresh\<close>)
qed

interpretation server: simulation "server_step X" broker_inv "broker_step X" "\<lambda>y. broker_of (sy_state y)" for X
  by unfold_locales (auto intro: broker_inv_step broker_simulates)

lemma broker_inv_start:
  assumes "st_nodes (sy_state y) = []" "st_connections (sy_state y) = []" "st_tunnel_sessions (sy_state y) = []"
    and "sy_node_tasks y = {}" "sy_web_tasks y = {}"
  shows "broker_inv y"
  using assms
  by (simp add: broker_inv_def system_inv_def state_wf_def sessions_keyed_def chans_allocated_def
      chans_separate_def tasks_own_def dm_get_def)

definition empty_broker :: broker where
  "empty_broker = \<lparr>bk_nodes = Map.empty, bk_clients = Map.empty, bk_tunnels = Map.empty\<rparr>"

section \<open>Properties\<close>



end
