(* ===== verification/Server_Delivery.thy ===== *)
theory Server_Delivery
  imports Broker Server_Trace
begin

text \<open>
  Where the frames for the pages come from. In a run of the server every frame in the mailbox of a
  client is one the server makes up itself (the welcome, an error, the notice that a node left) or
  one that a node addressed to this client: by its identifier, or by the number of a tunnel that
  was the client's own when the node spoke.
\<close>

section \<open>What the nodes say\<close>

definition said :: "server_ext \<Rightarrow> action \<Rightarrow> (uuid \<times> NodeFrameData) option" where
  "said X l =
     (case l of
        NodeRecv nid _ (WsBinary bs) \<Rightarrow>
          (case Frame_decode Native64 (x_codec X) bs of
             Ok frame \<Rightarrow> (case fr_data frame of Node g \<Rightarrow> Some (nid, g) | Web _ \<Rightarrow> None)
           | _ \<Rightarrow> None)
      | _ \<Rightarrow> None)"

text \<open>The client of each tunnel, going by what the nodes have announced.\<close>

fun announce :: "uuid \<Rightarrow> NodeFrameData \<Rightarrow> (uuid \<times> u32 \<rightharpoonup> uuid) \<Rightarrow> (uuid \<times> u32 \<rightharpoonup> uuid)" where
  "announce nid (NTunnelOpened _ cid sid _) m = m((nid, sid) \<mapsto> cid)"
| "announce nid (NTunnelClosed _ _ sid _) m = m((nid, sid) := None)"
| "announce nid _ m = m"

definition announced :: "server_ext \<Rightarrow> action list \<Rightarrow> (uuid \<times> u32 \<rightharpoonup> uuid)" where
  "announced X tr =
     fold (\<lambda>l m. case said X l of None \<Rightarrow> m | Some (nid, g) \<Rightarrow> announce nid g m) tr Map.empty"

lemma announced_simps [simp]:
  "announced X [] = Map.empty"
  "announced X (tr @ [l]) = (case said X l of None \<Rightarrow> announced X tr | Some (nid, g) \<Rightarrow> announce nid g (announced X tr))"
  unfolding announced_def by simp_all

text \<open>The client a message of node \<open>nid\<close> is for, and the frame it should get.\<close>

fun delivery :: "(uuid \<times> u32 \<rightharpoonup> uuid) \<Rightarrow> uuid \<Rightarrow> NodeFrameData \<Rightarrow> (uuid \<times> WebFrameData) option" where
  "delivery m nid (NTunnelOpened protocol cid sid mid) = Some (cid, WTunnelOpened protocol sid mid)"
| "delivery m nid (NTunnelClosed protocol cid sid mid) = Some (cid, WTunnelClosed protocol sid mid)"
| "delivery m nid (NWebFrame f (ConnectionId cid)) = Some (cid, f)"
| "delivery m nid (NWebFrame f (SessionId sid)) = map_option (\<lambda>cid. (cid, f)) (m (nid, sid))"
| "delivery m nid _ = None"

fun notice :: "uuid \<Rightarrow> WebFrameData \<Rightarrow> bool" where
  "notice cid (WAuthSuccess c _ _) = (c = cid)"
| "notice cid (WError _ _ _) = True"
| "notice cid (WTunnelClosed protocol _ mid) = (protocol = 0 \<and> mid = None)"
| "notice cid _ = False"

text \<open>After \<open>tr\<close> the action is a message of a node that should reach \<open>cid\<close> as \<open>f\<close>.\<close>

definition tells :: "server_ext \<Rightarrow> action list \<Rightarrow> action \<Rightarrow> uuid \<Rightarrow> WebFrameData \<Rightarrow> bool" where
  "tells X tr l cid f \<longleftrightarrow> (\<exists>nid g. said X l = Some (nid, g) \<and> delivery (announced X tr) nid g = Some (cid, f))"

definition deliverable :: "server_ext \<Rightarrow> action list \<Rightarrow> uuid \<Rightarrow> WebFrameData \<Rightarrow> bool" where
  "deliverable X tr cid f \<longleftrightarrow> notice cid f \<or> (\<exists>before l after. tr = before @ l # after \<and> tells X before l cid f)"

lemma deliverable_snoc:
  "deliverable X tr cid f \<Longrightarrow> deliverable X (tr @ [l]) cid f"
  "notice cid f \<or> tells X tr l cid f \<Longrightarrow> deliverable X (tr @ [l]) cid f"
  unfolding deliverable_def by fastforce+

section \<open>The mailboxes of the clients\<close>

text \<open>Mailboxes grow only by frames that \<open>F\<close> allows for the client registered with the mailbox.\<close>

definition grown :: "(uuid \<Rightarrow> WebFrameData \<Rightarrow> bool) \<Rightarrow> AppState \<Rightarrow> AppState \<Rightarrow> bool" where
  "grown F s s' \<longleftrightarrow> (\<forall>tx. \<forall>f \<in> set (web_queue s' tx).
     f \<in> set (web_queue s tx) \<or> (\<exists>cid. web_txs s cid = Some tx \<and> F cid f))"

lemma grown_same: "st_web_chans s' = st_web_chans s \<Longrightarrow> grown F s s'"
  by (simp add: grown_def)

lemma grown_trans: "grown F s t \<Longrightarrow> grown F t u \<Longrightarrow> web_txs t = web_txs s \<Longrightarrow> grown F s u"
  unfolding grown_def by metis

lemma grown_mono: "grown F s s' \<Longrightarrow> (\<And>cid f. F cid f \<Longrightarrow> G cid f) \<Longrightarrow> grown G s s'"
  unfolding grown_def by metis

lemma grown_base: "grown F s s' \<Longrightarrow> st_web_chans t = st_web_chans s \<Longrightarrow> st_connections t = st_connections s \<Longrightarrow> grown F t s'"
  unfolding grown_def by (metis txs_frame(2))

lemma client_chan_txs: "client_chan s cid = Some tx \<Longrightarrow> web_txs s cid = Some tx"
  by (auto simp: client_chan_def web_txs_def split: option.splits if_splits)

lemma grown_notify: "F cid f \<Longrightarrow> grown F s (fst (notify_client_by_cid cid f s))"
  by (auto simp: grown_def notify_queue dest: client_chan_txs)

lemma grown_chan:
  "set (ch_queue c) \<subseteq> set (web_queue s tx) \<Longrightarrow> grown F s (s\<lparr>st_web_chans := (st_web_chans s)(tx := c)\<rparr>)"
  by (auto simp: grown_def)

lemma grown_close: "grown F s (close_web_chan tx s)"
  unfolding close_web_chan_def by (rule grown_chan) (simp add: chan_simps)

lemma grown_notify_all:
  "(\<And>cid sid. F cid (WTunnelClosed 0 sid None)) \<Longrightarrow> grown F s (fst (notify_all_clients_for_closed_tunnel nid s))"
  by (auto simp: grown_def notify_all_clients_for_closed_tunnel_def close_sessions_queue dest: client_chan_txs)

text \<open>The tunnels in the registry never outrun what was announced.\<close>

abbreviation tunnels :: "AppState \<Rightarrow> (uuid \<times> u32 \<rightharpoonup> uuid)" where
  "tunnels s \<equiv> bk_tunnels (broker_of s)"

lemma tunnels_cong: "st_tunnel_sessions s' = st_tunnel_sessions s \<Longrightarrow> tunnels s' = tunnels s"
  by (simp add: broker_of_def)

lemma announce_mono: "m \<subseteq>\<^sub>m m' \<Longrightarrow> announce nid g m \<subseteq>\<^sub>m announce nid g m'"
  by (cases g) (auto simp: map_le_def)

lemma tunnels_node_frame:
  assumes "state_wf s"
  shows "tunnels (fst (handle_node_frame X now nid g s)) = announce nid g (tunnels s)"
  unfolding broker_of_node_frame [OF assms]
  by (cases g) (auto simp: broker_node_frame_def to_node_def to_client_def set_tunnel_def
      split: WebFrameId.splits option.splits)

lemma grown_node_frame:
  assumes "state_wf s" "tunnels s \<subseteq>\<^sub>m m"
  shows "grown (\<lambda>cid f. delivery m nid g = Some (cid, f)) s (fst (handle_node_frame X now nid g s))"
proof -
  let ?F = "\<lambda>cid f. delivery m nid g = Some (cid, f)"
  have upd: "grown ?F s (fst (notify_client_by_cid cid f (s\<lparr>st_tunnel_sessions := ts\<rparr>)))" if "?F cid f" for cid f ts
    by (rule grown_base [OF grown_notify]) (simp_all add: that)
  show ?thesis
  proof (cases g)
    case (NHeartbeat stats sent_at)
    have "st_web_chans (fst (handle_node_heartbeat X now nid stats sent_at s)) = st_web_chans s"
      by (auto simp: handle_node_heartbeat_def Let_def srv_simps split: option.splits prod.splits bool.splits)
    then show ?thesis
      by (intro grown_same) (simp add: NHeartbeat handle_node_frame_def case_prod_unfold)
  next
    case (NTunnelOpened protocol cid sid mid)
    then show ?thesis
      using upd [of cid "WTunnelOpened protocol sid mid"]
      by (simp add: handle_node_frame_def handle_tunnel_opened_def Let_def)
  next
    case (NTunnelClosed protocol cid sid mid)
    then show ?thesis
      using upd [of cid "WTunnelClosed protocol sid mid"]
      by (simp add: handle_node_frame_def handle_tunnel_closed_def Let_def)
  next
    case (NWebFrame f fid)
    show ?thesis
    proof (cases fid)
      case (ConnectionId cid)
      with NWebFrame show ?thesis
        using grown_notify [of ?F cid f s] by (simp add: handle_node_frame_def handle_frame_response_def)
    next
      case (SessionId sid)
      have m: "m (nid, sid) = Some cid" if "tunnels s (nid, sid) = Some cid" for cid
        using assms(2) that by (force simp: map_le_def dom_def)
      show ?thesis
        using grown_notify [of ?F _ f s] m
        by (auto simp: NWebFrame SessionId handle_node_frame_def handle_frame_response_def
            broker_of_session_lookup [OF assms(1)] grown_same simp del: broker_of_sel split: option.splits)
    qed
  qed (simp_all add: handle_node_frame_def grown_same)
qed

lemma said_NodeRecv:
  "said X (NodeRecv nid tx ev) =
     (case ev of WsBinary bs \<Rightarrow>
        (case Frame_decode Native64 (x_codec X) bs of
           Ok frame \<Rightarrow> (case fr_data frame of Node g \<Rightarrow> Some (nid, g) | Web _ \<Rightarrow> None) | _ \<Rightarrow> None)
      | _ \<Rightarrow> None)"
  by (simp add: said_def split: ws_event.splits)

lemma node_event_said:
  "fst (handle_node_event X now nid ev s) =
     (case said X (NodeRecv nid tx ev) of None \<Rightarrow> s | Some (_, g) \<Rightarrow> fst (handle_node_frame X now nid g s))"
  by (auto simp: handle_node_event_def said_NodeRecv split: ws_event.splits outcome.splits FrameData.splits)

text \<open>The other steps say nothing, and leave the tunnels or remove some.\<close>

lemma grown_web_event:
  "grown (\<lambda>c f. notice c f) s (fst (handle_web_event X now cid ev s))"
  "tunnels (fst (handle_web_event X now cid ev s)) = tunnels s"
proof -
  have fwd: "st_web_chans (forward_to_session X cid t sid g s) = st_web_chans s"
    "st_tunnel_sessions (forward_to_session X cid t sid g s) = st_tunnel_sessions s" for t sid g
    by (simp_all add: forward_to_session_def srv_simps split: outcome.splits option.splits)
  have "grown (\<lambda>c f. notice c f) s (fst (handle_web_frame X now cid f s))" for f
    by (cases f)
      (auto simp: web_forwarders fwd update_web_heartbeat_def handle_web_open_tunnel_def srv_simps
        split: option.splits intro!: grown_same grown_notify)
  then show "grown (\<lambda>c f. notice c f) s (fst (handle_web_event X now cid ev s))"
    by (auto simp: handle_web_event_def intro!: grown_same split: ws_event.splits outcome.splits FrameData.splits)
  have "st_tunnel_sessions (fst (handle_web_frame X now cid f s)) = st_tunnel_sessions s" for f
    by (cases f)
      (auto simp: web_forwarders fwd update_web_heartbeat_def handle_web_open_tunnel_def srv_simps split: option.splits)
  then show "tunnels (fst (handle_web_event X now cid ev s)) = tunnels s"
    by (intro tunnels_cong)
      (auto simp: handle_web_event_def split: ws_event.splits outcome.splits FrameData.splits)
qed

lemma grown_node_end:
  assumes "state_wf s"
  shows "grown (\<lambda>c f. notice c f) s (node_socket_end X nid tx s)"
    "tunnels (node_socket_end X nid tx s) \<subseteq>\<^sub>m tunnels s"
proof -
  have wf: "dm_wf (st_tunnel_sessions s)"
    using assms by (simp add: state_wf_def)
  let ?closed = "\<lambda>m. fst (notify_all_clients_for_closed_tunnel nid
    (close_node_chan tx s\<lparr>st_nodes := dm_remove nid (st_nodes (close_node_chan tx s)), st_memory_db := m\<rparr>))"
  have cases: "node_socket_end X nid tx s = close_node_chan tx s \<or> (\<exists>m. node_socket_end X nid tx s = ?closed m)"
    by (auto simp: node_socket_end_def disconnect_node_def Let_def split: option.splits)
  have "grown (\<lambda>c f. notice c f) s (?closed m)" for m
    by (rule grown_base [OF grown_notify_all]) (simp_all add: close_node_chan_def)
  with cases show "grown (\<lambda>c f. notice c f) s (node_socket_end X nid tx s)"
    by (auto simp: close_node_chan_def intro: grown_same)
  have "tunnels (?closed m) \<subseteq>\<^sub>m tunnels s" for m
    using wf by (auto simp: map_le_def close_node_sessions close_node_chan_def split: if_splits)
  with cases show "tunnels (node_socket_end X nid tx s) \<subseteq>\<^sub>m tunnels s"
    by (auto simp: close_node_chan_def broker_of_def)
qed

lemma grown_web_end:
  "grown (\<lambda>c f. notice c f) s (web_socket_end X cid tx s)"
  "tunnels (web_socket_end X cid tx s) = tunnels s"
proof -
  have "st_web_chans (disconnect_web_client X cid t) = st_web_chans t"
    "st_tunnel_sessions (disconnect_web_client X cid t) = st_tunnel_sessions t" for t
    by (auto simp: disconnect_web_client_def notify_nodes_client_disconnect_def Let_def srv_simps split: option.splits)
  then show "grown (\<lambda>c f. notice c f) s (web_socket_end X cid tx s)"
    "tunnels (web_socket_end X cid tx s) = tunnels s"
    using grown_close [of _ s tx]
    by (auto simp: web_socket_end_def grown_def close_web_chan_def intro!: tunnels_cong)
qed

lemma socket_open_web_chans:
  "st_web_chans (fst (node_socket_open X now ip evs s)) = st_web_chans s"
  "st_tunnel_sessions (fst (node_socket_open X now ip evs s)) = st_tunnel_sessions s"
  "st_tunnel_sessions (fst (web_socket_open X now cid ip evs s)) = st_tunnel_sessions s"
proof -
  let ?w = "wait_for_node_auth X now (st_next_chan s) evs (fst (alloc_node_chan s))"
  have "st_web_chans (fst ?w) = st_web_chans s" "st_tunnel_sessions (fst ?w) = st_tunnel_sessions s"
    using wait_for_node_auth_state [of X now "st_next_chan s" evs "fst (alloc_node_chan s)"]
    by (auto simp: srv_simps alloc_node_chan_def)
  then show "st_web_chans (fst (node_socket_open X now ip evs s)) = st_web_chans s"
    "st_tunnel_sessions (fst (node_socket_open X now ip evs s)) = st_tunnel_sessions s"
    by (auto simp: node_socket_open_def alloc_node_chan_def close_node_chan_def Let_def split: prod.splits outcome.splits)
  let ?v = "wait_for_web_auth X now cid (st_next_chan s) evs (fst (alloc_web_chan s))"
  have "st_tunnel_sessions (fst ?v) = st_tunnel_sessions s"
    using wait_for_web_auth_state [of X now cid "st_next_chan s" evs "fst (alloc_web_chan s)"]
    by (auto simp: srv_simps alloc_web_chan_def)
  then show "st_tunnel_sessions (fst (web_socket_open X now cid ip evs s)) = st_tunnel_sessions s"
    by (auto simp: web_socket_open_def alloc_web_chan_def close_web_chan_def Let_def split: prod.splits outcome.splits)
qed

text \<open>A new socket starts with its welcome alone, and the mailboxes of the others stay.\<close>

lemma web_open_queue:
  assumes "web_socket_open X now new_cid ip evs s = (s', r)"
  shows "tx \<noteq> st_next_chan s \<Longrightarrow> web_queue s' tx = web_queue s tx"
    and "r = Some (cid, tx) \<Longrightarrow> f \<in> set (web_queue s' tx) \<Longrightarrow> notice cid f"
proof -
  let ?s0 = "fst (alloc_web_chan s)"
  let ?w = "wait_for_web_auth X now new_cid (st_next_chan s) evs ?s0"
  have "web_queue (fst ?w) tx = web_queue s tx" if "tx \<noteq> st_next_chan s"
    using wait_for_web_auth_state [of X now new_cid "st_next_chan s" evs ?s0] that
    by (auto simp: web_queue_send alloc_web_chan_def)
  then show "web_queue s' tx = web_queue s tx" if "tx \<noteq> st_next_chan s"
    using assms that
    by (auto simp: web_socket_open_def alloc_web_chan_def close_web_chan_def Let_def split: prod.splits outcome.splits)
  show "notice cid f" if r: "r = Some (cid, tx)" and f: "f \<in> set (web_queue s' tx)"
  proof -
    obtain s1 where tx: "tx = st_next_chan s" and w: "wait_for_web_auth X now new_cid tx evs ?s0 = (s1, Ok cid)"
      and s': "s' = s1\<lparr>st_connections := dm_insert cid (WebConnection_new now ip tx) (st_connections s1),
           st_memory_db := fst (set_connection_connected X cid ip (st_server s1) (st_memory_db s1))\<rparr>"
      using assms [unfolded r] by (rule web_socket_open_Some)
    obtain v mid where "cid = new_cid" "s1 = fst (send_to_web tx (WAuthSuccess new_cid v mid) ?s0)"
      using w by (rule wait_for_web_auth_Ok)
    then show ?thesis
      using f by (auto simp: s' tx web_queue_send alloc_web_chan_def chan_simps split: if_splits)
  qed
qed

lemma grown_write:
  "web_write_step X tx s = Some (s', out) \<Longrightarrow> grown F s s'"
  "web_write_step X tx s = Some (s', out) \<Longrightarrow> tunnels s' = tunnels s"
  "web_write_step X tx s = Some (s', Some bs) \<Longrightarrow>
     \<exists>f \<in> set (web_queue s tx). Frame_encode (x_codec X) (Frame_from_web f) = Ok bs"
  "node_write_step X tx s = Some (s', out) \<Longrightarrow> st_web_chans s' = st_web_chans s"
  "node_write_step X tx s = Some (s', out) \<Longrightarrow> tunnels s' = tunnels s"
proof -
  show "grown F s s'" if w: "web_write_step X tx s = Some (s', out)"
  proof -
    obtain f c where recv: "chan_recv (st_web_chans s tx) = Some (f, c)"
      using w by (auto simp: web_write_step_def split: option.splits)
    then have q: "set (ch_queue c) \<subseteq> set (web_queue s tx)"
      by (auto simp: chan_recv_def split: list.splits)
    let ?s = "s\<lparr>st_web_chans := (st_web_chans s)(tx := c)\<rparr>"
    have "s' = ?s \<or> s' = close_web_chan tx ?s"
      using w recv by (auto simp: web_write_step_def Let_def split: outcome.splits)
    moreover have "grown F s (close_web_chan tx ?s)"
      by (rule grown_trans [OF grown_chan [OF q] grown_close], rule txs_frame(2)) simp
    ultimately show ?thesis
      using grown_chan [OF q] by auto
  qed
  show "\<exists>f \<in> set (web_queue s tx). Frame_encode (x_codec X) (Frame_from_web f) = Ok bs"
    if "web_write_step X tx s = Some (s', Some bs)"
    using that by (auto simp: web_write_step_def chan_recv_def Let_def split: option.splits list.splits outcome.splits)
qed (auto simp: web_write_step_def node_write_step_def close_web_chan_def close_node_chan_def Let_def
    intro!: tunnels_cong split: option.splits outcome.splits)

section \<open>Every step\<close>

lemma grown_task:
  assumes "broker_inv y" "grown F (sy_state y) s'" "(cid, tx) \<in> sy_web_tasks y" "f \<in> set (web_queue s' tx)"
  shows "f \<in> set (web_queue (sy_state y) tx) \<or> F cid f"
  using assms task_channels(2) [OF assms(1,3)] by (fastforce simp: grown_def web_txs_def)

text \<open>What handling one message of a node, and then maybe ending its socket, does to the mailboxes.\<close>

lemma grown_node_recv:
  assumes "state_wf s" "tunnels s \<subseteq>\<^sub>m announced X tr"
    and ev: "handle_node_event X now nid ev s = (s1, goes_on)"
  shows "grown (\<lambda>cid f. notice cid f \<or> tells X tr (NodeRecv nid tx ev) cid f) s s1"
    and "grown (\<lambda>cid f. notice cid f \<or> tells X tr (NodeRecv nid tx ev) cid f) s (node_socket_end X nid tx s1)"
    and "tunnels s1 \<subseteq>\<^sub>m announced X (tr @ [NodeRecv nid tx ev])"
    and "tunnels (node_socket_end X nid tx s1) \<subseteq>\<^sub>m announced X (tr @ [NodeRecv nid tx ev])"
proof -
  let ?l = "NodeRecv nid tx ev"
  let ?F = "\<lambda>cid f. notice cid f \<or> tells X tr ?l cid f"
  have s1_def: "s1 = fst (handle_node_event X now nid ev s)"
    by (simp add: ev)
  have wf: "state_wf s1"
    unfolding s1_def using assms(1) by (rule handle_node_event_wf)
  have nid: "n = nid" if "said X ?l = Some (n, g)" for n g
    using that by (auto simp: said_NodeRecv split: ws_event.splits outcome.splits FrameData.splits)
  show g1: "grown ?F s s1"
  proof (cases "said X ?l")
    case (Some p)
    then obtain g where g: "said X ?l = Some (nid, g)"
      using nid by (cases p) auto
    then show ?thesis
      using grown_mono [OF grown_node_frame [OF assms(1,2)], of nid g ?F X now]
      by (auto simp: s1_def node_event_said [of X now nid ev s tx] tells_def)
  qed (simp add: s1_def node_event_said [of X now nid ev s tx] grown_same)
  show t1: "tunnels s1 \<subseteq>\<^sub>m announced X (tr @ [?l])"
    using assms(2) nid announce_mono [OF assms(2)]
    by (auto simp: s1_def node_event_said [of X now nid ev s tx] tunnels_node_frame [OF assms(1)] split: option.split)
  have "grown ?F s1 (node_socket_end X nid tx s1)"
    by (rule grown_mono [OF grown_node_end(1) [OF wf]]) simp
  with g1 show "grown ?F s (node_socket_end X nid tx s1)"
    by (rule grown_trans) (simp add: s1_def node_event_txs)
  show "tunnels (node_socket_end X nid tx s1) \<subseteq>\<^sub>m announced X (tr @ [?l])"
    using grown_node_end(2) [OF wf] t1 by (rule map_le_trans)
qed

lemma silent_web_chans:
  "st_web_chans (refresh_connections_task X now s) = st_web_chans s"
  "st_tunnel_sessions (refresh_connections_task X now s) = st_tunnel_sessions s"
  "st_web_chans (keep_server_alive_task X stats_json s) = st_web_chans s"
  "st_tunnel_sessions (keep_server_alive_task X stats_json s) = st_tunnel_sessions s"
  by (auto simp: srv_simps keep_server_alive_task_def Let_def split: option.splits)

lemma silent_http:
  "st_web_chans (fst (create_auth_challenge X random now nid s)) = st_web_chans s"
  "st_tunnel_sessions (fst (create_auth_challenge X random now nid s)) = st_tunnel_sessions s"
  "st_web_chans (fst (verify_auth_challenge X now req s)) = st_web_chans s"
  "st_tunnel_sessions (fst (verify_auth_challenge X now req s)) = st_tunnel_sessions s"
  "st_web_chans (fst (require_node_jwt X now headers (heartbeat now) s)) = st_web_chans s"
  "st_tunnel_sessions (fst (require_node_jwt X now headers (heartbeat now) s)) = st_tunnel_sessions s"
  "st_web_chans (fst (claim_node X now new_id headers payload s)) = st_web_chans s"
  "st_tunnel_sessions (fst (claim_node X now new_id headers payload s)) = st_tunnel_sessions s"
  using http_frame(1) [of X random now nid s] http_frame(2) [of X now req s]
    http_frame(3) [of X now headers s] http_frame(4) [of X now new_id headers payload s]
  by auto

lemmas silent_tunnels = silent_web_chans(2,4) [THEN tunnels_cong] silent_http(2,4,6,8) [THEN tunnels_cong]

lemma said_other [simp]:
  "said X (NodeUp nid tx) = None" "said X (NodeSend nid tx out) = None" "said X (NodeGone nid tx) = None"
  "said X (WebUp cid tx) = None" "said X (WebRecv cid tx ev) = None" "said X (WebSend cid tx out) = None"
  "said X (WebGone cid tx) = None" "said X Silent = None"
  by (simp_all add: said_def)

lemma act_tunnels:
  assumes act: "server_act X l y y'" and wf: "state_wf (sy_state y)" and le: "tunnels (sy_state y) \<subseteq>\<^sub>m announced X tr"
  shows "tunnels (sy_state y') \<subseteq>\<^sub>m announced X (tr @ [l])"
proof -
  have same: "?thesis" if "tunnels (sy_state y') \<subseteq>\<^sub>m tunnels (sy_state y)" "said X l = None"
    using that le map_le_trans by auto
  have keep: "?thesis" if "st_tunnel_sessions (sy_state y') = st_tunnel_sessions (sy_state y)" "said X l = None"
    using same tunnels_cong [OF that(1)] that(2) by simp
  from act show ?thesis
  proof (cases rule: server_act.cases)
    case (node_event nid tx now ev s')
    then show ?thesis
      using grown_node_recv(3) [OF wf le node_event(4)] by simp
  next
    case (node_stop nid tx now ev s')
    then show ?thesis
      using grown_node_recv(4) [OF wf le node_stop(4)] by simp
  next
    case (node_eof nid tx)
    then show ?thesis
      using grown_node_end(2) [OF wf] by (intro same) simp_all
  next
    case (web_event cid tx now ev s')
    then show ?thesis
      using grown_web_event(2) [of X now cid ev "sy_state y"] by (intro same) simp_all
  next
    case (web_stop cid tx now ev s')
    then show ?thesis
      using grown_web_event(2) [of X now cid ev "sy_state y"] by (intro same) (simp_all add: grown_web_end)
  next
    case (node_write nid tx s' out)
    then show ?thesis
      using grown_write(5) [OF node_write(4)] by (intro same) simp_all
  next
    case (web_write cid tx s' out)
    then show ?thesis
      using grown_write(2) [OF web_write(4)] by (intro same) simp_all
  next
    case (node_open now ip evs s' nid tx)
    then show ?thesis
      using socket_open_web_chans(2) [of X now ip evs "sy_state y"] by (intro keep) simp_all
  next
    case (node_reject now ip evs s')
    then show ?thesis
      using socket_open_web_chans(2) [of X now ip evs "sy_state y"] by (intro keep) simp_all
  next
    case (web_open now new_cid ip evs s' cid tx)
    then show ?thesis
      using socket_open_web_chans(3) [of X now new_cid ip evs "sy_state y"] by (intro keep) simp_all
  next
    case (web_reject now new_cid ip evs s')
    then show ?thesis
      using socket_open_web_chans(3) [of X now new_cid ip evs "sy_state y"] by (intro keep) simp_all
  qed (use le in \<open>simp_all add: grown_web_end silent_tunnels\<close>)
qed

text \<open>A step other than the arrival of a client only adds to the mailboxes what it may.\<close>

lemma act_grown:
  assumes act: "server_act X l y y'" and wf: "state_wf (sy_state y)" and le: "tunnels (sy_state y) \<subseteq>\<^sub>m announced X tr"
  shows "(\<exists>now new_cid ip evs r. web_socket_open X now new_cid ip evs (sy_state y) = (sy_state y', r) \<and>
      sy_web_tasks y' = sy_web_tasks y \<union> set_option r) \<or>
    sy_web_tasks y' \<subseteq> sy_web_tasks y \<and>
      grown (\<lambda>cid f. notice cid f \<or> tells X tr l cid f) (sy_state y) (sy_state y')"
proof -
  let ?F = "\<lambda>cid f. notice cid f \<or> tells X tr l cid f"
  have weak: "grown ?F s t" if "grown (\<lambda>c f. notice c f) s t" for s t
    using that by (rule grown_mono) simp
  from act show ?thesis
  proof (cases rule: server_act.cases)
    case (web_open now new_cid ip evs s' cid tx)
    then have "web_socket_open X now new_cid ip evs (sy_state y) = (sy_state y', Some (cid, tx)) \<and>
        sy_web_tasks y' = sy_web_tasks y \<union> set_option (Some (cid, tx))"
      by auto
    then show ?thesis
      by blast
  next
    case (web_reject now new_cid ip evs s')
    then have "web_socket_open X now new_cid ip evs (sy_state y) = (sy_state y', None) \<and>
        sy_web_tasks y' = sy_web_tasks y \<union> set_option None"
      by simp
    then show ?thesis
      by blast
  next
    case (node_event nid tx now ev s')
    then show ?thesis
      using grown_node_recv(1) [OF wf le node_event(4)] by simp
  next
    case (node_stop nid tx now ev s')
    then show ?thesis
      using grown_node_recv(2) [OF wf le node_stop(4)] by simp
  next
    case (node_eof nid tx)
    then show ?thesis
      using weak [OF grown_node_end(1) [OF wf]] by simp
  next
    case (web_event cid tx now ev s')
    then show ?thesis
      using weak [OF grown_web_event(1) [of "sy_state y" X now cid ev]] by simp
  next
    case (web_stop cid tx now ev s')
    have "grown (\<lambda>c f. notice c f) (sy_state y) (web_socket_end X cid tx s')"
      using grown_web_event(1) [of "sy_state y" X now cid ev] grown_web_end(1) [of s' X cid tx]
        web_event_txs(2) [of X now cid ev "sy_state y"] web_stop(4)
      by (auto intro: grown_trans)
    then show ?thesis
      using weak web_stop(2) by auto
  next
    case (web_eof cid tx)
    then show ?thesis
      using weak [OF grown_web_end(1) [of "sy_state y" X cid tx]] by auto
  next
    case (web_write cid tx s' out)
    then show ?thesis
      using grown_write(1) [OF web_write(4)] by simp
  next
    case (node_write nid tx s' out)
    then show ?thesis
      using grown_write(4) [OF node_write(4)] by (simp add: grown_same)
  next
    case (node_open now ip evs s' nid tx)
    then show ?thesis
      using socket_open_web_chans(1) [of X now ip evs "sy_state y"] by (simp add: grown_same)
  next
    case (node_reject now ip evs s')
    then show ?thesis
      using socket_open_web_chans(1) [of X now ip evs "sy_state y"] by (simp add: grown_same)
  qed (auto simp: silent_web_chans silent_http intro!: grown_same)
qed

lemma act_queue:
  assumes act: "server_act X l y y'" and inv: "broker_inv y" and le: "tunnels (sy_state y) \<subseteq>\<^sub>m announced X tr"
    and task: "(cid, tx) \<in> sy_web_tasks y'" "f \<in> set (web_queue (sy_state y') tx)"
  shows "(cid, tx) \<in> sy_web_tasks y \<and> f \<in> set (web_queue (sy_state y) tx) \<or> notice cid f \<or> tells X tr l cid f"
proof -
  have wf: "state_wf (sy_state y)"
    using inv by (simp add: broker_inv_def system_inv_def)
  have old: "tx \<noteq> st_next_chan (sy_state y)" if "(c, tx) \<in> sy_web_tasks y" for c
    using inv that by (auto simp: broker_inv_def tasks_own_def)
  show ?thesis
    using act_grown [OF act wf le]
  proof (elim disjE exE conjE)
    fix now new_cid ip evs r
    assume op: "web_socket_open X now new_cid ip evs (sy_state y) = (sy_state y', r)"
      "sy_web_tasks y' = sy_web_tasks y \<union> set_option r"
    show ?thesis
    proof (cases "(cid, tx) \<in> sy_web_tasks y")
      case True
      then show ?thesis
        using web_open_queue(1) [OF op(1) old] task(2) by auto
    next
      case False
      then have "r = Some (cid, tx)"
        using task(1) op(2) by auto
      then show ?thesis
        using web_open_queue(2) [OF op(1)] task(2) by blast
    qed
  next
    assume "sy_web_tasks y' \<subseteq> sy_web_tasks y"
      "grown (\<lambda>cid f. notice cid f \<or> tells X tr l cid f) (sy_state y) (sy_state y')"
    then show ?thesis
      using grown_task [OF inv] task by blast
  qed
qed

text \<open>In a run, the tunnels are announced and every mailbox holds deliverable frames only.\<close>

definition delivery_inv :: "server_ext \<Rightarrow> action list \<Rightarrow> system \<Rightarrow> bool" where
  "delivery_inv X tr y \<longleftrightarrow> broker_inv y \<and> tunnels (sy_state y) \<subseteq>\<^sub>m announced X tr \<and>
     (\<forall>(cid, tx) \<in> sy_web_tasks y. \<forall>f \<in> set (web_queue (sy_state y) tx). deliverable X tr cid f)"

interpretation mailboxes: history_system "server_act X" "delivery_inv X" for X
proof unfold_locales
  fix l y y' tr
  assume act: "server_act X l y y'" and d: "delivery_inv X tr y"
  then have inv: "broker_inv y" and le: "tunnels (sy_state y) \<subseteq>\<^sub>m announced X tr"
    by (simp_all add: delivery_inv_def)
  have "broker_inv y'"
    using act inv by (intro broker_inv_step [of X y y']) (auto intro: server_stepI)
  moreover have "tunnels (sy_state y') \<subseteq>\<^sub>m announced X (tr @ [l])"
    using inv by (intro act_tunnels [OF act _ le]) (simp add: broker_inv_def system_inv_def)
  moreover have "deliverable X (tr @ [l]) cid f"
    if "(cid, tx) \<in> sy_web_tasks y'" "f \<in> set (web_queue (sy_state y') tx)" for cid tx f
    using act_queue [OF act inv le that] d deliverable_snoc
    by (fastforce simp: delivery_inv_def)
  ultimately show "delivery_inv X (tr @ [l]) y'"
    by (auto simp: delivery_inv_def simp del: announced_simps)
qed

lemma web_send_queued:
  assumes "server_act X (WebSend cid tx (Some bs)) y y'"
  obtains f where "(cid, tx) \<in> sy_web_tasks y" "f \<in> set (web_queue (sy_state y) tx)"
    "Frame_encode (x_codec X) (Frame_from_web f) = Ok bs"
proof -
  obtain s' where w: "web_write_step X tx (sy_state y) = Some (s', Some bs)" and task: "(cid, tx) \<in> sy_web_tasks y"
    using assms by (cases rule: server_act.cases) auto
  from grown_write(3) [OF w] task that show thesis
    by blast
qed

lemma decode_web_frame:
  assumes "codec_inverse C" "Frame_encode C (Frame_from_web f) = Ok bs" "length bs < 2 ^ 32"
  shows "\<exists>frame. Frame_decode Native64 C bs = Ok frame \<and> fr_data frame = Web f"
  using Frame_decode_encode [OF assms, of "[]"] by (simp add: Frame_from_web_def)

section \<open>Properties\<close>

text \<open>
  C11: whatever the server writes to the socket of a client decodes either to a notice of its own, the
  welcome, an error or the end of a tunnel whose node left, or to the frame of a message that a
  node sent earlier and addressed to this very client: by its identifier, or by the number of a
  tunnel that the node had announced as this client's and had not closed or given away since.
\<close>

theorem page_frames_come_from_nodes:
  assumes "run (server_act X) y0 tr y" "broker_inv y0" "st_tunnel_sessions (sy_state y0) = []"
    and "\<forall>(cid, tx) \<in> sy_web_tasks y0. web_queue (sy_state y0) tx = []"
    and "server_act X (WebSend cid tx (Some bs)) y y'"
    and "codec_inverse (x_codec X)" "length bs < 2 ^ 32"
  shows "\<exists>frame f. Frame_decode Native64 (x_codec X) bs = Ok frame \<and> fr_data frame = Web f \<and>
    (notice cid f \<or> (\<exists>before l after. tr = before @ l # after \<and> tells X before l cid f))"
proof -
  obtain f where f: "(cid, tx) \<in> sy_web_tasks y" "f \<in> set (web_queue (sy_state y) tx)"
    "Frame_encode (x_codec X) (Frame_from_web f) = Ok bs"
    using assms(5) by (rule web_send_queued)
  have "delivery_inv X [] y0"
    using assms(2-4) by (auto simp: delivery_inv_def broker_of_def dm_get_def map_le_def)
  then have "delivery_inv X tr y"
    using mailboxes.run_hinv [OF assms(1)] by simp
  then have "deliverable X tr cid f"
    using f(1,2) by (auto simp: delivery_inv_def)
  then show ?thesis
    using decode_web_frame [OF assms(6) f(3) assms(7)] unfolding deliverable_def by blast
qed

text \<open>
  The example server without tunnels; node 1 opens tunnel 9 for client 5 and prints in it, and both
  frames are written to the page.
\<close>

definition quiet_system :: system where
  "quiet_system = typing_system\<lparr>sy_state := example_state\<lparr>st_tunnel_sessions := []\<rparr>\<rparr>"

definition mailed :: "WebFrameData list \<Rightarrow> system" where
  "mailed q = typing_system\<lparr>sy_state := example_state\<lparr>st_web_chans := (st_web_chans example_state)
     (1 := (chan_new 256)\<lparr>ch_queue := q\<rparr>)\<rparr>\<rparr>"

lemma quiet_start: "broker_inv quiet_system"
  by (simp add: quiet_system_def typing_system_def broker_inv_def system_inv_def tasks_own_def state_wf_def
      sessions_keyed_def chans_allocated_def chans_separate_def dm_wf_def example_defs)

lemma mailed_events:
  "server_act example_ext (NodeRecv 1 0 (WsBinary (node_msg 21 1))) quiet_system (mailed [WTunnelOpened 0 9 None])"
  "server_act example_ext (NodeRecv 1 0 (WsBinary (node_msg 50 2))) (mailed [WTunnelOpened 0 9 None])
     (mailed [WTunnelOpened 0 9 None, WTunnelData 0 ''n1'' 9 [66]])"
proof -
  have ev: "handle_node_event example_ext 10 1 (WsBinary (node_msg 21 1)) (sy_state quiet_system) =
      (sy_state (mailed [WTunnelOpened 0 9 None]), True)"
    "handle_node_event example_ext 10 1 (WsBinary (node_msg 50 2)) (sy_state (mailed [WTunnelOpened 0 9 None])) =
      (sy_state (mailed [WTunnelOpened 0 9 None, WTunnelData 0 ''n1'' 9 [66]]), True)"
    by (simp_all add: handle_node_event_def example_ext_codec decode_node_msg example_node_frames_def)
      (simp_all add: quiet_system_def mailed_def handle_node_frame_def handle_tunnel_opened_def handle_frame_response_def
        get_connection_id_by_sid_def notify_client_by_cid_def send_to_web_def chan_send_def chan_new_def example_defs
        dm_insert_def Let_def)
  show "server_act example_ext (NodeRecv 1 0 (WsBinary (node_msg 21 1))) quiet_system (mailed [WTunnelOpened 0 9 None])"
    using server_act.node_event [OF _ ev(1), of 0] by (simp add: quiet_system_def mailed_def typing_system_def)
  show "server_act example_ext (NodeRecv 1 0 (WsBinary (node_msg 50 2))) (mailed [WTunnelOpened 0 9 None])
     (mailed [WTunnelOpened 0 9 None, WTunnelData 0 ''n1'' 9 [66]])"
    using server_act.node_event [OF _ ev(2), of 0] by (simp add: mailed_def typing_system_def)
qed

lemma mailed_write:
  assumes "Frame_encode example_codec (Frame_from_web f) = Ok bs"
  shows "server_act example_ext (WebSend 5 1 (Some bs)) (mailed (f # q)) (mailed q)"
proof -
  have "web_write_step example_ext 1 (sy_state (mailed (f # q))) = Some (sy_state (mailed q), Some bs)"
    using assms by (simp add: web_write_step_def mailed_def chan_recv_def example_ext_codec)
  from server_act.web_write [OF _ this, of 5] show ?thesis
    by (simp add: mailed_def typing_system_def)
qed

theorem page_frames_come_from_nodes_witness:
  "let tr = [NodeRecv 1 0 (WsBinary (node_msg 21 1)), NodeRecv 1 0 (WsBinary (node_msg 50 2)),
         WebSend 5 1 (Some (web_msg 21 4))] in
   \<exists>frame f. Frame_decode Native64 example_codec (web_msg 22 5) = Ok frame \<and> fr_data frame = Web f \<and>
     (notice 5 f \<or> (\<exists>before l after. tr = before @ l # after \<and> tells example_ext before l 5 f))"
proof -
  let ?q = "[WTunnelOpened 0 9 None, WTunnelData 0 ''n1'' 9 [66]]"
  have "Frame_encode example_codec (Frame_from_web (WTunnelOpened 0 9 None)) = Ok (web_msg 21 4)"
    by (simp add: Frame_encode_def encode_parts_def Frame_from_web_def example_codec_def table_codec_def
        table_to_vec_def example_web_frames_def FRAME_VERSION_def web_msg_def u32_to_be_def)
  then have third: "server_act example_ext (WebSend 5 1 (Some (web_msg 21 4))) (mailed ?q) (mailed [WTunnelData 0 ''n1'' 9 [66]])"
    by (rule mailed_write)
  have "run (server_act example_ext) quiet_system
      [NodeRecv 1 0 (WsBinary (node_msg 21 1)), NodeRecv 1 0 (WsBinary (node_msg 50 2))] (mailed ?q)"
    using run_step [of "server_act example_ext", OF run_single [of "server_act example_ext", OF mailed_events(1)] mailed_events(2)]
    by simp
  then have r: "run (server_act example_ext) quiet_system
      [NodeRecv 1 0 (WsBinary (node_msg 21 1)), NodeRecv 1 0 (WsBinary (node_msg 50 2)), WebSend 5 1 (Some (web_msg 21 4))]
      (mailed [WTunnelData 0 ''n1'' 9 [66]])"
    using run_step [of "server_act example_ext", OF _ third] by fastforce
  have w: "server_act example_ext (WebSend 5 1 (Some (web_msg 22 5))) (mailed [WTunnelData 0 ''n1'' 9 [66]]) (mailed [])"
    by (rule mailed_write) (rule example_wire)
  have c: "codec_inverse (x_codec example_ext)"
    by (simp add: example_ext_codec example_codec_inverse)
  have e: "st_tunnel_sessions (sy_state quiet_system) = []"
    "\<forall>(cid, tx) \<in> sy_web_tasks quiet_system. web_queue (sy_state quiet_system) tx = []"
    by (simp_all add: quiet_system_def typing_system_def example_state_def empty_state_def chan_simps)
  from page_frames_come_from_nodes [OF r quiet_start e w c example_lengths(1)] show ?thesis
    by (simp add: example_ext_codec)
qed

end
