(* ===== verification/Isolation.thy ===== *)
theory Isolation
  imports Network Server_Delivery
begin

text \<open>
  Output, end to end: what the agent of a node says is shown only to the client whose tunnel it
  belongs to. The numbers of the tunnels come from one counter, so that two tunnels of a process
  share a number only after \<open>2 ^ 32\<close> of them were started; the server routes by the number alone.
\<close>

section \<open>What the tasks of a connection say\<close>

text \<open>
  A frame is about a tunnel that was started, or the refusal of a request of one of the
  clients in \<open>A\<close>.
\<close>

fun spoken :: "(uuid \<times> u32) set \<Rightarrow> uuid set \<Rightarrow> NodeFrameData \<Rightarrow> bool" where
  "spoken T A (NHeartbeat stats sent_at) \<longleftrightarrow> True"
| "spoken T A (NTunnelOpened protocol cid sid mid) \<longleftrightarrow> (cid, sid) \<in> T"
| "spoken T A (NTunnelClosed protocol cid sid mid) \<longleftrightarrow> (cid, sid) \<in> T"
| "spoken T A (NWebFrame w (SessionId sid)) \<longleftrightarrow> sid \<in> snd ` T"
| "spoken T A (NWebFrame w (ConnectionId cid)) \<longleftrightarrow> cid \<in> A"
| "spoken T A _ \<longleftrightarrow> False"

fun frame_session :: "NodeFrameData \<Rightarrow> u32 option" where
  "frame_session (NTunnelOpened protocol cid sid mid) = Some sid"
| "frame_session (NTunnelClosed protocol cid sid mid) = Some sid"
| "frame_session (NWebFrame w (SessionId sid)) = Some sid"
| "frame_session _ = None"

lemma spoken_mono: "spoken T A d \<Longrightarrow> T \<subseteq> T' \<Longrightarrow> A \<subseteq> A' \<Longrightarrow> spoken T' A' d"
  by (cases "(T, A, d)" rule: spoken.cases) auto

lemma report_spoken: "(cid, sid) \<in> T \<Longrightarrow> report_frame cid sid d \<Longrightarrow> spoken T A d"
  by (cases "(cid, sid, d)" rule: report_frame.cases) force+

interpretation speaks: frame_policy T "spoken T A" for T A
  by unfold_locales (auto intro: report_spoken rev_image_eqI)

section \<open>The numbers of the tunnels\<close>

text \<open>The \<open>i\<close>-th tunnel has the \<open>i\<close>-th number after \<open>sc\<close>; numbers repeat only when the counter wraps around.\<close>

definition numbered :: "u32 \<Rightarrow> ('f, 'h) agent \<Rightarrow> (uuid \<times> u32) set \<Rightarrow> bool" where
  "numbered sc a T \<longleftrightarrow> ag_session_counter a = sc + word_of_nat (ag_next_chan a) \<and>
     (\<forall>(cid, sid) \<in> T. \<exists>i < ag_next_chan a. sid = sc + word_of_nat i) \<and>
     (ag_next_chan a \<le> 2 ^ 32 \<longrightarrow> (\<forall>c c' sid. (c, sid) \<in> T \<and> (c', sid) \<in> T \<longrightarrow> c = c'))"

lemma numbered_new: "numbered sc (WebSocketConnection_new sc ic fs) {}"
  by (simp add: numbered_def WebSocketConnection_new_def)

lemma numbered_cong:
  "numbered sc a T \<Longrightarrow> ag_session_counter a' = ag_session_counter a \<Longrightarrow> ag_next_chan a' = ag_next_chan a \<Longrightarrow>
    numbered sc a' T"
  by (simp add: numbered_def)

lemma fresh_number:
  assumes "i < n" "n < 2 ^ 32"
  shows "sc + word_of_nat i \<noteq> sc + (word_of_nat n :: u32)"
proof -
  have "unat (word_of_nat i :: u32) = i" "unat (word_of_nat n :: u32) = n"
    using assms by (simp_all add: unat_of_nat)
  then show ?thesis
    using assms(1) by auto
qed

lemma numbered_spawn:
  assumes "numbered sc a T" "ag_session_counter a' = ag_session_counter a + 1" "ag_next_chan a' = ag_next_chan a + 1"
  shows "numbered sc a' (insert (cid, ag_session_counter a) T)"
proof -
  let ?n = "ag_next_chan a"
  have n: "ag_session_counter a = sc + word_of_nat ?n"
    and T: "\<And>c sid. (c, sid) \<in> T \<Longrightarrow> \<exists>i < ?n. sid = sc + word_of_nat i"
    using assms(1) by (auto simp: numbered_def)
  have old: "x = x'" if "?n \<le> 2 ^ 32" "(x, sid) \<in> T" "(x', sid) \<in> T" for x x' sid
    using assms(1) that unfolding numbered_def by blast
  have "c = c'" if le: "?n + 1 \<le> 2 ^ 32" and c: "(c, sid) \<in> insert (cid, ag_session_counter a) T"
    and c': "(c', sid) \<in> insert (cid, ag_session_counter a) T" for c c' sid
  proof -
    have "(x, ag_session_counter a) \<notin> T" for x
      using T [of x "ag_session_counter a"] fresh_number [of _ ?n sc] le n by fastforce
    then show ?thesis
      using old [of c sid c'] c c' le by auto
  qed
  moreover have "\<exists>i < ?n + 1. sid = sc + word_of_nat i" if "(c, sid) \<in> insert (cid, ag_session_counter a) T" for c sid
    using that
  proof
    assume "(c, sid) = (cid, ag_session_counter a)"
    then show ?thesis
      using n by (intro exI [of _ ?n]) simp
  next
    assume "(c, sid) \<in> T"
    from T [OF this] show ?thesis
      by (auto intro: less_SucI)
  qed
  ultimately show ?thesis
    unfolding numbered_def assms(2,3) by (intro conjI) (simp add: n, blast, blast)
qed

lemma message_spawns:
  assumes "handle_message S env node_id now d a = (a', Ok t)"
  shows "spawned t = {} \<and> ag_session_counter a' = ag_session_counter a \<and> ag_next_chan a' = ag_next_chan a \<or>
    (\<exists>protocol cid username password mid. d = NOpenTunnel protocol cid username password mid \<and>
      spawned t = {(cid, ag_session_counter a)} \<and>
      ag_session_counter a' = ag_session_counter a + 1 \<and> ag_next_chan a' = ag_next_chan a + 1)"
proof (cases d)
  case (NOpenTunnel protocol cid username password mid)
  show ?thesis
  proof (cases "credentials_given env username password")
    case True
    have counters: "ag_session_counter (fst (start_ssh_tunnel n c auth m b)) = ag_session_counter b + 1"
      "ag_next_chan (fst (start_ssh_tunnel n c auth m b)) = ag_next_chan b + 1"
      "ag_session_counter (fst (start_sftp_tunnel c auth m b)) = ag_session_counter b + 1"
      "ag_next_chan (fst (start_sftp_tunnel c auth m b)) = ag_next_chan b + 1" for n c auth m and b :: "('a, 'b) agent"
      by (simp_all add: start_ssh_tunnel_def start_sftp_tunnel_def generate_session_id_def Let_def agent_simps)
    show ?thesis
      using assms by (auto simp: NOpenTunnel handle_open_tunnel_given [OF True] case_prod_unfold counters spawned_start
          split: if_splits)
  next
    case False
    then show ?thesis
      using assms by (auto simp: NOpenTunnel handle_open_tunnel_missing missing_credential_reply_def
          send_requires_username_error_def send_requires_password_error_def agent_simps)
  qed
next
  case (NConnectionDisconnect cid)
  then show ?thesis
    using assms by (auto simp: close_downloads_for_cid_def close_uploads_for_cid_def close_tunnels_for_cid_def agent_simps)
qed (use assms in \<open>auto simp: send_defs agent_simps split: if_splits\<close>)

lemma reader_spawns:
  assumes "reader_step S C env node_id now ev a = (a', Continue t)"
  shows "spawned t = {} \<and> ag_session_counter a' = ag_session_counter a \<and> ag_next_chan a' = ag_next_chan a \<or>
    (\<exists>bs frame protocol cid username password mid. ev = WsBinary bs \<and> Frame_decode Native64 C bs = Ok frame \<and>
      fr_data frame = Node (NOpenTunnel protocol cid username password mid) \<and>
      spawned t = {(cid, ag_session_counter a)} \<and>
      ag_session_counter a' = ag_session_counter a + 1 \<and> ag_next_chan a' = ag_next_chan a + 1)"
proof (cases ev)
  case (WsBinary bs)
  consider "a' = a" "t = None" | frame d where "Frame_decode Native64 C bs = Ok frame" "fr_data frame = Node d"
    "handle_message S env node_id now d a = (a', Ok t)"
    using assms by (auto simp: WsBinary reader_step_def split: outcome.splits FrameData.splits prod.splits)
  then show ?thesis
  proof cases
    case (2 frame d)
    then show ?thesis
      using message_spawns [OF 2(3)] WsBinary by blast
  qed simp
qed (use assms in \<open>auto simp: reader_step_def\<close>)

text \<open>Closing everything and the tasks beside the reader leave the counters alone.\<close>

lemma life_act_tunnels:
  assumes "life_act S E C env node_id e y y'" "numbered sc (co_agent y) (co_tunnels y)"
  shows "numbered sc (co_agent y') (co_tunnels y')" "co_tunnels y \<subseteq> co_tunnels y'"
    and "(cid, sid) \<in> co_tunnels y' \<Longrightarrow> (cid, sid) \<in> co_tunnels y \<or>
      (\<exists>bs frame protocol username password mid. e = Some (WsBinary bs) \<and> Frame_decode Native64 C bs = Ok frame \<and>
        fr_data frame = Node (NOpenTunnel protocol cid username password mid))"
proof -
  have rd: "numbered sc a' (spawned t \<union> co_tunnels y)" if "reader_step S C env node_id now ev (co_agent y) = (a', Continue t)" for now ev a' t
    using reader_spawns [OF that] numbered_spawn [OF assms(2), of a'] numbered_cong [OF assms(2), of a'] by auto
  have stop: "numbered sc a' (co_tunnels y)" if "reader_step S C env node_id now ev (co_agent y) = (a', Stop)" for now ev a'
    using that assms(2) by (auto simp: reader_step_def split: ws_event.splits outcome.splits FrameData.splits prod.splits)
  have close: "numbered sc (close_everything S (co_agent y)) (co_tunnels y)"
    by (rule numbered_cong [OF assms(2)]) (simp_all add: close_everything_def Let_def agent_simps)
  have task: "numbered sc a' (co_tunnels y)" if "task_step S E C (co_tunnels y) (co_agent y) a'" for a'
    using task_step_transfer_only [OF that] by (intro numbered_cong [OF assms(2)]) (simp_all add: transfer_only_def)
  from assms(1) show "numbered sc (co_agent y') (co_tunnels y')"
    by (cases rule: life_act.cases) (use assms(2) rd stop close task in auto)
  from assms(1) show "co_tunnels y \<subseteq> co_tunnels y'"
    by (cases rule: life_act.cases) auto
  show "(cid, sid) \<in> co_tunnels y \<or> (\<exists>bs frame protocol username password mid. e = Some (WsBinary bs) \<and>
      Frame_decode Native64 C bs = Ok frame \<and> fr_data frame = Node (NOpenTunnel protocol cid username password mid))"
    if "(cid, sid) \<in> co_tunnels y'"
    using assms(1)
  proof (cases rule: life_act.cases)
    case (reads now ev a' t)
    then show ?thesis
      using that reader_spawns [OF reads(4)] by auto
  qed (use that in auto)
qed

section \<open>Along a run\<close>

text \<open>The clients that have asked for a tunnel.\<close>

definition askers :: "server_ext \<Rightarrow> action list \<Rightarrow> uuid set" where
  "askers X tr = {cid. \<exists>protocol username password mid. licensed X tr (NOpenTunnel protocol cid username password mid)}"

lemma askers_mono: "askers X tr \<subseteq> askers X (tr @ [l])"
  unfolding askers_def using licensed_mono by blast

lemma askers_asked:
  assumes "cid \<in> askers X tr"
  shows "\<exists>l \<in> set tr. \<exists>protocol username password mid. asks X l cid (NOpenTunnel protocol cid username password mid)"
proof -
  obtain protocol username password mid where "licensed X tr (NOpenTunnel protocol cid username password mid)"
    using assms by (auto simp: askers_def)
  from licensed_client [OF this, of cid] have "\<exists>l \<in> set tr. asks X l cid (NOpenTunnel protocol cid username password mid)"
    by simp
  then show ?thesis
    by blast
qed

text \<open>
  The agent keeps to its tunnels: their clients asked for them, they have the numbers of the counter, and whatever
  waits in the queue, travels to the server or has been read from the socket speaks of them.
\<close>

definition agent_keeps :: "server_ext \<Rightarrow> uuid \<Rightarrow> chan_id \<Rightarrow> u32 \<Rightarrow> action list \<Rightarrow> ('f, 'h) network \<Rightarrow> bool" where
  "agent_keeps X nid tx sc tr n \<longleftrightarrow>
     (let T = co_tunnels (nt_agent n); A = askers X tr in
      numbered sc (co_agent (nt_agent n)) T \<and> fst ` T \<subseteq> A \<and> tx_all (spoken T A) (co_agent (nt_agent n)) \<and>
      (\<forall>bs \<in> set (nt_up n). \<exists>d. spoken T A d \<and> Frame_encode (x_codec X) (Frame_from_node d) = Ok bs) \<and>
      (\<forall>ev g. NodeRecv nid tx ev \<in> set tr \<and> said X (NodeRecv nid tx ev) = Some (nid, g) \<longrightarrow> spoken T A g))"

lemma agent_keeps_server:
  assumes "agent_keeps X nid tx sc tr n" "set up \<subseteq> set (nt_up n)"
    and "\<And>ev g. l = NodeRecv nid tx ev \<Longrightarrow> said X l = Some (nid, g) \<Longrightarrow>
      spoken (co_tunnels (nt_agent n)) (askers X tr) g"
  shows "agent_keeps X nid tx sc (tr @ [l]) (n\<lparr>nt_server := y, nt_down := down, nt_up := up\<rparr>)"
proof -
  have mono: "spoken T (askers X tr) d \<Longrightarrow> spoken T (askers X (tr @ [l])) d" for T d
    using spoken_mono [OF _ subset_refl askers_mono] by blast
  show ?thesis
    using assms askers_mono [of X tr l] mono unfolding agent_keeps_def Let_def
    by (auto intro: tx_all_mono [OF _ mono]) (metis mono subsetD)+
qed

lemma agent_keeps_agent:
  assumes keeps: "agent_keeps X nid tx sc tr n" and act: "life_act S E (x_codec X) env nid e (nt_agent n) c"
    and lic: "\<And>bs frame d. e = Some (WsBinary bs) \<Longrightarrow> Frame_decode Native64 (x_codec X) bs = Ok frame \<Longrightarrow>
      fr_data frame = Node d \<Longrightarrow> licensed X tr d"
  shows "agent_keeps X nid tx sc (tr @ [Silent]) (n\<lparr>nt_agent := c\<rparr>)"
proof -
  let ?T = "co_tunnels (nt_agent n)" let ?A = "askers X tr" let ?T' = "co_tunnels c" let ?A' = "askers X (tr @ [Silent])"
  have num: "numbered sc (co_agent (nt_agent n)) ?T" and dom: "fst ` ?T \<subseteq> ?A"
    and tx: "tx_all (spoken ?T ?A) (co_agent (nt_agent n))"
    using keeps by (simp_all add: agent_keeps_def Let_def)
  note t = life_act_tunnels [OF act num]
  have mono: "spoken ?T ?A d \<Longrightarrow> spoken ?T' ?A' d" for d
    by (rule spoken_mono [OF _ t(2) askers_mono])
  have asked: "cid \<in> ?A" if "e = Some (WsBinary bs)" "Frame_decode Native64 (x_codec X) bs = Ok frame"
    "fr_data frame = Node (NOpenTunnel protocol cid username password mid)" for bs frame protocol cid username password mid
    using lic [OF that] by (auto simp: askers_def)
  have "tx_all (spoken ?T ?A) (co_agent c)"
    by (rule life_act_tx_all [OF act speaks.frame_policy_axioms tx]) (simp add: asked)
  then have "tx_all (spoken ?T' ?A') (co_agent c)"
    using mono by (rule tx_all_mono)
  moreover have "fst ` ?T' \<subseteq> ?A'"
    using t(3) dom asked askers_mono [of X tr Silent] by fastforce
  ultimately show ?thesis
    using keeps t(1) mono unfolding agent_keeps_def Let_def by auto (metis mono)+
qed

lemma delivery_inv_silent: "delivery_inv X tr y \<Longrightarrow> delivery_inv X (tr @ [Silent]) y"
  using deliverable_snoc(1) by (fastforce simp: delivery_inv_def)

definition isolated :: "server_ext \<Rightarrow> uuid \<Rightarrow> chan_id \<Rightarrow> u32 \<Rightarrow> action list \<Rightarrow> ('f, 'h) network \<Rightarrow> bool" where
  "isolated X nid tx sc tr n \<longleftrightarrow>
     net_inv X tr n \<and> delivery_inv X tr (nt_server n) \<and> agent_keeps X nid tx sc tr n"

lemma server_part:
  assumes "isolated X nid tx sc tr n" "server_act X l (nt_server n) y"
  shows "delivery_inv X (tr @ [l]) y"
  using assms mailboxes.act_hinv by (auto simp: isolated_def)

lemma isolated_act:
  assumes act: "net_act X S E env nid tx l n n'" and iso: "isolated X nid tx sc tr n"
    and codec: "codec_inverse (x_codec X)"
  shows "isolated X nid tx sc (tr @ [l]) n'"
proof -
  have net: "net_inv X tr n" and del: "delivery_inv X tr (nt_server n)" and keeps: "agent_keeps X nid tx sc tr n"
    using iso by (simp_all add: isolated_def)
  have "delivery_inv X (tr @ [l]) (nt_server n') \<and> agent_keeps X nid tx sc (tr @ [l]) n'"
    using act
  proof (cases rule: net_act.cases)
    case (server_works y)
    then show ?thesis
      using server_part [OF iso server_works(2)] agent_keeps_server [OF keeps, where l = l and y = y and up = "nt_up n" and down = "nt_down n"]
      by (auto simp: on_socket_def)
  next
    case (server_writes out y)
    then show ?thesis
      using server_part [OF iso, of l y] agent_keeps_server [OF keeps, where l = l and y = y and up = "nt_up n" and down = "nt_down n'"] by simp
  next
    case (server_reads bs up y)
    obtain d where d: "spoken (co_tunnels (nt_agent n)) (askers X tr) d" "Frame_encode (x_codec X) (Frame_from_node d) = Ok bs"
      using keeps server_reads(3) by (auto simp: agent_keeps_def Let_def)
    have "said X l = Some (nid, d)"
      using decode_node_frame [OF codec d(2) server_reads(4)] server_reads(1) by (auto simp: said_def)
    then have "agent_keeps X nid tx sc (tr @ [l]) (n\<lparr>nt_server := y, nt_down := nt_down n, nt_up := up\<rparr>)"
      using d(1) by (intro agent_keeps_server [OF keeps]) (auto simp: server_reads(3))
    then show ?thesis
      using server_part [OF iso, of l y] server_reads by simp
  next
    case (server_other ev y)
    then have "said X l = None"
      by (auto simp: said_def)
    then have "agent_keeps X nid tx sc (tr @ [l]) (n\<lparr>nt_server := y, nt_down := nt_down n, nt_up := nt_up n\<rparr>)"
      by (intro agent_keeps_server [OF keeps]) simp_all
    then show ?thesis
      using server_part [OF iso, of l y] server_other by simp
  next
    case (agent_reads bs down c)
    have "licensed X tr d" if "Frame_decode Native64 (x_codec X) bs = Ok frame" "fr_data frame = Node d" for frame d
      using net agent_reads(3,4) decode_node_frame [OF codec] that by (fastforce simp: net_inv_def)
    then have "agent_keeps X nid tx sc (tr @ [Silent]) (n\<lparr>nt_agent := c\<rparr>)"
      by (intro agent_keeps_agent [OF keeps agent_reads(5)]) simp
    then show ?thesis
      using agent_reads(1,2) delivery_inv_silent [OF del] by (simp add: agent_keeps_def)
  next
    case (agent_other ev c)
    have "agent_keeps X nid tx sc (tr @ [Silent]) (n\<lparr>nt_agent := c\<rparr>)"
      using agent_other(3) by (intro agent_keeps_agent [OF keeps agent_other(4)]) auto
    then show ?thesis
      using agent_other(1,2) delivery_inv_silent [OF del] by simp
  next
    case (agent_works c)
    have "agent_keeps X nid tx sc (tr @ [Silent]) (n\<lparr>nt_agent := c\<rparr>)"
      by (intro agent_keeps_agent [OF keeps agent_works(3)]) simp
    then show ?thesis
      using agent_works(1,2) delivery_inv_silent [OF del] by simp
  next
    case (agent_writes a bs)
    have "life_act S E (x_codec X) env nid None (nt_agent n) ((nt_agent n)\<lparr>co_agent := a\<rparr>)"
      by (rule life_act.other_task, rule task_step.written [OF agent_writes(3)])
    then have k: "agent_keeps X nid tx sc (tr @ [Silent]) (n\<lparr>nt_agent := (nt_agent n)\<lparr>co_agent := a\<rparr>\<rparr>)"
      by (rule agent_keeps_agent [OF keeps]) simp
    have "tx_all (spoken (co_tunnels (nt_agent n)) (askers X tr)) (co_agent (nt_agent n))"
      using keeps by (simp add: agent_keeps_def Let_def)
    from write_next_tx_all [OF agent_writes(3) this]
    obtain d where "spoken (co_tunnels (nt_agent n)) (askers X tr) d" "Frame_encode (x_codec X) (Frame_from_node d) = Ok bs"
      by blast
    then have "\<exists>d. spoken (co_tunnels (nt_agent n)) (askers X (tr @ [Silent])) d \<and> Frame_encode (x_codec X) (Frame_from_node d) = Ok bs"
      using spoken_mono [OF _ subset_refl askers_mono] by blast
    then show ?thesis
      using k agent_writes(1,2) delivery_inv_silent [OF del] by (auto simp: agent_keeps_def Let_def)
  next
    case (lost j i)
    have "agent_keeps X nid tx sc (tr @ [Silent]) (n\<lparr>nt_server := nt_server n, nt_down := take i (nt_down n), nt_up := take j (nt_up n)\<rparr>)"
      by (rule agent_keeps_server [OF keeps set_take_subset]) simp
    then show ?thesis
      using lost delivery_inv_silent [OF del] by simp
  qed
  then show ?thesis
    using net_act_inv [OF act net codec] by (simp add: isolated_def)
qed

interpretation shown: history_system "net_act X S E env nid tx"
  "\<lambda>tr n. codec_inverse (x_codec X) \<longrightarrow> isolated X nid tx sc tr n" for X S E env nid tx sc
  by unfold_locales (blast intro: isolated_act)

text \<open>If only frames about its tunnels were heard from a node, the tunnels it announced are among them.\<close>

lemma announced_spoken:
  assumes "\<And>l g. l \<in> set tr \<Longrightarrow> said X l = Some (nid, g) \<Longrightarrow> spoken T A g"
  shows "announced X tr (nid, sid) = Some cid \<Longrightarrow> (cid, sid) \<in> T"
  using assms
proof (induction tr rule: rev_induct)
  case (snoc l tr)
  have IH: "announced X tr (nid, sid) = Some cid \<Longrightarrow> (cid, sid) \<in> T"
    by (rule snoc.IH) (auto intro: snoc.prems(2))
  show ?case
  proof (cases "said X l")
    case (Some p)
    then obtain nid' g where g: "said X l = Some (nid', g)"
      by (cases p) auto
    have "spoken T A g" if "nid' = nid"
      by (rule snoc.prems(2) [of l]) (simp_all add: g that)
    then show ?thesis
      using snoc.prems(1) IH g by (cases g) (auto split: if_splits)
  next
    case None
    then show ?thesis
      using snoc.prems(1) IH by simp
  qed
qed simp

section \<open>Properties\<close>

text \<open>
  C3: the output of a session is shown to nobody but the client that opened it. In every run of
  a server and the agent of a node, with any other clients and nodes, as long as the agent has
  started no more than \<open>2 ^ 32\<close> tunnels and nobody else is connected as this node: whatever the server
  writes to the socket of a client is a notice of its own, comes from another node, or was said by the agent
  to a client that asked it for a tunnel; and if it speaks of a session, that session is a tunnel of this very client
  and of no other.
\<close>

theorem output_reaches_only_its_client:
  assumes "run (net_act X S E env nid tx) n0 tr n" "codec_inverse (x_codec X)"
    and server: "broker_inv (nt_server n0)" "st_tunnel_sessions (sy_state (nt_server n0)) = []"
      "\<forall>(cid, tx) \<in> sy_web_tasks (nt_server n0). web_queue (sy_state (nt_server n0)) tx = []"
      "\<forall>g \<in> mail (sy_state (nt_server n0)). own_frame g"
    and agent: "nt_agent n0 = \<lparr>co_agent = WebSocketConnection_new sc ic fs, co_reader = True, co_phase = Serving, co_tunnels = {}\<rparr>"
      "nt_down n0 = []" "nt_up n0 = []"
    and few: "ag_next_chan (co_agent (nt_agent n)) \<le> 2 ^ 32"
    and alone: "\<forall>l \<in> set tr. \<forall>g. said X l = Some (nid, g) \<longrightarrow> (\<exists>ev. l = NodeRecv nid tx ev)"
    and sent: "server_act X (WebSend cid tx' (Some bs)) (nt_server n) y'" "length bs < 2 ^ 32"
  shows "\<exists>frame f. Frame_decode Native64 (x_codec X) bs = Ok frame \<and> fr_data frame = Web f \<and>
    (notice cid f \<or> (\<exists>before l after nid' g. tr = before @ l # after \<and> said X l = Some (nid', g) \<and>
       delivery (announced X before) nid' g = Some (cid, f) \<and>
       (nid' = nid \<longrightarrow>
          (\<exists>l \<in> set tr. \<exists>protocol username password mid. asks X l cid (NOpenTunnel protocol cid username password mid)) \<and>
          (\<forall>sid. frame_session g = Some sid \<longrightarrow>
             (cid, sid) \<in> co_tunnels (nt_agent n) \<and> (\<forall>c. (c, sid) \<in> co_tunnels (nt_agent n) \<longrightarrow> c = cid)))))"
proof -
  let ?T = "co_tunnels (nt_agent n)" let ?A = "askers X tr"
  have "isolated X nid tx sc [] n0"
    using server agent by (auto simp: isolated_def net_inv_def licensed_def life_inv_def agent_wf_new tracked_new sourced_new
        delivery_inv_def broker_of_def dm_get_def map_le_def agent_keeps_def Let_def numbered_new tx_all_new)
  then have iso: "isolated X nid tx sc tr n"
    using shown.run_hinv [OF assms(1)] assms(2) by simp
  then have dom: "fst ` ?T \<subseteq> ?A" and one: "\<And>c c' sid. (c, sid) \<in> ?T \<Longrightarrow> (c', sid) \<in> ?T \<Longrightarrow> c = c'"
    and heard: "\<And>l g. l \<in> set tr \<Longrightarrow> said X l = Some (nid, g) \<Longrightarrow> spoken ?T ?A g"
    using few alone unfolding isolated_def agent_keeps_def Let_def numbered_def by (blast, blast, metis)
  obtain f where f: "(cid, tx') \<in> sy_web_tasks (nt_server n)" "f \<in> set (web_queue (sy_state (nt_server n)) tx')"
    "Frame_encode (x_codec X) (Frame_from_web f) = Ok bs"
    using sent(1) by (rule web_send_queued)
  obtain frame where frame: "Frame_decode Native64 (x_codec X) bs = Ok frame" "fr_data frame = Web f"
    using decode_web_frame [OF assms(2) f(3) sent(2)] by blast
  have "deliverable X tr cid f"
    using iso f(1,2) by (auto simp: isolated_def delivery_inv_def)
  moreover have "cid \<in> ?A \<and> (\<forall>sid. frame_session g = Some sid \<longrightarrow> (cid, sid) \<in> ?T)"
    if tr: "tr = before @ l # after" and g: "said X l = Some (nid, g)" "delivery (announced X before) nid g = Some (cid, f)"
    for before l after g
  proof -
    have "spoken ?T ?A g"
      by (rule heard [of l], simp add: tr) (rule g(1))
    moreover have "(c, sid) \<in> ?T" if "announced X before (nid, sid) = Some c" for c sid
      by (rule announced_spoken [OF _ that]) (use heard tr in auto)
    ultimately show ?thesis
      using g(2) dom by (cases "(announced X before, nid, g)" rule: delivery.cases) force+
  qed
  ultimately show ?thesis
    using frame one askers_asked unfolding deliverable_def tells_def by metis
qed

section \<open>A run\<close>

text \<open>
  The example server without tunnels and the agent of its node 1: client 5 opens an SSH tunnel, its task
  reports and prints a letter, and the page is sent both.
\<close>

definition quiet_net :: "system \<Rightarrow> (uuid \<times> u32) set \<Rightarrow> (mem_fs, string) agent \<Rightarrow> (mem_fs, string) network" where
  "quiet_net y T a = (joined T a)\<lparr>nt_server := y\<rparr>"

lemma quiet_posts:
  "\<exists>y. server_act example_ext (WebRecv 5 1 (WsBinary (web_msg 20 7))) quiet_system y \<and>
     server_act example_ext (NodeSend 1 0 (Some (node_msg 20 8))) y quiet_system"
proof -
  let ?g = "NOpenTunnel 0 5 (Some ''u'') (Some ''p'') None"
  let ?y = "(posted ?g)\<lparr>sy_state := (sy_state (posted ?g))\<lparr>st_tunnel_sessions := []\<rparr>\<rparr>"
  have "handle_web_event example_ext 10 5 (WsBinary (web_msg 20 7)) (sy_state quiet_system) = (sy_state ?y, True)"
    by (simp add: handle_web_event_def example_ext_codec decode_web_msg example_web_frames_def)
      (simp add: quiet_system_def posted_def handle_web_open_tunnel_def send_to_node_def chan_send_def chan_new_def
        example_defs Let_def)
  then have "server_act example_ext (WebRecv 5 1 (WsBinary (web_msg 20 7))) quiet_system ?y"
    using server_act.web_event [of 5 1 quiet_system example_ext 10 "WsBinary (web_msg 20 7)" "sy_state ?y"]
    by (simp add: quiet_system_def posted_def typing_system_def)
  moreover have "node_write_step example_ext 0 (sy_state ?y) = Some (sy_state quiet_system, Some (node_msg 20 8))"
    by (simp add: node_write_step_def posted_def chan_recv_def example_ext_codec chan_new_def example_wire)
      (simp add: quiet_system_def example_state_def empty_state_def chan_new_def fun_upd_idem)
  from server_act.node_write [OF _ this, of 1] have "server_act example_ext (NodeSend 1 0 (Some (node_msg 20 8))) ?y quiet_system"
    by (simp add: posted_def quiet_system_def typing_system_def)
  ultimately show ?thesis
    by blast
qed

lemma quiet_wire:
  "Frame_encode example_codec (Frame_from_node (NTunnelOpened 0 5 9 None)) = Ok (node_msg 21 1)"
  "Frame_encode example_codec (Frame_from_web (WTunnelOpened 0 9 None)) = Ok (web_msg 21 4)"
  by (simp_all add: Frame_encode_def encode_parts_def Frame_from_web_def Frame_from_node_def example_codec_def
      table_codec_def table_to_vec_def example_web_frames_def example_node_frames_def FRAME_VERSION_def web_msg_def
      node_msg_def u32_to_be_def)

text \<open>The agent puts a frame of its tunnel 9 on the socket, and the server takes it.\<close>

lemma quiet_says:
  assumes "run example_hop n0 tr (quiet_net y {(5, 9)} hop_opened)"
    and "task_step mem_sftp example_ssh example_codec {(5, 9)} hop_opened a"
    and "write_next example_codec a = Some (hop_opened, Some bs)" "length bs < 2 ^ 32"
    and "server_act example_ext (NodeRecv 1 0 (WsBinary bs)) y y'"
  shows "run example_hop n0 (tr @ [Silent, Silent, NodeRecv 1 0 (WsBinary bs)]) (quiet_net y' {(5, 9)} hop_opened)"
proof -
  let ?n = "quiet_net y {(5, 9)} hop_opened" let ?n1 = "?n\<lparr>nt_agent := (nt_agent ?n)\<lparr>co_agent := a\<rparr>\<rparr>" let ?n2 = "?n\<lparr>nt_up := [bs]\<rparr>"
  have "example_hop Silent ?n ?n1"
    using assms(2) by (intro net_act.agent_works life_act.other_task) (simp add: quiet_net_def joined_def example_ext_codec)
  moreover have "example_hop Silent ?n1 ?n2"
    using net_act.agent_writes [of example_ext ?n1 hop_opened bs mem_sftp example_ssh example_agent_env 1 0] assms(3)
    by (simp add: quiet_net_def joined_def example_ext_codec)
  moreover have "example_hop (NodeRecv 1 0 (WsBinary bs)) ?n2 (quiet_net y' {(5, 9)} hop_opened)"
    using net_act.server_reads [of ?n2 bs "[]" example_ext 1 0 y'] assms(4,5)
    by (simp add: quiet_net_def joined_def)
  ultimately have "run example_hop n0 (((tr @ [Silent]) @ [Silent]) @ [NodeRecv 1 0 (WsBinary bs)]) (quiet_net y' {(5, 9)} hop_opened)"
    using assms(1) by (meson run_step)
  then show ?thesis
    by simp
qed

definition quiet_trace :: "action list" where
  "quiet_trace = hop_opening @ [Silent, Silent, NodeRecv 1 0 (WsBinary (node_msg 21 1))] @
     [Silent, Silent, NodeRecv 1 0 (WsBinary (node_msg 50 2))] @ [WebSend 5 1 (Some (web_msg 21 4))]"

lemma quiet_run:
  "run example_hop (quiet_net quiet_system {} hop_fresh) quiet_trace
     (quiet_net (mailed [WTunnelData 0 ''n1'' 9 [66]]) {(5, 9)} hop_opened)"
proof -
  let ?n = "quiet_net quiet_system {} hop_fresh"
  obtain y where y: "server_act example_ext (WebRecv 5 1 (WsBinary (web_msg 20 7))) quiet_system y"
    "server_act example_ext (NodeSend 1 0 (Some (node_msg 20 8))) y quiet_system"
    using quiet_posts by blast
  obtain t where t: "spawned t = {(5, 9)}"
    "reader_step mem_sftp example_codec example_agent_env 1 0 (WsBinary (node_msg 20 8)) hop_fresh = (hop_opened, Continue t)"
    by (rule hop_reader)
  have "example_hop (WebRecv 5 1 (WsBinary (web_msg 20 7))) ?n (?n\<lparr>nt_server := y\<rparr>)"
    using y(1) by (intro net_act.server_works) (simp_all add: quiet_net_def on_socket_def)
  moreover have "example_hop (NodeSend 1 0 (Some (node_msg 20 8))) (?n\<lparr>nt_server := y\<rparr>) (?n\<lparr>nt_down := [node_msg 20 8]\<rparr>)"
    using net_act.server_writes [of example_ext 1 0 "Some (node_msg 20 8)" "?n\<lparr>nt_server := y\<rparr>" quiet_system] y(2)
    by (simp add: quiet_net_def joined_def)
  moreover have "example_hop Silent (?n\<lparr>nt_down := [node_msg 20 8]\<rparr>) (quiet_net quiet_system {(5, 9)} hop_opened)"
    using net_act.agent_reads [of "?n\<lparr>nt_down := [node_msg 20 8]\<rparr>" "node_msg 20 8" "[]" mem_sftp example_ssh example_ext
        example_agent_env 1 "(nt_agent ?n)\<lparr>co_agent := hop_opened, co_tunnels := spawned t \<union> {}\<rparr>" 0]
      life_act.reads [of "nt_agent ?n" mem_sftp example_codec example_agent_env 1 0 "WsBinary (node_msg 20 8)" hop_opened t]
      example_lengths(2) [of 20 8]
    by (simp add: quiet_net_def joined_def example_ext_codec t)
  ultimately have "run example_hop ?n ((([] @ [WebRecv 5 1 (WsBinary (web_msg 20 7))]) @ [NodeSend 1 0 (Some (node_msg 20 8))]) @ [Silent])
      (quiet_net quiet_system {(5, 9)} hop_opened)"
    by (meson run_start run_step)
  then have opened: "run example_hop ?n hop_opening (quiet_net quiet_system {(5, 9)} hop_opened)"
    by (simp add: hop_opening_def)
  let ?a = "send_frame_data (NTunnelOpened 0 5 9 None) hop_opened"
  have rep: "task_step mem_sftp example_ssh example_codec {(5, 9)} hop_opened ?a"
    by (rule task_step.report [of 5 9]) simp_all
  have "ag_tx hop_opened = chan_new 1024"
    by (simp add: hop_opened_def agent_simps) (simp add: WebSocketConnection_new_def)
  then have "write_next example_codec ?a = Some (hop_opened, Some (node_msg 21 1))"
    by (simp add: write_next_def send_frame_data_def chan_try_send_def chan_recv_def chan_new_def quiet_wire)
  note reported = quiet_says [OF opened rep this example_lengths(2) mailed_events(1)]
  obtain a where a: "task_step mem_sftp example_ssh example_codec {(5, 9)} hop_opened a"
    "write_next example_codec a = Some (hop_opened, Some (node_msg 50 2))"
    by (rule hop_shell)
  note printed = quiet_says [OF reported a example_lengths(2) mailed_events(2)]
  let ?q = "[WTunnelOpened 0 9 None, WTunnelData 0 ''n1'' 9 [66]]"
  have "example_hop (WebSend 5 1 (Some (web_msg 21 4))) (quiet_net (mailed ?q) {(5, 9)} hop_opened)
      (quiet_net (mailed (tl ?q)) {(5, 9)} hop_opened)"
    using net_act.server_works [OF _ , of example_ext "WebSend 5 1 (Some (web_msg 21 4))"
        "quiet_net (mailed ?q) {(5, 9)} hop_opened" "mailed (tl ?q)"]
      mailed_write [OF quiet_wire(2), of "tl ?q"] by (simp add: quiet_net_def on_socket_def)
  then show ?thesis
    using run_step [of example_hop, OF printed] by (simp add: quiet_trace_def)
qed

theorem output_reaches_only_its_client_witness:
  "\<exists>frame f. Frame_decode Native64 example_codec (web_msg 22 5) = Ok frame \<and> fr_data frame = Web f \<and>
    (notice 5 f \<or> (\<exists>before l after nid' g. quiet_trace = before @ l # after \<and> said example_ext l = Some (nid', g) \<and>
       delivery (announced example_ext before) nid' g = Some (5, f) \<and>
       (nid' = 1 \<longrightarrow>
          (\<exists>l \<in> set quiet_trace. \<exists>protocol username password mid.
             asks example_ext l 5 (NOpenTunnel protocol 5 username password mid)) \<and>
          (\<forall>sid. frame_session g = Some sid \<longrightarrow>
             (5, sid) \<in> {(5, 9)} \<and> (\<forall>c. (c, sid) \<in> {(5 :: uuid, 9)} \<longrightarrow> c = 5)))))"
proof -
  let ?n = "quiet_net quiet_system {} hop_fresh" let ?n' = "quiet_net (mailed [WTunnelData 0 ''n1'' 9 [66]]) {(5, 9)} hop_opened"
  have c: "codec_inverse (x_codec example_ext)"
    by (simp add: example_ext_codec example_codec_inverse)
  have srv: "broker_inv (nt_server ?n)" "st_tunnel_sessions (sy_state (nt_server ?n)) = []"
    "\<forall>(cid, tx) \<in> sy_web_tasks (nt_server ?n). web_queue (sy_state (nt_server ?n)) tx = []"
    "\<forall>g \<in> mail (sy_state (nt_server ?n)). own_frame g"
    by (simp_all add: quiet_net_def quiet_start)
      (simp_all add: quiet_system_def typing_system_def mail_def example_state_def empty_state_def chan_simps)
  have ag: "nt_agent ?n = \<lparr>co_agent = hop_fresh, co_reader = True, co_phase = Serving, co_tunnels = {}\<rparr>"
    "nt_down ?n = []" "nt_up ?n = []"
    by (simp_all add: quiet_net_def joined_def)
  have few: "ag_next_chan (co_agent (nt_agent ?n')) \<le> 2 ^ 32"
    by (simp add: quiet_net_def joined_def hop_opened_def start_ssh_tunnel_def generate_session_id_def Let_def agent_simps)
      (simp add: WebSocketConnection_new_def)
  have alone: "\<forall>l \<in> set quiet_trace. \<forall>g. said example_ext l = Some (1, g) \<longrightarrow> (\<exists>ev. l = NodeRecv 1 0 ev)"
    by (simp add: quiet_trace_def hop_opening_def)
  have "server_act example_ext (WebSend 5 1 (Some (web_msg 22 5))) (nt_server ?n') (mailed [])"
    using mailed_write [OF example_wire(2), of "[]"] by (simp add: quiet_net_def)
  from output_reaches_only_its_client [OF quiet_run c srv ag few alone this example_lengths(1)] show ?thesis
    by (simp add: quiet_net_def joined_def example_ext_codec)
qed

end
