(* ===== verification/Config.thy ===== *)
theory Config
  imports Agent_State Token
begin

text \<open>
  Configuration from environment variables: \<open>Env\<close> of the server (\<open>server/src/env.rs\<close>), the agent
  (\<open>agent/src/env.rs\<close>) and the relay (\<open>relay/src/env.rs\<close>), and the tokio runtime that
  \<open>common/src/runtime.rs\<close> builds from them. The attribute \<open>#[envconfig(from, default)]\<close> reads the
  variable, or parses the default if it is unset, and fails if there is none or parsing fails.
  The builder of tokio is a parameter.
\<close>

section \<open>Parsing numbers\<close>

type_synonym environ = "string \<Rightarrow> string option"

definition is_digit :: "char \<Rightarrow> bool" where
  "is_digit c \<longleftrightarrow> 48 \<le> (of_char c :: nat) \<and> (of_char c :: nat) < 58"

definition parse_digits :: "string \<Rightarrow> nat option" where
  "parse_digits s = (if s \<noteq> [] \<and> list_all is_digit s then Some (digits_value s) else None)"

text \<open>\<open>FromStr\<close> of the unsigned integers: an optional plus sign, digits, and no overflow.\<close>

definition strip_plus :: "string \<Rightarrow> string" where
  "strip_plus s = (case s of c # r \<Rightarrow> if c = CHR ''+'' then r else s | [] \<Rightarrow> [])"

definition parse_unsigned :: "nat \<Rightarrow> string \<Rightarrow> nat option" where
  "parse_unsigned bits s =
     (case parse_digits (strip_plus s) of
        Some n \<Rightarrow> if n < 2 ^ bits then Some n else None
      | None \<Rightarrow> None)"

definition parse_u16 :: "string \<Rightarrow> u16 option" where
  "parse_u16 s = map_option word_of_nat (parse_unsigned 16 s)"

definition parse_u32 :: "string \<Rightarrow> u32 option" where
  "parse_u32 s = map_option word_of_nat (parse_unsigned 32 s)"

definition parse_u64 :: "string \<Rightarrow> u64 option" where
  "parse_u64 s = map_option word_of_nat (parse_unsigned 64 s)"

definition parse_i64 :: "string \<Rightarrow> int option" where
  "parse_i64 s =
     (case s of
        c # r \<Rightarrow>
          if c = CHR ''-''
          then (case parse_digits r of Some n \<Rightarrow> if n \<le> 2 ^ 63 then Some (- int n) else None | None \<Rightarrow> None)
          else map_option int (parse_unsigned 63 s)
      | [] \<Rightarrow> None)"

section \<open>Environment variables\<close>

datatype env_error = EnvVarMissing string | EnvParseError string

definition env_var :: "environ \<Rightarrow> string \<Rightarrow> string option \<Rightarrow> (string \<Rightarrow> 'a option) \<Rightarrow> (env_error, 'a) outcome" where
  "env_var env name dflt parse =
     (case env name of
        Some v \<Rightarrow> (case parse v of Some x \<Rightarrow> Ok x | None \<Rightarrow> Err (EnvParseError name))
      | None \<Rightarrow>
          (case dflt of
             Some d \<Rightarrow> (case parse d of Some x \<Rightarrow> Ok x | None \<Rightarrow> Err (EnvParseError name))
           | None \<Rightarrow> Err (EnvVarMissing name)))"

definition obind :: "('e, 'a) outcome \<Rightarrow> ('a \<Rightarrow> ('e, 'b) outcome) \<Rightarrow> ('e, 'b) outcome" where
  "obind r f = (case r of Ok a \<Rightarrow> f a | Err e \<Rightarrow> Err e | Panic \<Rightarrow> Panic)"

definition parse_result :: "(string \<Rightarrow> ('e, 'a) outcome) \<Rightarrow> string \<Rightarrow> 'a option" where
  "parse_result f s = (case f s of Ok x \<Rightarrow> Some x | _ \<Rightarrow> None)"

text \<open>
  The server: \<open>ip_source\<close> tells whether the third-party type of \<open>IP_SOURCE\<close> parses; the variables of the
  two databases have to be present but only select the stores, which are parameters.
\<close>

definition server_env_init :: "(string \<Rightarrow> unit option) \<Rightarrow> environ \<Rightarrow> (env_error, Env) outcome" where
  "server_env_init ip_source env =
     obind (env_var env ''APP_MODE'' (Some ''production'') (parse_result Mode_from_str)) (\<lambda>mode.
     obind (env_var env ''FQDN'' (Some ''localhost'') Some) (\<lambda>fqdn.
     obind (env_var env ''IP_SOURCE'' (Some ''ConnectInfo'') ip_source) (\<lambda>_.
     obind (env_var env ''HOST'' (Some ''0.0.0.0'') Some) (\<lambda>host.
     obind (env_var env ''PORT'' (Some ''8080'') parse_u16) (\<lambda>port.
     obind (env_var env ''DATABASE_URL'' None Some) (\<lambda>_.
     obind (env_var env ''DATABASE_MAX_CONNECTIONS'' (Some ''5'') parse_u32) (\<lambda>_.
     obind (env_var env ''REDIS_DATABASE_URL'' None Some) (\<lambda>_.
     obind (env_var env ''JWT_SECRET'' None Some) (\<lambda>jwt_secret.
     obind (env_var env ''JWT_TTL_SECS'' (Some ''300'') parse_i64) (\<lambda>jwt_ttl.
     obind (env_var env ''CHALLENGE_TTL_SECS'' (Some ''60'') parse_i64) (\<lambda>challenge_ttl.
       Ok \<lparr>env_mode = mode, env_fqdn = fqdn, env_host = host, env_port = port,
           env_access_control_allowed_origin = env ''ACCESS_CONTROL_ALLOW_ORIGIN'',
           env_jwt_secret = jwt_secret, env_jwt_ttl_secs = jwt_ttl,
           env_challenge_ttl_secs = challenge_ttl\<rparr>)))))))))))"

definition agent_env_init :: "string \<Rightarrow> environ \<Rightarrow> (env_error, agent_env) outcome" where
  "agent_env_init version env =
     obind (env_var env ''APP_MODE'' (Some ''production'') (parse_result Mode_from_str)) (\<lambda>mode.
     obind (env_var env ''HOST'' (Some ''0.0.0.0'') Some) (\<lambda>host.
     obind (env_var env ''PORT'' (Some ''8081'') parse_u16) (\<lambda>port.
     obind (env_var env ''STATS_REFRESH_INTERVAL'' (Some ''30'') parse_u16) (\<lambda>interval.
     obind (env_var env ''SERVER_HOST'' (Some ''api.phirepass.com'') Some) (\<lambda>server_host.
     obind (env_var env ''SERVER_PORT'' (Some ''443'') parse_u16) (\<lambda>server_port.
     obind (env_var env ''SSH_HOST'' (Some ''localhost'') Some) (\<lambda>ssh_host.
     obind (env_var env ''SSH_PORT'' (Some ''22'') parse_u16) (\<lambda>ssh_port.
     obind (env_var env ''SSH_AUTH_METHOD'' (Some ''password'') (parse_result SSHAuthMethod_from_str)) (\<lambda>auth.
     obind (env_var env ''SSH_INACTIVITY_PERIOD'' (Some ''3600'') parse_u64) (\<lambda>inactivity.
       Ok \<lparr>ae_mode = mode, ae_host = host, ae_port = port, ae_stats_refresh_interval = interval,
           ae_server_host = server_host, ae_server_port = server_port, ae_ssh_host = ssh_host,
           ae_ssh_port = ssh_port, ae_ssh_auth_mode = auth, ae_ssh_inactivity_secs = inactivity,
           ae_version = version\<rparr>))))))))))"

record relay_env =
  re_mode :: Mode
  re_host :: string
  re_port :: u16
  re_redis_database_url :: string

definition relay_env_init :: "environ \<Rightarrow> (env_error, relay_env) outcome" where
  "relay_env_init env =
     obind (env_var env ''APP_MODE'' (Some ''production'') (parse_result Mode_from_str)) (\<lambda>mode.
     obind (env_var env ''HOST'' (Some ''0.0.0.0'') Some) (\<lambda>host.
     obind (env_var env ''PORT'' (Some ''8000'') parse_u16) (\<lambda>port.
     obind (env_var env ''REDIS_DATABASE_URL'' (Some ''redis://127.0.0.1'') Some) (\<lambda>url.
       Ok \<lparr>re_mode = mode, re_host = host, re_port = port, re_redis_database_url = url\<rparr>))))"

section \<open>The runtime\<close>

text \<open>
  \<open>tokio::runtime::Builder\<close>: its two constructors, the two setters, the number of workers a runtime built
  from it has, and what \<open>block_in_place\<close> does on it. Documented: the setters panic on zero, setting the
  workers is observable, and the number of blocking threads does not affect it; \<open>block_in_place\<close> panics
  on a current-thread runtime and only there.
\<close>

record 'b tokio =
  tk_new_current_thread :: 'b
  tk_new_multi_thread :: 'b
  tk_worker_threads :: "u64 \<Rightarrow> 'b \<Rightarrow> (unit, 'b) outcome"
  tk_max_blocking_threads :: "u64 \<Rightarrow> 'b \<Rightarrow> (unit, 'b) outcome"
  tk_workers :: "'b \<Rightarrow> u64 option"
  tk_block_in_place :: "'b \<Rightarrow> (unit, unit) outcome"

definition tokio_documented :: "'b tokio \<Rightarrow> bool" where
  "tokio_documented T \<longleftrightarrow>
     (\<forall>b. tk_worker_threads T 0 b = Panic \<and> tk_max_blocking_threads T 0 b = Panic) \<and>
     (\<forall>n b. n \<noteq> 0 \<longrightarrow> (\<exists>b'. tk_worker_threads T n b = Ok b' \<and> tk_workers T b' = Some n)) \<and>
     (\<forall>n b. n \<noteq> 0 \<longrightarrow> (\<exists>b'. tk_max_blocking_threads T n b = Ok b' \<and> tk_workers T b' = tk_workers T b)) \<and>
     tk_block_in_place T (tk_new_current_thread T) = Panic \<and> tk_block_in_place T (tk_new_multi_thread T) = Ok () \<and>
     (\<forall>n b b'. tk_worker_threads T n b = Ok b' \<or> tk_max_blocking_threads T n b = Ok b' \<longrightarrow>
        tk_block_in_place T b' = tk_block_in_place T b)"

definition RuntimeBuilder_create :: "'b tokio \<Rightarrow> environ \<Rightarrow> (unit, 'b) outcome" where
  "RuntimeBuilder_create T env =
     (let flavor = (case env ''TOKIO_FLAVOR'' of Some v \<Rightarrow> v | None \<Rightarrow> ''multi_thread'');
          worker_threads = (case env ''TOKIO_WORKER_THREADS'' of Some v \<Rightarrow> parse_u64 v | None \<Rightarrow> None);
          max_blocking =
            (case env ''TOKIO_MAX_BLOCKING_THREADS'' of
               Some v \<Rightarrow> (case parse_u64 v of Some n \<Rightarrow> n | None \<Rightarrow> 32)
             | None \<Rightarrow> 32);
          builder = (if flavor = ''current_thread'' then tk_new_current_thread T else tk_new_multi_thread T)
      in obind
           (case worker_threads of
              Some n \<Rightarrow> if flavor \<noteq> ''current_thread'' then tk_worker_threads T n builder else Ok builder
            | None \<Rightarrow> Ok builder)
           (\<lambda>b. tk_max_blocking_threads T max_blocking b))"

definition with_worker_threads :: "'b tokio \<Rightarrow> u64 \<Rightarrow> 'b \<Rightarrow> (unit, 'b) outcome" where
  "with_worker_threads T n b = tk_worker_threads T n b"

text \<open>The runtimes of the two binaries (\<open>agent/src/main.rs\<close>, \<open>server/src/main.rs\<close>).\<close>

definition agent_runtime :: "'b tokio \<Rightarrow> environ \<Rightarrow> (unit, 'b) outcome" where
  "agent_runtime T env = obind (RuntimeBuilder_create T env) (with_worker_threads T 2)"

definition server_runtime :: "'b tokio \<Rightarrow> environ \<Rightarrow> (unit, 'b) outcome" where
  "server_runtime T env = RuntimeBuilder_create T env"

section \<open>Lemmas\<close>

lemma dec_digits_ne: "dec_digits n \<noteq> []"
  by (simp add: dec_digits.simps [of n])

lemma list_all_dec_digits: "list_all is_digit (dec_digits n)"
  using dec_digits_chars by (auto simp: list_all_iff is_digit_def)

lemma strip_plus_dec: "strip_plus (dec_digits n) = dec_digits n"
  using list_all_dec_digits [of n]
  by (cases "dec_digits n") (auto simp: strip_plus_def is_digit_def)

text \<open>What \<open>Display\<close> prints, \<open>FromStr\<close> reads.\<close>

lemma parse_unsigned_dec: "parse_unsigned bits (dec_digits n) = (if n < 2 ^ bits then Some n else None)"
  by (simp add: parse_unsigned_def strip_plus_dec parse_digits_def dec_digits_ne list_all_dec_digits
      digits_value_dec)

lemma obind_Ok: "obind r f = Ok x \<longleftrightarrow> (\<exists>a. r = Ok a \<and> f a = Ok x)"
  by (cases r) (auto simp: obind_def)

section \<open>Properties\<close>

text \<open>
  Building the runtime panics exactly if the number of blocking threads is set to zero, or the number
  of workers is and the flavor is not \<open>current_thread\<close>; a value that does not parse is ignored.
\<close>

theorem runtime_panics_iff:
  assumes "tokio_documented T"
  shows "RuntimeBuilder_create T env = Panic \<longleftrightarrow>
     (\<exists>v. env ''TOKIO_MAX_BLOCKING_THREADS'' = Some v \<and> parse_u64 v = Some 0) \<or>
     env ''TOKIO_FLAVOR'' \<noteq> Some ''current_thread'' \<and>
       (\<exists>v. env ''TOKIO_WORKER_THREADS'' = Some v \<and> parse_u64 v = Some 0)"
proof -
  have zero: "tk_worker_threads T n b = Panic \<longleftrightarrow> n = 0" "tk_max_blocking_threads T n b = Panic \<longleftrightarrow> n = 0"
    and ok: "n \<noteq> 0 \<Longrightarrow> \<exists>b'. tk_worker_threads T n b = Ok b'" "n \<noteq> 0 \<Longrightarrow> \<exists>b'. tk_max_blocking_threads T n b = Ok b'" for n b
    using assms unfolding tokio_documented_def by (metis outcome.distinct(3))+
  have bind: "obind r (\<lambda>b. tk_max_blocking_threads T n b) = Panic \<longleftrightarrow> r = Panic \<or> is_ok r \<and> n = 0"
    for r :: "(unit, 'a) outcome" and n
    by (cases r) (simp_all add: obind_def zero)
  have w: "is_ok (tk_worker_threads T n b) \<longleftrightarrow> n \<noteq> 0" for n b
    using zero(1) [of n b] ok(1) [of n b] by (cases "n = 0") (auto simp: is_ok_conv)
  show ?thesis
    by (auto simp: RuntimeBuilder_create_def Let_def bind zero w split: option.splits)
qed

text \<open>
  The agent always runs on two workers: the variable \<open>TOKIO_WORKER_THREADS\<close> is overridden, though
  setting it to zero still stops the agent from starting.
\<close>

theorem agent_runs_on_two_workers:
  assumes "tokio_documented T" "agent_runtime T env = Ok b"
  shows "tk_workers T b = Some 2"
proof -
  obtain b' where "tk_worker_threads T 2 b' = Ok b"
    using assms(2) by (auto simp: agent_runtime_def obind_Ok with_worker_threads_def)
  moreover have "(2 :: u64) \<noteq> 0"
    by simp
  with assms(1) obtain c where "tk_worker_threads T 2 b' = Ok c" "tk_workers T c = Some 2"
    unfolding tokio_documented_def by blast
  ultimately show ?thesis
    by simp
qed

text \<open>
  On a runtime of the flavor \<open>current_thread\<close>, and on no other, \<open>block_in_place\<close> panics; agent and server both
  accept the flavor, and both call it.
\<close>

theorem block_in_place_panics_iff:
  assumes "tokio_documented T" "server_runtime T env = Ok b \<or> agent_runtime T env = Ok b"
  shows "tk_block_in_place T b = (if env ''TOKIO_FLAVOR'' = Some ''current_thread'' then Panic else Ok ())"
proof -
  have keep: "tk_worker_threads T n b = Ok b' \<Longrightarrow> tk_block_in_place T b' = tk_block_in_place T b"
    "tk_max_blocking_threads T n b = Ok b' \<Longrightarrow> tk_block_in_place T b' = tk_block_in_place T b" for n b b'
    using assms(1) unfolding tokio_documented_def by blast+
  have new: "tk_block_in_place T (tk_new_current_thread T) = Panic" "tk_block_in_place T (tk_new_multi_thread T) = Ok ()"
    using assms(1) unfolding tokio_documented_def by blast+
  have create: "tk_block_in_place T b = (if env ''TOKIO_FLAVOR'' = Some ''current_thread'' then Panic else Ok ())"
    if "RuntimeBuilder_create T env = Ok b" for b
    using that new by (auto simp: RuntimeBuilder_create_def Let_def obind_Ok dest!: keep split: option.splits if_splits)
  show ?thesis
    using assms(2) create by (auto simp: server_runtime_def agent_runtime_def with_worker_threads_def obind_Ok dest!: keep)
qed

text \<open>A builder that keeps the two settings, as an instance of what tokio documents.\<close>

definition example_tokio :: "(bool \<times> u64 option \<times> u64) tokio" where
  "example_tokio = \<lparr>tk_new_current_thread = (True, None, 512), tk_new_multi_thread = (False, None, 512),
     tk_worker_threads = (\<lambda>n (current, _, m). if n = 0 then Panic else Ok (current, Some n, m)),
     tk_max_blocking_threads = (\<lambda>n (current, w, _). if n = 0 then Panic else Ok (current, w, n)),
     tk_workers = (\<lambda>(_, w, _). w), tk_block_in_place = (\<lambda>(current, _, _). if current then Panic else Ok ())\<rparr>"

lemma example_tokio_documented: "tokio_documented example_tokio"
  by (simp add: tokio_documented_def example_tokio_def)

lemma parse_u64_digits: "parse_u64 ''0'' = Some 0" "parse_u64 ''8'' = Some 8"
  by (simp_all add: parse_u64_def parse_unsigned_def parse_digits_def strip_plus_def is_digit_def digits_value_def)

theorem runtime_panics_iff_witness:
  "RuntimeBuilder_create example_tokio [''TOKIO_WORKER_THREADS'' \<mapsto> ''0''] = Panic \<and>
   RuntimeBuilder_create example_tokio [''TOKIO_WORKER_THREADS'' \<mapsto> ''0'', ''TOKIO_FLAVOR'' \<mapsto> ''current_thread''] \<noteq> Panic"
  using runtime_panics_iff [OF example_tokio_documented, of "[''TOKIO_WORKER_THREADS'' \<mapsto> ''0'']"]
    runtime_panics_iff [OF example_tokio_documented,
      of "[''TOKIO_WORKER_THREADS'' \<mapsto> ''0'', ''TOKIO_FLAVOR'' \<mapsto> ''current_thread'']"]
  by (simp add: parse_u64_digits)

theorem agent_runs_on_two_workers_witness:
  "\<exists>b. agent_runtime example_tokio [''TOKIO_WORKER_THREADS'' \<mapsto> ''8''] = Ok b \<and> tk_workers example_tokio b = Some 2"
proof -
  have r: "agent_runtime example_tokio [''TOKIO_WORKER_THREADS'' \<mapsto> ''8''] = Ok (False, Some 2, 32)"
    by (simp add: agent_runtime_def RuntimeBuilder_create_def with_worker_threads_def obind_def parse_u64_digits
        example_tokio_def)
  show ?thesis
    using r agent_runs_on_two_workers [OF example_tokio_documented r] by blast
qed

theorem block_in_place_panics_iff_witness:
  "\<exists>b. agent_runtime example_tokio [''TOKIO_FLAVOR'' \<mapsto> ''current_thread''] = Ok b \<and> tk_block_in_place example_tokio b = Panic"
proof -
  have r: "agent_runtime example_tokio [''TOKIO_FLAVOR'' \<mapsto> ''current_thread''] = Ok (True, Some 2, 32)"
    by (simp add: agent_runtime_def RuntimeBuilder_create_def with_worker_threads_def obind_def example_tokio_def)
  show ?thesis
    using r block_in_place_panics_iff [OF example_tokio_documented, of "[''TOKIO_FLAVOR'' \<mapsto> ''current_thread'']"] by simp
qed

text \<open>
  The variables the documentation names for the lifetimes of tokens and challenges, and for the ping
  interval of the agent, have no effect: the code reads others.
\<close>

theorem documented_variables_ignored:
  "server_env_init ip_source (env(''NODE_JWT_TTL_SECS'' := v, ''NODE_CHALLENGE_TTL_SECS'' := w)) =
     server_env_init ip_source env \<and>
   agent_env_init version (env(''PING_INTERVAL'' := v)) = agent_env_init version env"
  by (simp add: server_env_init_def agent_env_init_def env_var_def)

text \<open>
  The agent starts with every variable unset, and fails to start exactly if a variable that is not
  free text is set to something its type does not parse.
\<close>

lemma env_var_total:
  assumes "parse d = Some y"
  shows "(\<exists>x. env_var env name (Some d) parse = Ok x) \<longleftrightarrow> (\<forall>v. env name = Some v \<longrightarrow> parse v \<noteq> None)"
  using assms by (auto simp: env_var_def split: option.splits)

lemma default_numbers:
  "parse_u16 ''8081'' = Some 8081" "parse_u16 ''30'' = Some 30" "parse_u16 ''443'' = Some 443"
  "parse_u16 ''22'' = Some 22" "parse_u64 ''3600'' = Some 3600"
  by (simp_all add: parse_u16_def parse_u64_def parse_unsigned_def parse_digits_def strip_plus_def
      is_digit_def digits_value_def)

lemma default_words:
  "parse_result Mode_from_str ''production'' = Some Production"
  "parse_result SSHAuthMethod_from_str ''password'' = Some PasswordAuth"
  by (simp_all add: parse_result_def Mode_from_str_def SSHAuthMethod_from_str_def to_ascii_lower_def)

lemma env_var_text: "env_var env name (Some d) Some = Ok (case env name of Some v \<Rightarrow> v | None \<Rightarrow> d)"
  by (simp add: env_var_def split: option.splits)

theorem agent_env_starts_iff:
  "is_ok (agent_env_init version env) \<longleftrightarrow>
     (\<forall>v. env ''APP_MODE'' = Some v \<longrightarrow> parse_result Mode_from_str v \<noteq> None) \<and>
     (\<forall>v. env ''SSH_AUTH_METHOD'' = Some v \<longrightarrow> parse_result SSHAuthMethod_from_str v \<noteq> None) \<and>
     (\<forall>name v. name \<in> {''PORT'', ''STATS_REFRESH_INTERVAL'', ''SERVER_PORT'', ''SSH_PORT''} \<longrightarrow>
        env name = Some v \<longrightarrow> parse_u16 v \<noteq> None) \<and>
     (\<forall>v. env ''SSH_INACTIVITY_PERIOD'' = Some v \<longrightarrow> parse_u64 v \<noteq> None)"
proof -
  note total =
    env_var_total [where parse = "parse_result Mode_from_str" and d = "''production''" and name = "''APP_MODE''" and env = env, OF default_words(1), symmetric]
    env_var_total [where parse = "parse_result SSHAuthMethod_from_str" and d = "''password''" and name = "''SSH_AUTH_METHOD''" and env = env, OF default_words(2), symmetric]
    env_var_total [where parse = "parse_u16" and d = "''8081''" and name = "''PORT''" and env = env, OF default_numbers(1), symmetric]
    env_var_total [where parse = "parse_u16" and d = "''30''" and name = "''STATS_REFRESH_INTERVAL''" and env = env, OF default_numbers(2), symmetric]
    env_var_total [where parse = "parse_u16" and d = "''443''" and name = "''SERVER_PORT''" and env = env, OF default_numbers(3), symmetric]
    env_var_total [where parse = "parse_u16" and d = "''22''" and name = "''SSH_PORT''" and env = env, OF default_numbers(4), symmetric]
    env_var_total [where parse = "parse_u64" and d = "''3600''" and name = "''SSH_INACTIVITY_PERIOD''" and env = env, OF default_numbers(5), symmetric]
  have ports: "(\<forall>name v. name \<in> {''PORT'', ''STATS_REFRESH_INTERVAL'', ''SERVER_PORT'', ''SSH_PORT''} \<longrightarrow>
      env name = Some v \<longrightarrow> parse_u16 v \<noteq> None) \<longleftrightarrow>
    (\<forall>v. env ''PORT'' = Some v \<longrightarrow> parse_u16 v \<noteq> None) \<and>
    (\<forall>v. env ''STATS_REFRESH_INTERVAL'' = Some v \<longrightarrow> parse_u16 v \<noteq> None) \<and>
    (\<forall>v. env ''SERVER_PORT'' = Some v \<longrightarrow> parse_u16 v \<noteq> None) \<and>
    (\<forall>v. env ''SSH_PORT'' = Some v \<longrightarrow> parse_u16 v \<noteq> None)"
    by blast
  show ?thesis
    unfolding ports total is_ok_conv
    by (simp only: agent_env_init_def obind_Ok env_var_text) (simp, blast)
qed

end
