(* ===== verification/Server_Start.thy ===== *)
theory Server_Start
  imports Broker Config
begin

text \<open>
  Start-up of the server: discovery of its public address (\<open>server/src/stun.rs\<close>), its identifier, the
  initial state, the router and the periodic tasks (\<open>server/src/server.rs\<close>), with the health checks of
  \<open>server/src/http.rs\<close>. What happens after a successful start is \<open>server_step\<close>.
\<close>

section \<open>The public address\<close>

definition DEFAULT_SERVERS :: "string list" where
  "DEFAULT_SERVERS =
     [''stun.l.google.com:19302'', ''stun1.l.google.com:19302'', ''stun2.l.google.com:19302'',
      ''stun3.l.google.com:19302'', ''stun4.l.google.com:19302'']"

definition servers_from_env :: "environ \<Rightarrow> string list" where
  "servers_from_env env =
     (case env ''STUN_SERVERS'' of
        Some value \<Rightarrow> filter (\<lambda>s. s \<noteq> []) (map trim (split_on CHR '','' value))
      | None \<Rightarrow> DEFAULT_SERVERS)"

text \<open>
  The network as a parameter: name resolution, the answer of a STUN server asked in the n-th round, the
  socket and the local address.
\<close>

record 'addr net =
  net_bind :: bool
  net_set_read_timeout :: bool
  net_resolve :: "string \<Rightarrow> 'addr option"
  net_query :: "nat \<Rightarrow> 'addr \<Rightarrow> (string, string) outcome"
  net_local_ip :: "string option"

datatype start_error =
    BindFailed | TimeoutNotSet | StunFailed string | LocalIpFailed | DatabaseCreateFailed | MemoryDbCreateFailed

text \<open>The loop over the servers; the last component counts the pauses of one second.\<close>

fun stun_loop ::
  "'addr net \<Rightarrow> nat \<Rightarrow> string list \<Rightarrow> string option \<Rightarrow> nat \<Rightarrow> (string, string) outcome \<times> nat" where
  "stun_loop N i [] last_error pauses =
     (Err (case last_error of Some e \<Rightarrow> e | None \<Rightarrow> ''no STUN servers configured''), pauses)"
| "stun_loop N i (server # rest) last_error pauses =
     (case net_resolve N server of
        None \<Rightarrow> stun_loop N (Suc i) rest (Some (''cannot resolve '' @ server)) pauses
      | Some addr \<Rightarrow>
          (case net_query N i addr of
             Ok ip \<Rightarrow> (Ok ip, pauses)
           | Err err \<Rightarrow> stun_loop N (Suc i) rest (Some (server @ '' failed: '' @ err)) (Suc pauses)
           | Panic \<Rightarrow> (Panic, pauses)))"

definition get_public_address :: "'addr net \<Rightarrow> environ \<Rightarrow> (start_error, string) outcome \<times> nat" where
  "get_public_address N env =
     (if \<not> net_bind N then (Err BindFailed, 0)
      else if \<not> net_set_read_timeout N then (Err TimeoutNotSet, 0)
      else case stun_loop N 0 (servers_from_env env) None 0 of
        (Ok ip, n) \<Rightarrow> (Ok ip, n)
      | (Err e, n) \<Rightarrow> (Err (StunFailed e), n)
      | (Panic, n) \<Rightarrow> (Panic, n))"

definition create_server_identifier ::
  "'addr net \<Rightarrow> environ \<Rightarrow> Env \<Rightarrow> uuid \<Rightarrow> (start_error, ServerIdentifier) outcome" where
  "create_server_identifier N env config sid =
     obind (fst (get_public_address N env)) (\<lambda>public_ip.
     obind (case net_local_ip N of Some ip \<Rightarrow> Ok ip | None \<Rightarrow> Err LocalIpFailed) (\<lambda>private_ip.
       Ok \<lparr>sid_id = sid, sid_private_ip = private_ip, sid_public_ip = public_ip,
           sid_port = env_port config, sid_fqdn = env_fqdn config\<rparr>))"

section \<open>The initial state\<close>

text \<open>
  \<open>start\<close> up to the point where the tasks are spawned; \<open>pg\<close> and \<open>rd\<close> are the two stores, if
  they can be connected to.
\<close>

definition server_start ::
  "'addr net \<Rightarrow> environ \<Rightarrow> Env \<Rightarrow> uuid \<Rightarrow> Database option \<Rightarrow> MemoryDB option \<Rightarrow> (start_error, AppState) outcome" where
  "server_start N env config new_id pg rd =
     obind (case pg of Some db \<Rightarrow> Ok db | None \<Rightarrow> Err DatabaseCreateFailed) (\<lambda>db.
     obind (case rd of Some m \<Rightarrow> Ok m | None \<Rightarrow> Err MemoryDbCreateFailed) (\<lambda>memory_db.
     obind (create_server_identifier N env config new_id) (\<lambda>server_identifier.
       Ok \<lparr>st_id = new_id, st_server = server_identifier, st_env = config, st_db = db,
           st_memory_db = memory_db, st_nodes = [], st_connections = [], st_tunnel_sessions = [],
           st_node_chans = (\<lambda>_. chan_new 256), st_web_chans = (\<lambda>_. chan_new 256), st_next_chan = 0\<rparr>)))"

section \<open>The periodic tasks\<close>

datatype task_event = Tick instant | Shutdown

fun server_update_loop ::
  "server_ext \<Rightarrow> (nat \<Rightarrow> nat \<Rightarrow> nat \<Rightarrow> string) \<Rightarrow> task_event list \<Rightarrow> AppState \<Rightarrow> AppState" where
  "server_update_loop X stats_json [] s = s"
| "server_update_loop X stats_json (Tick _ # evs) s =
     server_update_loop X stats_json evs (keep_server_alive_task X stats_json s)"
| "server_update_loop X stats_json (Shutdown # _) s = s"

fun connections_refresh_loop :: "server_ext \<Rightarrow> task_event list \<Rightarrow> AppState \<Rightarrow> AppState" where
  "connections_refresh_loop X [] s = s"
| "connections_refresh_loop X (Tick now # evs) s =
     connections_refresh_loop X evs (refresh_connections_task X now s)"
| "connections_refresh_loop X (Shutdown # _) s = s"

section \<open>The router\<close>

datatype http_method = GET | HEAD | POST | OtherMethod

datatype endpoint =
    Healthz | Readyz | WebWs | NodeClaim | AuthChallenge | AuthVerify | NodeHeartbeat | NodeWs
  | ListNodes | ListConnections

definition routes :: "(string \<times> http_method \<times> endpoint) list" where
  "routes =
     [(''/healthz'', GET, Healthz), (''/readyz'', GET, Readyz), (''/api/web/ws'', GET, WebWs),
      (''/api/nodes/claim'', POST, NodeClaim), (''/api/nodes/auth/challenge'', POST, AuthChallenge),
      (''/api/nodes/auth/verify'', POST, AuthVerify), (''/api/nodes/heartbeat'', POST, NodeHeartbeat),
      (''/api/nodes/ws'', GET, NodeWs), (''/api/nodes'', GET, ListNodes),
      (''/api/connections'', GET, ListConnections)]"

text \<open>axum answers an unknown path with 404, a known one with another method with 405, and HEAD like GET.\<close>

definition route :: "http_method \<Rightarrow> string \<Rightarrow> nat + endpoint" where
  "route m path =
     (case map_of routes path of
        None \<Rightarrow> Inl 404
      | Some (m', e) \<Rightarrow> if m = m' \<or> m = HEAD \<and> m' = GET then Inr e else Inl 405)"

definition readiness :: "bool \<Rightarrow> nat" where
  "readiness READY = (if READY then 200 else 503)"

definition healthz :: nat where
  "healthz = 200"

text \<open>
  The requests that are answered at once: the claim, the two steps of the authentication and the
  heartbeat run their handlers; the others only read the state.
\<close>

record http_request =
  rq_method :: http_method
  rq_path :: string
  rq_headers :: HeaderMap
  rq_claim :: ClaimNodeRequest
  rq_node_id :: uuid
  rq_verify :: VerifyRequest

datatype http_reply =
    Status nat
  | Reply response
  | Nodes "node_listing list"
  | Connections "connection_listing list"
  | Upgrade endpoint

definition serve ::
  "server_ext \<Rightarrow> instant \<Rightarrow> bytes \<Rightarrow> uuid \<Rightarrow> bool \<Rightarrow> http_request \<Rightarrow> AppState \<Rightarrow> AppState \<times> http_reply" where
  "serve X now random new_id READY rq s =
     (case route (rq_method rq) (rq_path rq) of
        Inl code \<Rightarrow> (s, Status code)
      | Inr Healthz \<Rightarrow> (s, Status healthz)
      | Inr Readyz \<Rightarrow> (s, Status (readiness READY))
      | Inr WebWs \<Rightarrow> (s, Upgrade WebWs)
      | Inr NodeWs \<Rightarrow> (s, Upgrade NodeWs)
      | Inr NodeClaim \<Rightarrow> map_prod id Reply (claim_node X now new_id (rq_headers rq) (rq_claim rq) s)
      | Inr AuthChallenge \<Rightarrow> map_prod id Reply (create_auth_challenge X random now (rq_node_id rq) s)
      | Inr AuthVerify \<Rightarrow> map_prod id Reply (verify_auth_challenge X now (rq_verify rq) s)
      | Inr NodeHeartbeat \<Rightarrow> map_prod id Reply (require_node_jwt X now (rq_headers rq) (heartbeat now) s)
      | Inr ListNodes \<Rightarrow> (s, Nodes (list_nodes now s))
      | Inr ListConnections \<Rightarrow> (s, Connections (list_connections now s)))"

section \<open>Lemmas\<close>

text \<open>What the n-th server contributes: an address, or nothing.\<close>

definition stun_answer :: "'addr net \<Rightarrow> nat \<Rightarrow> string \<Rightarrow> string option" where
  "stun_answer N i server =
     (case net_resolve N server of
        None \<Rightarrow> None
      | Some addr \<Rightarrow> (case net_query N i addr of Ok ip \<Rightarrow> Some ip | _ \<Rightarrow> None))"

fun first_answer :: "'addr net \<Rightarrow> nat \<Rightarrow> string list \<Rightarrow> string option" where
  "first_answer N k [] = None"
| "first_answer N k (server # rest) =
     (case stun_answer N k server of Some ip \<Rightarrow> Some ip | None \<Rightarrow> first_answer N (Suc k) rest)"

lemma first_answer_Some:
  "first_answer N k L = Some ip \<longleftrightarrow>
     (\<exists>i < length L. stun_answer N (k + i) (L ! i) = Some ip \<and> (\<forall>j < i. stun_answer N (k + j) (L ! j) = None))"
proof (induction L arbitrary: k)
  case (Cons server rest)
  have "(\<exists>i < length (server # rest). stun_answer N (k + i) ((server # rest) ! i) = Some ip \<and>
        (\<forall>j < i. stun_answer N (k + j) ((server # rest) ! j) = None)) \<longleftrightarrow>
      stun_answer N k server = Some ip \<or> stun_answer N k server = None \<and>
        (\<exists>i < length rest. stun_answer N (Suc k + i) (rest ! i) = Some ip \<and>
           (\<forall>j < i. stun_answer N (Suc k + j) (rest ! j) = None))"
    by (simp add: Ex_less_Suc2 All_less_Suc2) blast
  then show ?case
    using Cons.IH [of "Suc k"] by (auto split: option.splits)
qed simp

lemma stun_loop_finds:
  assumes "\<And>i a. net_query N i a \<noteq> Panic"
  shows "case first_answer N k L of
     Some ip \<Rightarrow> fst (stun_loop N k L err p) = Ok ip
   | None \<Rightarrow> \<exists>e. fst (stun_loop N k L err p) = Err e \<and>
       (L = [] \<longrightarrow> e = (case err of Some e \<Rightarrow> e | None \<Rightarrow> ''no STUN servers configured''))"
proof (induction L arbitrary: k err p)
  case (Cons server rest)
  show ?case
  proof (cases "net_resolve N server")
    case None
    then show ?thesis
      using Cons.IH [of "Suc k" "Some (''cannot resolve '' @ server)" p]
      by (auto simp: stun_answer_def split: option.splits)
  next
    case (Some addr)
    show ?thesis
    proof (cases "net_query N k addr")
      case (Err e)
      with Some show ?thesis
        using Cons.IH [of "Suc k" "Some (server @ '' failed: '' @ e)" "Suc p"]
        by (auto simp: stun_answer_def split: option.splits)
    qed (use Some assms in \<open>simp_all add: stun_answer_def\<close>)
  qed
qed simp

lemma server_start_Ok:
  assumes "server_start N env config new_id pg rd = Ok s"
  shows "st_nodes s = []" "st_connections s = []" "st_tunnel_sessions s = []" "st_env s = config" "st_id s = new_id"
  using assms by (auto simp: server_start_def obind_Ok)

lemma serve_db: "\<exists>db. fst (serve X now random new_id READY rq s) = s\<lparr>st_db := db\<rparr>"
proof -
  have "\<exists>db. s = s\<lparr>st_db := db\<rparr>"
    by (rule exI [of _ "st_db s"]) simp
  then show ?thesis
    using http_frame(1) [of X random now "rq_node_id rq" s] http_frame(2) [of X now "rq_verify rq" s]
      http_frame(3) [of X now "rq_headers rq" s] http_frame(4) [of X now new_id "rq_headers rq" "rq_claim rq" s]
    by (auto simp: serve_def split: sum.splits endpoint.splits)
qed

section \<open>Properties\<close>

text \<open>
  The public address is that of the first configured server that resolves and answers; if none does,
  the server does not start, and an environment that sets the list to nothing but commas and blanks
  configures none.
\<close>

theorem public_address_first_answer:
  assumes "net_bind N" "net_set_read_timeout N" and "\<And>i a. net_query N i a \<noteq> Panic"
  shows "(fst (get_public_address N env) = Ok ip \<longleftrightarrow>
       (\<exists>i < length (servers_from_env env). stun_answer N i (servers_from_env env ! i) = Some ip \<and>
          (\<forall>j < i. stun_answer N j (servers_from_env env ! j) = None))) \<and>
     (servers_from_env env = [] \<longrightarrow> fst (get_public_address N env) = Err (StunFailed ''no STUN servers configured''))"
proof -
  let ?r = "stun_loop N 0 (servers_from_env env) None 0"
  have r: "fst (get_public_address N env) =
      (case fst ?r of Ok ip \<Rightarrow> Ok ip | Err e \<Rightarrow> Err (StunFailed e) | Panic \<Rightarrow> Panic)"
    using assms(1,2) by (cases ?r; cases "fst ?r") (simp_all add: get_public_address_def)
  show ?thesis
    using stun_loop_finds [OF assms(3), of 0 "servers_from_env env" None 0]
      first_answer_Some [of N 0 "servers_from_env env" ip]
    by (auto simp: r split: option.splits)
qed

text \<open>A network in which the second configured server answers.\<close>

definition example_net :: "nat net" where
  "example_net = \<lparr>net_bind = True, net_set_read_timeout = True,
     net_resolve = (\<lambda>server. if server = ''a'' then None else Some 0),
     net_query = (\<lambda>i addr. Ok ''1.2.3.4''), net_local_ip = Some ''10.0.0.1''\<rparr>"

lemma example_stun_servers: "servers_from_env [''STUN_SERVERS'' \<mapsto> ''a, b''] = [''a'', ''b'']"
  "servers_from_env [''STUN_SERVERS'' \<mapsto> '' , ''] = []"
  by (simp_all add: servers_from_env_def trim_def trim_matches_def trim_end_matches_def is_whitespace_def)

lemma example_public_address:
  "fst (get_public_address example_net [''STUN_SERVERS'' \<mapsto> ''a, b'']) = Ok ''1.2.3.4''"
  unfolding get_public_address_def example_stun_servers by (simp add: example_net_def)

theorem public_address_first_answer_witness:
  "stun_answer example_net 1 ''b'' = Some ''1.2.3.4'' \<and>
   fst (get_public_address example_net [''STUN_SERVERS'' \<mapsto> ''a, b'']) = Ok ''1.2.3.4'' \<and>
   fst (get_public_address example_net [''STUN_SERVERS'' \<mapsto> '' , '']) = Err (StunFailed ''no STUN servers configured'')"
proof -
  have N: "net_bind example_net" "net_set_read_timeout example_net" "\<And>i a. net_query example_net i a \<noteq> Panic"
    by (simp_all add: example_net_def)
  have "stun_answer example_net 1 ''b'' = Some ''1.2.3.4''" "stun_answer example_net 0 ''a'' = None"
    by (simp_all add: stun_answer_def example_net_def)
  then show ?thesis
    using public_address_first_answer [OF N, of "[''STUN_SERVERS'' \<mapsto> ''a, b'']" "''1.2.3.4''"]
      public_address_first_answer [OF N, of "[''STUN_SERVERS'' \<mapsto> '' , '']"]
    unfolding example_stun_servers by (auto intro!: exI [of _ 1])
qed

text \<open>
  A server that starts runs the broker: from the state \<open>start\<close> builds, whatever the tasks do,
  the registries stay well formed and the mailboxes and tunnels are those of a run of the broker.
\<close>

theorem started_server_runs_broker:
  assumes "server_start N env config new_id pg rd = Ok s"
    and "server_reachable X \<lparr>sy_state = s, sy_node_tasks = {}, sy_web_tasks = {}\<rparr> y"
  shows "system_inv y \<and> (broker_step X)\<^sup>*\<^sup>* empty_broker (broker_of (sy_state y))"
proof -
  let ?y = "\<lparr>sy_state = s, sy_node_tasks = {}, sy_web_tasks = {}\<rparr>"
  have inv: "broker_inv ?y"
    using server_start_Ok [OF assms(1)] by (intro broker_inv_start) simp_all
  have "broker_of s = empty_broker"
    using server_start_Ok [OF assms(1)] by (simp add: broker_of_def empty_broker_def dm_get_def fun_eq_iff)
  then show ?thesis
    using server.reachable_inv [OF assms(2) inv] server.reachable_sim [OF assms(2) inv]
    by (simp add: broker_inv_def)
qed

theorem started_server_runs_broker_witness:
  "\<exists>s s1. server_start example_net [''STUN_SERVERS'' \<mapsto> ''a, b''] example_env 42 (Some example_db)
        (Some \<lparr>rd_log = [], rd_fails = (\<lambda>_. False)\<rparr>) = Ok s \<and>
     s1 = fst (node_socket_open example_ext 10 (V4 1) example_auth s) \<and>
     (broker_step example_ext)\<^sup>*\<^sup>* empty_broker (broker_of s1) \<and> dm_get (st_nodes s1) 1 \<noteq> None"
proof -
  let ?m = "\<lparr>rd_log = [], rd_fails = (\<lambda>_. False)\<rparr> :: MemoryDB"
  obtain s where s: "server_start example_net [''STUN_SERVERS'' \<mapsto> ''a, b''] example_env 42 (Some example_db) (Some ?m) = Ok s"
    and db: "st_db s = example_db" "st_next_chan s = 0" "st_env s = example_env"
    by (simp add: server_start_def create_server_identifier_def example_public_address obind_def)
      (simp add: example_net_def)
  let ?s1 = "fst (node_socket_open example_ext 10 (V4 1) example_auth s)"
  let ?y0 = "\<lparr>sy_state = s, sy_node_tasks = {}, sy_web_tasks = {}\<rparr>"
  have op: "node_socket_open example_ext 10 (V4 1) example_auth (sy_state ?y0) = (?s1, Some (1, 0))"
    using example_open [of s 10 "V4 1"] db by simp
  have "server_reachable example_ext ?y0 \<lparr>sy_state = ?s1, sy_node_tasks = {(1, 0)}, sy_web_tasks = {}\<rparr>"
    using server_stepI [OF server_act.node_open [OF op]] by (intro r_into_rtranclp) simp
  from started_server_runs_broker [OF s this]
  have "(broker_step example_ext)\<^sup>*\<^sup>* empty_broker (broker_of ?s1)"
    by simp
  moreover have "node_txs ?s1 1 = Some 0"
    using node_open_txs(1) [OF op] by simp
  ultimately show ?thesis
    using s by (auto simp: node_txs_def)
qed

text \<open>
  A request changes nothing but the database, and one with a safe method nothing at all. The two
  listings are public: they ignore the headers of the request, so every caller learns the nodes and
  clients that are connected.
\<close>

theorem serve_effects:
  "(\<exists>db. fst (serve X now random new_id READY rq s) = s\<lparr>st_db := db\<rparr>) \<and>
   (rq_method rq \<in> {GET, HEAD} \<longrightarrow> fst (serve X now random new_id READY rq s) = s) \<and>
   (rq_method rq = GET \<and> rq_path rq = ''/api/nodes'' \<longrightarrow>
      serve X now random new_id READY rq s = (s, Nodes (list_nodes now s))) \<and>
   (rq_method rq = GET \<and> rq_path rq = ''/api/connections'' \<longrightarrow>
      serve X now random new_id READY rq s = (s, Connections (list_connections now s)))"
proof (intro conjI impI)
  show "\<exists>db. fst (serve X now random new_id READY rq s) = s\<lparr>st_db := db\<rparr>"
    by (rule serve_db)
  assume m: "rq_method rq \<in> {GET, HEAD}"
  have "e \<notin> {NodeClaim, AuthChallenge, AuthVerify, NodeHeartbeat}" if "route (rq_method rq) (rq_path rq) = Inr e" for e
    using m that by (auto simp: route_def routes_def split: if_splits)
  then show "fst (serve X now random new_id READY rq s) = s"
    by (auto simp: serve_def split: sum.splits endpoint.splits)
qed (simp_all add: serve_def route_def routes_def)

theorem serve_effects_witness:
  "serve example_ext 10 [] 3 True \<lparr>rq_method = GET, rq_path = ''/api/nodes'', rq_headers = (\<lambda>_. None),
       rq_claim = \<lparr>cn_public_key = [], cn_hostname = [], cn_metadata = []\<rparr>, rq_node_id = 1,
       rq_verify = \<lparr>vr_node_id = 1, vr_challenge = [], vr_signature = []\<rparr>\<rparr> example_state
     = (example_state, Nodes (list_nodes 10 example_state))"
  using serve_effects [of example_ext 10 "[]" 3 True "\<lparr>rq_method = GET, rq_path = ''/api/nodes'', rq_headers = (\<lambda>_. None),
       rq_claim = \<lparr>cn_public_key = [], cn_hostname = [], cn_metadata = []\<rparr>, rq_node_id = 1,
       rq_verify = \<lparr>vr_node_id = 1, vr_challenge = [], vr_signature = []\<rparr>\<rparr>" example_state]
  by simp

text \<open>The documentation lists two endpoints of the server that its router does not have.\<close>

theorem documented_endpoints_missing:
  "route GET ''/stats'' = Inl 404 \<and> route GET ''/version'' = Inl 404"
  by (simp add: route_def routes_def)

end
