(* ===== verification/Agent_Creds.thy ===== *)
theory Agent_Creds
  imports Agent_State
begin

text \<open>
  The identity of an agent (\<open>agent/src/creds.rs\<close>) and the commands around it
  (\<open>agent/src/agent.rs\<close>, \<open>agent/src/main.rs\<close>): login, logout, the exchange of a signed
  challenge for a session token, and the reconnect loop. The key and JSON libraries are the
  record \<open>creds_ext\<close>; the HTTP requests are function arguments.
\<close>

section \<open>The identity store\<close>

record StoredState =
  sst_node_id :: uuid
  sst_private_key :: string
  sst_public_key :: string
  sst_server_host :: string

definition StoredState_default :: StoredState where
  "StoredState_default =
     \<lparr>sst_node_id = uuid_nil, sst_private_key = '''', sst_public_key = '''', sst_server_host = ''''\<rparr>"

record creds_ext =
  cx_to_json :: "StoredState \<Rightarrow> string option"
  cx_from_json :: "string \<Rightarrow> StoredState option"
  cx_b64_encode :: "bytes \<Rightarrow> string"
  cx_b64_decode :: "string \<Rightarrow> bytes option"
  cx_str_bytes :: "string \<Rightarrow> bytes"
  cx_public_key :: "bytes \<Rightarrow> bytes"
  cx_sign :: "bytes \<Rightarrow> bytes \<Rightarrow> bytes"
  cx_username :: "string option"
  cx_project_dirs :: bool

text \<open>What a read of \<open>state.json\<close> finds, and the steps of \<open>atomic_write\<close> that can fail.\<close>

datatype state_file = Missing | Content string | Unreadable

datatype write_step = NewTemp | WriteAll | SyncAll | SetMode | Persist

datatype creds_error =
    NoProjectDirs | ServerMismatch string string | NilNodeId | KeyEncoding string | KeyLength string nat
  | ReadFailed | StateEncodeFailed | WriteFailed write_step

text \<open>
  The bytes go to a temporary file, which replaces the state file in the last step.
  \<open>fault\<close> is the step that fails, if any.
\<close>

definition atomic_write ::
  "write_step option \<Rightarrow> string \<Rightarrow> state_file \<Rightarrow> state_file \<times> (creds_error, unit) outcome" where
  "atomic_write fault bytes file =
     (case fault of Some step \<Rightarrow> (file, Err (WriteFailed step)) | None \<Rightarrow> (Content bytes, Ok ()))"

definition save_identity ::
  "creds_ext \<Rightarrow> string \<Rightarrow> write_step option \<Rightarrow> uuid \<Rightarrow> string \<Rightarrow> string \<Rightarrow> state_file
     \<Rightarrow> state_file \<times> (creds_error, unit) outcome" where
  "save_identity X service fault node_id private_key public_key file =
     (case cx_to_json X \<lparr>sst_node_id = node_id, sst_private_key = private_key,
                         sst_public_key = public_key, sst_server_host = service\<rparr> of
        None \<Rightarrow> (file, Err StateEncodeFailed)
      | Some bytes \<Rightarrow> atomic_write fault bytes file)"

definition load_state_from_file :: "creds_ext \<Rightarrow> state_file \<Rightarrow> (creds_error, StoredState option) outcome" where
  "load_state_from_file X file =
     (case file of
        Content bytes \<Rightarrow> Ok (cx_from_json X bytes)
      | Missing \<Rightarrow> Ok None
      | Unreadable \<Rightarrow> Err ReadFailed)"

definition validate_b64_len :: "creds_ext \<Rightarrow> string \<Rightarrow> nat \<Rightarrow> string \<Rightarrow> (creds_error, unit) outcome" where
  "validate_b64_len X value expected_len field =
     (case cx_b64_decode X value of
        None \<Rightarrow> Err (KeyEncoding field)
      | Some decoded \<Rightarrow>
          if length decoded \<noteq> expected_len then Err (KeyLength field (length decoded)) else Ok ())"

definition load_identity ::
  "creds_ext \<Rightarrow> string \<Rightarrow> state_file \<Rightarrow> (creds_error, StoredState) outcome" where
  "load_identity X service file =
     (case load_state_from_file X file of
        Err e \<Rightarrow> Err e | Panic \<Rightarrow> Panic
      | Ok st \<Rightarrow>
          (let state = (case st of Some x \<Rightarrow> x | None \<Rightarrow> StoredState_default) in
           if sst_server_host state \<noteq> '''' \<and> sst_server_host state \<noteq> service
           then Err (ServerMismatch (sst_server_host state) service)
           else if sst_node_id state = uuid_nil then Err NilNodeId
           else case validate_b64_len X (sst_private_key state) 32 ''private_key'' of
             Err e \<Rightarrow> Err e | Panic \<Rightarrow> Panic
           | Ok _ \<Rightarrow>
               (case validate_b64_len X (sst_public_key state) 32 ''public_key'' of
                  Err e \<Rightarrow> Err e | Panic \<Rightarrow> Panic
                | Ok _ \<Rightarrow> Ok state)))"

text \<open>\<open>delete_state_file\<close>: a missing file is success; \<open>removable\<close> is the verdict of the system.\<close>

definition delete_state_file :: "bool \<Rightarrow> state_file \<Rightarrow> state_file \<times> bool" where
  "delete_state_file removable file =
     (case file of Missing \<Rightarrow> (Missing, True) | _ \<Rightarrow> if removable then (Missing, True) else (file, False))"

section \<open>Endpoints\<close>

definition strip_scheme :: "string \<Rightarrow> string" where
  "strip_scheme host = (case split_once ''://'' host of Some (_, rest) \<Rightarrow> rest | None \<Rightarrow> host)"

definition generate_http_endpoint :: "string \<Rightarrow> u16 \<Rightarrow> string" where
  "generate_http_endpoint server_host server_port =
     (let host = strip_scheme server_host;
          scheme = (if server_port = 443 \<or> server_port = 8443 then ''https'' else ''http'')
      in if server_port = 80 \<or> server_port = 443 \<or> server_port = 8443
         then scheme @ ''://'' @ host
         else scheme @ ''://'' @ host @ '':'' @ dec_digits (unat server_port))"

section \<open>Login and logout\<close>

record LocalIdentity =
  li_private_key :: string
  li_public_key :: string

text \<open>\<open>SigningKey::generate\<close> draws 32 random bytes, an argument here.\<close>

definition generate_identity :: "creds_ext \<Rightarrow> bytes \<Rightarrow> LocalIdentity" where
  "generate_identity X random =
     \<lparr>li_private_key = cx_b64_encode X random, li_public_key = cx_b64_encode X (cx_public_key X random)\<rparr>"

definition local_hostname :: "string option \<Rightarrow> string" where
  "local_hostname hostname_var =
     (case hostname_var of
        Some v \<Rightarrow> if trim v \<noteq> [] then v else ''unknown-host''
      | None \<Rightarrow> ''unknown-host'')"

text \<open>The body of the claim request, and the request itself: URL, bearer token, body.\<close>

record claim_body =
  cb_public_key :: string
  cb_hostname :: string
  cb_agent_version :: string
  cb_user :: string

type_synonym post_claim = "string \<Rightarrow> string \<Rightarrow> claim_body \<Rightarrow> uuid option"

datatype login_error =
    NoUsername | StoreFailed creds_error | ClaimFailed | PersistFailed creds_error | NoTokenFile | TokenUnread
  | NoActiveLogin creds_error | DeleteFailed

definition bootstrap_identity ::
  "creds_ext \<Rightarrow> string \<Rightarrow> string option \<Rightarrow> bytes \<Rightarrow> post_claim \<Rightarrow> write_step option \<Rightarrow> string \<Rightarrow> u16 \<Rightarrow> string
     \<Rightarrow> state_file \<Rightarrow> state_file \<times> (login_error, unit) outcome" where
  "bootstrap_identity X version hostname_var random post fault server_host server_port pat file =
     (case cx_username X of
        None \<Rightarrow> (file, Err NoUsername)
      | Some username \<Rightarrow>
          if \<not> cx_project_dirs X then (file, Err (StoreFailed NoProjectDirs))
          else
            (let identity =
                   (case load_identity X server_host file of
                      Ok stored \<Rightarrow> \<lparr>li_private_key = sst_private_key stored, li_public_key = sst_public_key stored\<rparr>
                    | _ \<Rightarrow> generate_identity X random)
             in case post (generate_http_endpoint server_host server_port @ ''/api/nodes/claim'') pat
                       \<lparr>cb_public_key = li_public_key identity, cb_hostname = local_hostname hostname_var,
                        cb_agent_version = version, cb_user = username\<rparr> of
                  None \<Rightarrow> (file, Err ClaimFailed)
                | Some node_id \<Rightarrow>
                    (case save_identity X server_host fault node_id (li_private_key identity)
                            (li_public_key identity) file of
                       (file', Ok _) \<Rightarrow> (file', Ok ())
                     | (file', Err e) \<Rightarrow> (file', Err (PersistFailed e))
                     | (file', Panic) \<Rightarrow> (file', Panic))))"

text \<open>Where the access token comes from; \<open>None\<close> is a failed read. The prompt is not trimmed.\<close>

datatype pat_source = FromFile bool "string option" | FromStdin "string option" | FromPrompt "string option"

definition read_pat :: "pat_source \<Rightarrow> (login_error, string) outcome" where
  "read_pat src =
     (case src of
        FromFile exists content \<Rightarrow>
          if \<not> exists then Err NoTokenFile
          else (case content of None \<Rightarrow> Err TokenUnread | Some t \<Rightarrow> Ok (trim t))
      | FromStdin content \<Rightarrow> (case content of None \<Rightarrow> Err TokenUnread | Some t \<Rightarrow> Ok (trim t))
      | FromPrompt content \<Rightarrow> (case content of None \<Rightarrow> Err TokenUnread | Some t \<Rightarrow> Ok t))"

definition login ::
  "creds_ext \<Rightarrow> string \<Rightarrow> string option \<Rightarrow> bytes \<Rightarrow> post_claim \<Rightarrow> write_step option \<Rightarrow> string \<Rightarrow> u16 \<Rightarrow> pat_source
     \<Rightarrow> state_file \<Rightarrow> state_file \<times> (login_error, unit) outcome" where
  "login X version hostname_var random post fault server_host server_port src file =
     (case read_pat src of
        Err e \<Rightarrow> (file, Err e) | Panic \<Rightarrow> (file, Panic)
      | Ok pat \<Rightarrow>
          bootstrap_identity X version hostname_var random post fault (strip_scheme server_host) server_port pat file)"

definition save_token ::
  "creds_ext \<Rightarrow> string \<Rightarrow> string option \<Rightarrow> bytes \<Rightarrow> post_claim \<Rightarrow> write_step option \<Rightarrow> string \<Rightarrow> u16 \<Rightarrow> string
     \<Rightarrow> state_file \<Rightarrow> state_file \<times> (login_error, unit) outcome" where
  "save_token X version hostname_var random post fault server_host server_port token file =
     bootstrap_identity X version hostname_var random post fault (strip_scheme server_host) server_port (trim token) file"

definition load_creds_for_server :: "creds_ext \<Rightarrow> string \<Rightarrow> state_file \<Rightarrow> (string \<times> StoredState) option" where
  "load_creds_for_server X server_host file =
     (if \<not> cx_project_dirs X then None
      else case load_identity X server_host file of Ok state \<Rightarrow> Some (server_host, state) | _ \<Rightarrow> None)"

text \<open>Logout uses the host as given.\<close>

definition logout ::
  "creds_ext \<Rightarrow> string \<Rightarrow> bool \<Rightarrow> state_file \<Rightarrow> state_file \<times> (login_error, unit) outcome" where
  "logout X server_host removable file =
     (if \<not> cx_project_dirs X then (file, Err (StoreFailed NoProjectDirs))
      else case load_identity X server_host file of
        Err e \<Rightarrow> (file, Err (NoActiveLogin e)) | Panic \<Rightarrow> (file, Panic)
      | Ok _ \<Rightarrow>
          (case delete_state_file removable file of
             (file', True) \<Rightarrow> (file', Ok ())
           | (file', False) \<Rightarrow> (file', Err DeleteFailed)))"

section \<open>Session tokens\<close>

text \<open>The two requests of the exchange, on the state \<open>'s\<close> of whatever answers them.\<close>

type_synonym 's post_challenge = "string \<Rightarrow> uuid \<Rightarrow> 's \<Rightarrow> 's \<times> string option"
type_synonym 's post_verify = "string \<Rightarrow> uuid \<Rightarrow> string \<Rightarrow> string \<Rightarrow> 's \<Rightarrow> 's \<times> string option"

datatype fetch_error = ChallengeFailed | BadPrivateKey | BadPrivateKeyLength | VerifyRefused

definition fetch_session_jwt ::
  "creds_ext \<Rightarrow> 's post_challenge \<Rightarrow> 's post_verify \<Rightarrow> agent_env \<Rightarrow> StoredState \<Rightarrow> 's
     \<Rightarrow> 's \<times> (fetch_error, string) outcome" where
  "fetch_session_jwt X post_ch post_vf env state s =
     (let base_url = generate_http_endpoint (ae_server_host env) (ae_server_port env)
      in case post_ch (base_url @ ''/api/nodes/auth/challenge'') (sst_node_id state) s of
           (s1, None) \<Rightarrow> (s1, Err ChallengeFailed)
         | (s1, Some challenge) \<Rightarrow>
             (case cx_b64_decode X (sst_private_key state) of
                None \<Rightarrow> (s1, Err BadPrivateKey)
              | Some key \<Rightarrow>
                  if length key \<noteq> 32 then (s1, Err BadPrivateKeyLength)
                  else
                    (let signature = cx_b64_encode X (cx_sign X key (cx_str_bytes X challenge))
                     in case post_vf (base_url @ ''/api/nodes/auth/verify'') (sst_node_id state) challenge signature s1 of
                          (s2, None) \<Rightarrow> (s2, Err VerifyRefused)
                        | (s2, Some token) \<Rightarrow> (s2, Ok token))))"

text \<open>
  \<open>parse_json_response\<close>: the status with its text, the body and the decoders of the
  caller's type and of the field \<open>error\<close>.
\<close>

definition parse_json_response ::
  "(string \<Rightarrow> (string, 't) outcome) \<Rightarrow> (string \<Rightarrow> string option) \<Rightarrow> nat \<Rightarrow> string \<Rightarrow> string option
     \<Rightarrow> (string, 't) outcome" where
  "parse_json_response decode error_field status status_text body =
     (let body_text = (case body of Some t \<Rightarrow> t | None \<Rightarrow> '''')
      in if \<not> (200 \<le> status \<and> status < 300)
         then Err (''request failed ('' @ status_text @ ''): ''
                   @ (case error_field body_text of Some e \<Rightarrow> e | None \<Rightarrow> ''request failed''))
         else case decode body_text of
           Ok t \<Rightarrow> Ok t
         | Err err \<Rightarrow> Err (''failed to decode response json: '' @ err)
         | Panic \<Rightarrow> Panic)"

section \<open>The reconnect loop\<close>

definition next_attempt :: "u32 \<Rightarrow> u32" where
  "next_attempt attempt = (if attempt = - 1 then attempt else attempt + 1)"

definition backoff_secs :: "u32 \<Rightarrow> nat" where
  "backoff_secs attempt = 2 ^ min (unat attempt) 4"

text \<open>The pauses of the loop: one after every round, however the round ended.\<close>

fun backoff_delays :: "u32 \<Rightarrow> nat \<Rightarrow> nat list" where
  "backoff_delays attempt 0 = []"
| "backoff_delays attempt (Suc n) =
     (let a = next_attempt attempt in backoff_secs a # backoff_delays a n)"

section \<open>The start command\<close>

record start_args =
  sa_token_from_file :: "string option option"  \<comment> \<open>the content of the file, \<open>Some None\<close> if unreadable\<close>
  sa_server_host :: "string option"
  sa_server_port :: "u16 option"

text \<open>
  \<open>main\<close> on \<open>start\<close>: the token is saved for the host of the arguments; then the agent
  starts on the configuration of the environment. The result is the identity the reconnect
  loop finds.
\<close>

definition start_command ::
  "creds_ext \<Rightarrow> string option \<Rightarrow> bytes \<Rightarrow> post_claim \<Rightarrow> write_step option \<Rightarrow> agent_env \<Rightarrow> start_args \<Rightarrow> state_file
     \<Rightarrow> state_file \<times> (login_error, (string \<times> StoredState) option) outcome" where
  "start_command X hostname_var random post fault env args file =
     (let serve = (\<lambda>file. (file, Ok (load_creds_for_server X (strip_scheme (ae_server_host env)) file)))
      in case sa_token_from_file args of
           None \<Rightarrow> serve file
         | Some None \<Rightarrow> (file, Err TokenUnread)
         | Some (Some token) \<Rightarrow>
             (case save_token X (ae_version env) hostname_var random post fault
                     (case sa_server_host args of Some h \<Rightarrow> h | None \<Rightarrow> ae_server_host env)
                     (case sa_server_port args of Some p \<Rightarrow> p | None \<Rightarrow> ae_server_port env) token file of
                (file', Ok _) \<Rightarrow> serve file'
              | (file', Err e) \<Rightarrow> (file', Err e)
              | (file', Panic) \<Rightarrow> (file', Panic)))"

section \<open>What the store relies on\<close>

text \<open>Documented behaviour of \<open>serde_json\<close>, base64 and Ed25519 keys.\<close>

definition creds_laws :: "creds_ext \<Rightarrow> bool" where
  "creds_laws X \<longleftrightarrow>
     (\<forall>st b. cx_to_json X st = Some b \<longrightarrow> cx_from_json X b = Some st) \<and>
     (\<forall>bs. cx_b64_decode X (cx_b64_encode X bs) = Some bs) \<and>
     (\<forall>k. length k = 32 \<longrightarrow> length (cx_public_key X k) = 32)"

definition valid_key :: "creds_ext \<Rightarrow> string \<Rightarrow> bool" where
  "valid_key X k \<longleftrightarrow> (\<exists>bs. cx_b64_decode X k = Some bs \<and> length bs = 32)"

section \<open>Lemmas\<close>

lemma validate_b64_len_Ok: "validate_b64_len X v 32 f = Ok () \<longleftrightarrow> valid_key X v"
  by (auto simp: validate_b64_len_def valid_key_def split: option.splits)

lemma validate_b64_len_no_panic [simp]: "validate_b64_len X v n f \<noteq> Panic"
  by (simp add: validate_b64_len_def split: option.splits)

lemma load_identity_Ok:
  "load_identity X service file = Ok state \<longleftrightarrow>
     (\<exists>bytes. file = Content bytes \<and> cx_from_json X bytes = Some state) \<and>
     (sst_server_host state = '''' \<or> sst_server_host state = service) \<and> sst_node_id state \<noteq> uuid_nil \<and>
     valid_key X (sst_private_key state) \<and> valid_key X (sst_public_key state)"
  using validate_b64_len_Ok [of X "sst_private_key state" "''private_key''"]
    validate_b64_len_Ok [of X "sst_public_key state" "''public_key''"]
  by (auto simp: load_identity_def load_state_from_file_def Let_def StoredState_default_def
      split: state_file.splits option.splits outcome.splits if_splits)

lemma save_identity_Ok:
  assumes "save_identity X service fault nid priv pub file = (file', Ok ())" "creds_laws X"
  shows "\<exists>bytes. file' = Content bytes \<and> cx_from_json X bytes = Some
    \<lparr>sst_node_id = nid, sst_private_key = priv, sst_public_key = pub, sst_server_host = service\<rparr>"
  using assms
  by (auto simp: save_identity_def atomic_write_def creds_laws_def split: option.splits)

lemma generated_keys_valid:
  assumes "creds_laws X" "length random = 32"
  shows "valid_key X (li_private_key (generate_identity X random))"
    "valid_key X (li_public_key (generate_identity X random))"
  using assms by (auto simp: creds_laws_def valid_key_def generate_identity_def)

text \<open>After a bootstrap the file holds an identity bound to that host.\<close>

lemma bootstrap_identity_Ok:
  assumes "bootstrap_identity X v hn random post fault host port pat file = (file', Ok ())"
    "creds_laws X" "length random = 32" "\<And>u p b. post u p b \<noteq> Some uuid_nil"
  shows "cx_project_dirs X"
    and "\<exists>state. load_identity X host file' = Ok state \<and> sst_server_host state = host"
    and "host \<noteq> '''' \<Longrightarrow> other \<noteq> host \<Longrightarrow> load_identity X other file' = Err (ServerMismatch host other)"
proof -
  define identity where "identity = (case load_identity X host file of
      Ok stored \<Rightarrow> \<lparr>li_private_key = sst_private_key stored, li_public_key = sst_public_key stored\<rparr>
    | _ \<Rightarrow> generate_identity X random)"
  obtain username where user: "cx_username X = Some username" and dirs: "cx_project_dirs X"
    using assms(1) by (auto simp: bootstrap_identity_def split: option.splits if_splits)
  obtain url body nid where nid: "post url pat body = Some nid"
    and save: "save_identity X host fault nid (li_private_key identity) (li_public_key identity) file = (file', Ok ())"
    using assms(1) user dirs unfolding bootstrap_identity_def Let_def identity_def [symmetric]
    by (auto split: option.splits prod.splits outcome.splits)
  have nid: "nid \<noteq> uuid_nil"
    using nid assms(4) by metis
  let ?st = "\<lparr>sst_node_id = nid, sst_private_key = li_private_key identity,
      sst_public_key = li_public_key identity, sst_server_host = host\<rparr>"
  obtain bytes where file': "file' = Content bytes" "cx_from_json X bytes = Some ?st"
    using save_identity_Ok [OF save assms(2)] by auto
  have keys: "valid_key X (li_private_key identity)" "valid_key X (li_public_key identity)"
    using generated_keys_valid [OF assms(2,3)]
    by (auto simp: identity_def load_identity_Ok split: outcome.splits)
  show "cx_project_dirs X"
    by (rule dirs)
  show "\<exists>state. load_identity X host file' = Ok state \<and> sst_server_host state = host"
    using file' keys nid by (intro exI [of _ ?st]) (auto simp: load_identity_Ok)
  show "load_identity X other file' = Err (ServerMismatch host other)" if "host \<noteq> ''''" "other \<noteq> host"
    using file' that by (simp add: load_identity_def load_state_from_file_def)
qed

section \<open>Properties\<close>

text \<open>
  Whatever step of writing the identity fails, the state file holds either its old
  content or the complete new identity; after a successful save the same identity is loaded
  for that server, and for any other server it is refused.
\<close>

theorem identity_saved_atomically:
  assumes "creds_laws X" "nid \<noteq> uuid_nil" "valid_key X priv" "valid_key X pub" "service \<noteq> ''''" "other \<noteq> service"
  shows "let (file', r) = save_identity X service fault nid priv pub file in
    (if r = Ok () then
       load_identity X service file' = Ok \<lparr>sst_node_id = nid, sst_private_key = priv,
         sst_public_key = pub, sst_server_host = service\<rparr> \<and>
       load_identity X other file' = Err (ServerMismatch service other)
     else file' = file)"
proof (cases "snd (save_identity X service fault nid priv pub file) = Ok ()")
  case True
  then obtain file' where save: "save_identity X service fault nid priv pub file = (file', Ok ())"
    by (metis prod.collapse)
  then show ?thesis
    using save_identity_Ok [OF save assms(1)] assms
    by (auto simp: load_identity_Ok load_identity_def [of X other] load_state_from_file_def)
next
  case False
  then show ?thesis
    by (auto simp: save_identity_def atomic_write_def split: option.splits)
qed

text \<open>
  After a successful login the agent finds its identity, and logging out with the same
  host argument succeeds exactly if the argument carries no scheme: login removes it, logout
  does not.
\<close>

theorem logout_after_login:
  assumes "login X v hn random post fault host port src file = (file', Ok ())"
    and "creds_laws X" "length random = 32" "\<And>u p b. post u p b \<noteq> Some uuid_nil" "strip_scheme host \<noteq> ''''"
  shows "load_creds_for_server X (strip_scheme host) file' \<noteq> None \<and>
    (snd (logout X host True file') = Ok () \<longleftrightarrow> strip_scheme host = host)"
proof -
  obtain pat where b: "bootstrap_identity X v hn random post fault (strip_scheme host) port pat file = (file', Ok ())"
    using assms(1) by (auto simp: login_def split: outcome.splits)
  note b = bootstrap_identity_Ok [OF b assms(2-4)]
  show ?thesis
  proof (cases "strip_scheme host = host")
    case True
    then show ?thesis
      using b(1,2) by (auto simp: load_creds_for_server_def logout_def delete_state_file_def split: state_file.splits)
  next
    case False
    then show ?thesis
      using b(1,2) b(3) [OF assms(5), of host] by (auto simp: load_creds_for_server_def logout_def)
  qed
qed

definition example_creds :: creds_ext where
  "example_creds = \<lparr>cx_to_json = (\<lambda>st. if st = \<lparr>sst_node_id = 1, sst_private_key = replicate 32 CHR ''k'',
         sst_public_key = replicate 32 CHR ''k'', sst_server_host = ''h''\<rparr> then Some ''{}'' else None),
     cx_from_json = (\<lambda>t. if t = ''{}'' then Some \<lparr>sst_node_id = 1, sst_private_key = replicate 32 CHR ''k'',
         sst_public_key = replicate 32 CHR ''k'', sst_server_host = ''h''\<rparr> else None),
     cx_b64_encode = (\<lambda>bs. map (\<lambda>b. char_of (unat b)) bs),
     cx_b64_decode = (\<lambda>t. Some (map (\<lambda>c. word_of_nat (of_char c)) t)),
     cx_str_bytes = (\<lambda>t. map (\<lambda>c. word_of_nat (of_char c)) t), cx_public_key = (\<lambda>k. k), cx_sign = (\<lambda>k m. m),
     cx_username = Some ''root'', cx_project_dirs = True\<rparr>"

lemma byte_char: "word_of_nat (unat (b :: u8) mod 256) = b"
  using unsigned_less [of b, where ?'a = nat] by simp

lemma char_k: "char_of (107 :: nat) = CHR ''k''"
  by code_simp

lemma example_creds_laws: "creds_laws example_creds"
  by (auto simp: creds_laws_def example_creds_def comp_def byte_char split: if_splits)

lemma example_key_valid: "valid_key example_creds (replicate 32 CHR ''k'')"
  by (simp add: valid_key_def example_creds_def)

theorem identity_saved_atomically_witness:
  "load_identity example_creds ''h'' (fst (save_identity example_creds ''h'' None 1 (replicate 32 CHR ''k'')
     (replicate 32 CHR ''k'') Missing)) = Ok \<lparr>sst_node_id = 1, sst_private_key = replicate 32 CHR ''k'',
         sst_public_key = replicate 32 CHR ''k'', sst_server_host = ''h''\<rparr>"
proof -
  have "save_identity example_creds ''h'' None 1 (replicate 32 CHR ''k'') (replicate 32 CHR ''k'') Missing
      = (Content ''{}'', Ok ())"
    by (simp add: save_identity_def example_creds_def atomic_write_def)
  then show ?thesis
    using identity_saved_atomically [OF example_creds_laws _ example_key_valid example_key_valid,
        of 1 "''h''" "''g''" None Missing] by simp
qed

lemma strip_scheme_example: "strip_scheme ''https://h'' = ''h''" "strip_scheme ''h'' = ''h''"
  by (simp_all add: strip_scheme_def starts_with_def strip_prefix_def)

theorem logout_after_login_witness:
  "let file' = fst (login example_creds ''1'' None (replicate 32 107) (\<lambda>_ _ _. Some 1) None ''https://h'' 443
        (FromStdin (Some ''t'')) Missing)
   in load_creds_for_server example_creds ''h'' file' \<noteq> None \<and>
      snd (logout example_creds ''https://h'' True file') \<noteq> Ok ()"
proof -
  let ?login = "login example_creds ''1'' None (replicate 32 107) (\<lambda>_ _ _. Some 1) None ''https://h'' 443
      (FromStdin (Some ''t'')) Missing"
  have "load_identity example_creds ''h'' Missing = Err NilNodeId"
    by (simp add: load_identity_def load_state_from_file_def StoredState_default_def)
  then have "?login = (Content ''{}'', Ok ())"
    by (simp add: login_def read_pat_def bootstrap_identity_def strip_scheme_example generate_identity_def
        save_identity_def example_creds_def atomic_write_def Let_def char_k)
  then show ?thesis
    using logout_after_login [of example_creds "''1''" None "replicate 32 107" "\<lambda>_ _ _. Some 1" None "''https://h''"
        443 "FromStdin (Some ''t'')" Missing "Content ''{}''"] example_creds_laws
    by (simp add: strip_scheme_example)
qed

text \<open>
  \<open>start --server-host\<close> registers the node at the host of the argument, but the agent
  then looks for the identity of the host of its environment: unless the two agree up to
  their scheme, it finds none.
\<close>

theorem start_ignores_host_argument:
  assumes "sa_token_from_file args = Some (Some token)" "sa_server_host args = Some host"
    and "start_command X hn random post fault env args file = (file', Ok found)"
    and "creds_laws X" "length random = 32" "\<And>u p b. post u p b \<noteq> Some uuid_nil" "strip_scheme host \<noteq> ''''"
  shows "found \<noteq> None \<longleftrightarrow> strip_scheme (ae_server_host env) = strip_scheme host"
proof -
  obtain port where b: "bootstrap_identity X (ae_version env) hn random post fault (strip_scheme host) port
      (trim token) file = (file', Ok ())"
    and found: "found = load_creds_for_server X (strip_scheme (ae_server_host env)) file'"
    using assms(1-3) by (auto simp: start_command_def save_token_def Let_def split: prod.splits outcome.splits)
  note b = bootstrap_identity_Ok [OF b assms(4-6)]
  show ?thesis
    using b(1,2) b(3) [OF assms(7), of "strip_scheme (ae_server_host env)"]
    by (cases "strip_scheme (ae_server_host env) = strip_scheme host") (auto simp: found load_creds_for_server_def)
qed

definition other_host_env :: agent_env where
  "other_host_env = \<lparr>ae_mode = Production, ae_host = ''0.0.0.0'', ae_port = 8081,
     ae_stats_refresh_interval = 30, ae_server_host = ''g'', ae_server_port = 443,
     ae_ssh_host = ''localhost'', ae_ssh_port = 22, ae_ssh_auth_mode = PasswordAuth,
     ae_ssh_inactivity_secs = 0, ae_version = ''1.0''\<rparr>"

theorem start_ignores_host_argument_witness:
  "snd (start_command example_creds None (replicate 32 107) (\<lambda>_ _ _. Some 1) None other_host_env
     \<lparr>sa_token_from_file = Some (Some ''t''), sa_server_host = Some ''h'', sa_server_port = None\<rparr> Missing) = Ok None"
proof -
  let ?args = "\<lparr>sa_token_from_file = Some (Some ''t''), sa_server_host = Some ''h'', sa_server_port = None\<rparr>"
  have "load_identity example_creds ''h'' Missing = Err NilNodeId"
    by (simp add: load_identity_def load_state_from_file_def StoredState_default_def)
  then have run: "start_command example_creds None (replicate 32 107) (\<lambda>_ _ _. Some 1) None other_host_env ?args Missing
      = (Content ''{}'', Ok (load_creds_for_server example_creds (strip_scheme ''g'') (Content ''{}'')))"
    by (simp add: start_command_def save_token_def bootstrap_identity_def strip_scheme_example generate_identity_def
        save_identity_def example_creds_def atomic_write_def Let_def char_k other_host_env_def)
  have "strip_scheme (ae_server_host other_host_env) \<noteq> strip_scheme ''h''"
    by (simp add: other_host_env_def strip_scheme_def starts_with_def strip_prefix_def)
  then show ?thesis
    using start_ignores_host_argument [OF _ _ run example_creds_laws, of "''t''" "''h''"] run
    by (simp add: strip_scheme_example del: not_None_eq)
qed

text \<open>
  The HTTP address the agent logs in at keeps the host whatever its scheme was, and
  names the port except for 80 and 443, with one exception: for port 8443 the port is left
  out too, so the request goes to the default port 443.
\<close>

theorem http_endpoint_port:
  "generate_http_endpoint host port =
     (if port = 443 \<or> port = 8443 then ''https://'' @ strip_scheme host
      else if port = 80 then ''http://'' @ strip_scheme host
      else ''http://'' @ strip_scheme host @ '':'' @ dec_digits (unat port)) \<and>
   generate_http_endpoint host 8443 = generate_http_endpoint host 443"
  by (auto simp: generate_http_endpoint_def Let_def)

lemma unat_next_attempt: "unat (next_attempt a) = min (unat a + 1) (2 ^ 32 - 1)"
proof (cases "a = - 1")
  case True
  then show ?thesis
    by (simp add: next_attempt_def unsigned_minus_1_eq_mask mask_eq_exp_minus_1)
next
  case False
  then have "unat a \<noteq> unat (- 1 :: u32)"
    by (simp add: word_unat_eq_iff)
  moreover have "unat a < 2 ^ 32"
    using unsigned_less [of a, where ?'a = nat] by simp
  ultimately have "unat a + 1 < 2 ^ 32"
    by (simp add: unsigned_minus_1_eq_mask mask_eq_exp_minus_1)
  then show ?thesis
    using False by (simp add: next_attempt_def unat_word_ariths)
qed

text \<open>
  The pauses of the reconnect loop are 2, 4, 8, 16, 16, ... seconds, and stay at 16
  even after a connection that lasted: the counter saturates and is never reset.
\<close>

theorem backoff_schedule:
  "i < n \<Longrightarrow> backoff_delays attempt n ! i = 2 ^ min (unat attempt + i + 1) 4"
proof (induction n arbitrary: attempt i)
  case (Suc n)
  have a: "unat (next_attempt attempt) = min (unat attempt + 1) (2 ^ 32 - 1)"
    by (rule unat_next_attempt)
  show ?case
  proof (cases i)
    case 0
    then show ?thesis
      by (simp add: Let_def backoff_secs_def a)
  next
    case (Suc j)
    then have "backoff_delays attempt (Suc n) ! i = 2 ^ min (unat (next_attempt attempt) + j + 1) 4"
      using Suc.prems Suc.IH [of j "next_attempt attempt"] by (simp add: Let_def)
    also have "min (unat (next_attempt attempt) + j + 1) 4 = min (unat attempt + i + 1) 4"
      using Suc by (simp add: a min_def)
    finally show ?thesis .
  qed
qed simp

theorem backoff_schedule_witness: "backoff_delays 0 6 ! 5 = 16"
  using backoff_schedule [of 5 6 0] by simp

end
