(* ===== verification/Host_Stats.thy ===== *)
theory Host_Stats
  imports Protocol
begin

text \<open>
  The statistics a process reports (\<open>common/src/stats.rs\<close>): the process-wide caches, the snapshot
  of the host, its refresh and its reading, and the rendering of durations. What the
  operating system answers is the record \<open>host_os\<close>, an argument of every call; the statics of the
  file are the record \<open>stats_statics\<close>. A mutex is never poisoned, since a panic aborts the process.
\<close>

section \<open>The operating system and the statics\<close>

record host_os =
  os_pid :: "u32 option"
  os_process :: "(f32 \<times> u64 \<times> u64) option"  \<comment> \<open>cpu, memory, run time of this process\<close>
  os_thread_count :: "u64 option"
  os_env_hostname :: "string option"
  os_host_name :: "string option"
  os_if_addrs :: "(bool \<times> string) list option"  \<comment> \<open>is loopback, address\<close>
  os_info_text :: string
  os_getloadavg :: "int \<times> f64 \<times> f64 \<times> f64"
  os_sockets :: "u64 option"
  os_running :: u64
  os_mac_address :: "(unit, string option) outcome"
  os_cpu :: f32
  os_mem_used :: u64
  os_mem_total :: u64
  os_uptime :: u64

record ConnectionCache =
  cc_last_refresh :: instant
  cc_value :: u64

record ProcessCountCache =
  pc_last_refresh :: instant
  pc_total :: u64

record StatsCache =
  sc_stats :: "Stats option"
  sc_last_refresh :: instant
  sc_refresh_start :: instant

record stats_statics =
  ss_host_ip :: "string option"
  ss_host_mac :: "string option"
  ss_host_name :: "string option"
  ss_host_os_info :: "string option"
  ss_connections_cache :: "ConnectionCache option"
  ss_process_count_cache :: "ProcessCountCache option"
  ss_stats_cache :: "StatsCache option"

definition SOCKETS_CACHE_TTL :: int where
  "SOCKETS_CACHE_TTL = 30 * nanos_per_sec"

definition PROCESS_COUNT_TTL :: int where
  "PROCESS_COUNT_TTL = 60 * nanos_per_sec"

text \<open>\<open>OnceLock::get_or_init\<close> and \<open>Instant::elapsed\<close>, which saturates at zero.\<close>

definition get_or_init :: "'a option \<Rightarrow> 'a \<Rightarrow> 'a" where
  "get_or_init lock v = (case lock of Some w \<Rightarrow> w | None \<Rightarrow> v)"

definition elapsed :: "instant \<Rightarrow> instant \<Rightarrow> int" where
  "elapsed now t = max 0 (now - t)"

section \<open>Gathering\<close>

fun first_external :: "(bool \<times> string) list \<Rightarrow> string" where
  "first_external [] = ''unknown''"
| "first_external ((loopback, addr) # rest) = (if loopback then first_external rest else addr)"

definition resolve_host_ip :: "host_os \<Rightarrow> string" where
  "resolve_host_ip os =
     (case os_if_addrs os of Some interfaces \<Rightarrow> first_external interfaces | None \<Rightarrow> ''unknown'')"

definition mac :: "host_os \<Rightarrow> stats_statics \<Rightarrow> stats_statics \<times> string" where
  "mac os g =
     (let v = get_or_init (ss_host_mac g)
                (case os_mac_address os of Ok (Some addr) \<Rightarrow> addr | _ \<Rightarrow> ''unknown'')
      in (g\<lparr>ss_host_mac := Some v\<rparr>, v))"

definition resolve_hostname :: "host_os \<Rightarrow> string" where
  "resolve_hostname os =
     (case os_env_hostname os of
        Some h \<Rightarrow> h
      | None \<Rightarrow> (case os_host_name os of Some h \<Rightarrow> h | None \<Rightarrow> ''unknown''))"

definition loadavg :: "host_os \<Rightarrow> f64 \<times> f64 \<times> f64" where
  "loadavg os = (case os_getloadavg os of (n, a, b, c) \<Rightarrow> if n = 3 then (a, b, c) else (0, 0, 0))"

text \<open>
  The two counters: a fresh cache starts out expired, and the time of a refresh is read after
  the scan. \<open>now\<close> is the clock before it, \<open>now'\<close> the one after.
\<close>

definition connections ::
  "instant \<Rightarrow> instant \<Rightarrow> host_os \<Rightarrow> stats_statics \<Rightarrow> stats_statics \<times> u64 option" where
  "connections now now' os g =
     (let cache = get_or_init (ss_connections_cache g)
                    \<lparr>cc_last_refresh = now - SOCKETS_CACHE_TTL, cc_value = 0\<rparr>;
          g1 = g\<lparr>ss_connections_cache := Some cache\<rparr>
      in if elapsed now (cc_last_refresh cache) < SOCKETS_CACHE_TTL then (g1, Some (cc_value cache))
         else case os_sockets os of
           None \<Rightarrow> (g1, None)
         | Some sockets \<Rightarrow>
             (g1\<lparr>ss_connections_cache := Some \<lparr>cc_last_refresh = now', cc_value = sockets\<rparr>\<rparr>, Some sockets))"

definition process_count ::
  "instant \<Rightarrow> instant \<Rightarrow> host_os \<Rightarrow> stats_statics \<Rightarrow> stats_statics \<times> u64" where
  "process_count now now' os g =
     (let cache = get_or_init (ss_process_count_cache g)
                    \<lparr>pc_last_refresh = now - PROCESS_COUNT_TTL, pc_total = 0\<rparr>;
          g1 = g\<lparr>ss_process_count_cache := Some cache\<rparr>
      in if elapsed now (pc_last_refresh cache) < PROCESS_COUNT_TTL then (g1, pc_total cache)
         else (g1\<lparr>ss_process_count_cache := Some \<lparr>pc_last_refresh = now', pc_total = os_running os\<rparr>\<rparr>,
               os_running os))"

definition gather :: "instant \<Rightarrow> instant \<Rightarrow> host_os \<Rightarrow> stats_statics \<Rightarrow> stats_statics \<times> Stats option" where
  "gather now now' os g =
     (case os_pid os of
        None \<Rightarrow> (g, None)
      | Some pid \<Rightarrow>
          (case os_process os of
             None \<Rightarrow> (g, None)
           | Some (cpu, mem, uptime) \<Rightarrow>
               (let threads = (case os_thread_count os of Some n \<Rightarrow> n | None \<Rightarrow> 0);
                    hostname = get_or_init (ss_host_name g) (resolve_hostname os);
                    ip = get_or_init (ss_host_ip g) (resolve_host_ip os);
                    os_text = get_or_init (ss_host_os_info g) (os_info_text os);
                    g1 = g\<lparr>ss_host_name := Some hostname, ss_host_ip := Some ip, ss_host_os_info := Some os_text\<rparr>;
                    (g2, conns) = connections now now' os g1;
                    (g3, host_mac) = mac os g2;
                    (g4, procs) = process_count now now' os g3
                in (g4, Some
                     \<lparr>last_refreshed_secs = 0, proc_id = dec_digits (unat pid), proc_threads = threads,
                      proc_cpu = cpu, proc_mem_bytes = mem, proc_uptime_secs = uptime,
                      host_name = hostname, host_ip = ip, host_mac = host_mac, host_cpu = os_cpu os,
                      host_mem_used_bytes = os_mem_used os, host_mem_total_bytes = os_mem_total os,
                      host_uptime_secs = os_uptime os, host_load_average = loadavg os,
                      host_os_info = os_text,
                      host_connections = (case conns of Some n \<Rightarrow> n | None \<Rightarrow> 0),
                      host_processes = procs\<rparr>))))"

section \<open>Refreshing and reading\<close>

text \<open>\<open>Stats::refresh\<close>: \<open>start\<close>, \<open>now\<close>, \<open>now'\<close> and \<open>finished\<close> are successive readings of the clock.\<close>

definition Stats_refresh ::
  "instant \<Rightarrow> instant \<Rightarrow> instant \<Rightarrow> instant \<Rightarrow> host_os \<Rightarrow> stats_statics \<Rightarrow> stats_statics \<times> Stats option" where
  "Stats_refresh start now now' finished os g =
     (case gather now now' os g of
        (g1, None) \<Rightarrow> (g1, None)
      | (g1, Some stats) \<Rightarrow>
          (let stats' = stats\<lparr>last_refreshed_secs := 0\<rparr>
           in (g1\<lparr>ss_stats_cache :=
                    Some \<lparr>sc_stats = Some stats', sc_last_refresh = finished, sc_refresh_start = start\<rparr>\<rparr>,
               Some stats')))"

definition Stats_get :: "instant \<Rightarrow> stats_statics \<Rightarrow> stats_statics \<times> Stats option" where
  "Stats_get now g =
     (let cache = get_or_init (ss_stats_cache g)
                    \<lparr>sc_stats = None, sc_last_refresh = now, sc_refresh_start = now\<rparr>;
          g1 = g\<lparr>ss_stats_cache := Some cache\<rparr>
      in (g1, map_option (\<lambda>stats. stats\<lparr>last_refreshed_secs :=
                word_of_int (elapsed now (sc_last_refresh cache) div nanos_per_sec)\<rparr>) (sc_stats cache)))"

section \<open>Rendering\<close>

text \<open>\<open>{:02}\<close>: at least two digits.\<close>

definition pad2 :: "nat \<Rightarrow> string" where
  "pad2 n = replicate (2 - length (dec_digits n)) (CHR ''0'') @ dec_digits n"

definition format_duration :: "u64 \<Rightarrow> string" where
  "format_duration secs =
     (let hours = secs div 3600; minutes = (secs mod 3600) div 60; seconds = secs mod 60
      in pad2 (unat hours) @ '':'' @ pad2 (unat minutes) @ '':'' @ pad2 (unat seconds))"

section \<open>Counters with a time to live\<close>

text \<open>
  The contract of the two counters, proved once and interpreted for both. A history lists the
  clock before and after each call and what the operating system would have answered; an entry
  of the cache is vouched for if it has expired or was scanned by a call of the history.
\<close>

type_synonym 'o call = "instant \<times> instant \<times> 'o"

definition vouched ::
  "int \<Rightarrow> ('o \<Rightarrow> u64 option) \<Rightarrow> instant \<Rightarrow> 'o call list \<Rightarrow> (instant \<times> u64) option \<Rightarrow> bool" where
  "vouched ttl probe T hist c \<longleftrightarrow>
     (\<forall>t v. c = Some (t, v) \<longrightarrow> ttl \<le> T - t \<or> (\<exists>n os. (n, t, os) \<in> set hist \<and> probe os = Some v))"

lemma vouched_mono:
  "vouched ttl probe T hist c \<Longrightarrow> T \<le> T' \<Longrightarrow> set hist \<subseteq> set hist' \<Longrightarrow> vouched ttl probe T' hist' c"
  unfolding vouched_def by (smt (verit) subsetD)

locale ttl_cache =
  fixes read :: "instant \<Rightarrow> instant \<Rightarrow> 'o \<Rightarrow> 'g \<Rightarrow> 'g \<times> u64 option"
    and cached :: "'g \<Rightarrow> (instant \<times> u64) option"
    and probe :: "'o \<Rightarrow> u64 option"
    and ttl :: int
  assumes ttl_pos: "0 < ttl"
    and hit: "cached g = Some (t, v) \<Longrightarrow> elapsed now t < ttl \<Longrightarrow>
        cached (fst (read now now' os g)) = Some (t, v) \<and> snd (read now now' os g) = Some v"
    and miss: "(\<And>t v. cached g = Some (t, v) \<Longrightarrow> ttl \<le> elapsed now t) \<Longrightarrow> probe os = Some w \<Longrightarrow>
        cached (fst (read now now' os g)) = Some (now', w) \<and> snd (read now now' os g) = Some w"
    and failure: "(\<And>t v. cached g = Some (t, v) \<Longrightarrow> ttl \<le> elapsed now t) \<Longrightarrow> probe os = None \<Longrightarrow>
        snd (read now now' os g) = None \<and>
        (\<forall>t v. cached (fst (read now now' os g)) = Some (t, v) \<longrightarrow> ttl \<le> elapsed now t)"
begin

lemma read_cases:
  obtains (fresh) t v where "cached g = Some (t, v)" "elapsed now t < ttl"
      "cached (fst (read now now' os g)) = Some (t, v)" "snd (read now now' os g) = Some v"
    | (scanned) w where "probe os = Some w"
      "cached (fst (read now now' os g)) = Some (now', w)" "snd (read now now' os g) = Some w"
    | (failed) "probe os = None" "snd (read now now' os g) = None"
      "\<And>t v. cached (fst (read now now' os g)) = Some (t, v) \<Longrightarrow> ttl \<le> elapsed now t"
proof (cases "\<exists>t v. cached g = Some (t, v) \<and> elapsed now t < ttl")
  case True
  then show ?thesis
    using fresh hit [where now' = now' and os = os] by blast
next
  case False
  then have old: "\<And>t v. cached g = Some (t, v) \<Longrightarrow> ttl \<le> elapsed now t"
    by force
  show ?thesis
    using scanned failed miss [OF old, where os = os and now' = now'] failure [OF old, where os = os and now' = now']
    by (cases "probe os") auto
qed

lemma vouched_read:
  assumes "vouched ttl probe T hist (cached g)" "T \<le> now" "now \<le> now'"
  shows "vouched ttl probe now' (hist @ [(now, now', os)]) (cached (fst (read now now' os g)))"
proof (cases rule: read_cases [of g now now' os])
  case (fresh t v)
  then show ?thesis
    using vouched_mono [OF assms(1), of now' "hist @ [(now, now', os)]"] assms(2,3) by auto
next
  case (scanned w)
  then show ?thesis
    by (auto simp: vouched_def)
next
  case failed
  have "ttl \<le> now' - t" if "cached (fst (read now now' os g)) = Some (t, v)" for t v
    using failed(3) [OF that] assms(3) ttl_pos by (auto simp: elapsed_def max_def split: if_splits)
  then show ?thesis
    by (auto simp: vouched_def)
qed

text \<open>What is returned was scanned less than the time to live ago.\<close>

lemma read_recent:
  assumes "vouched ttl probe T hist (cached g)" "T \<le> now" "now \<le> now'"
    and "snd (read now now' os g) = Some v"
  shows "\<exists>n n' o'. (n, n', o') \<in> set (hist @ [(now, now', os)]) \<and> probe o' = Some v \<and> now - n' < ttl"
proof (cases rule: read_cases [of g now now' os])
  case (fresh t w)
  then have "now - t < ttl"
    by (simp add: elapsed_def)
  then show ?thesis
    using assms fresh by (fastforce simp: vouched_def)
next
  case (scanned w)
  then show ?thesis
    using assms(3,4) ttl_pos by (intro exI [of _ now] exI [of _ now'] exI [of _ os]) auto
next
  case failed
  then show ?thesis
    using assms(4) by simp
qed

end

definition connections_cached :: "stats_statics \<Rightarrow> (instant \<times> u64) option" where
  "connections_cached g = map_option (\<lambda>c. (cc_last_refresh c, cc_value c)) (ss_connections_cache g)"

definition processes_cached :: "stats_statics \<Rightarrow> (instant \<times> u64) option" where
  "processes_cached g = map_option (\<lambda>c. (pc_last_refresh c, pc_total c)) (ss_process_count_cache g)"

interpretation sockets: ttl_cache connections connections_cached os_sockets SOCKETS_CACHE_TTL
  by unfold_locales
    (auto simp: connections_def connections_cached_def get_or_init_def elapsed_def SOCKETS_CACHE_TTL_def
      nanos_per_sec_def Let_def split: option.splits)

interpretation processes: ttl_cache
    "\<lambda>now now' os g. (fst (process_count now now' os g), Some (snd (process_count now now' os g)))"
    processes_cached "\<lambda>os. Some (os_running os)" PROCESS_COUNT_TTL
  by unfold_locales
    (auto simp: process_count_def processes_cached_def get_or_init_def elapsed_def PROCESS_COUNT_TTL_def
      nanos_per_sec_def Let_def split: option.splits)

section \<open>A history of snapshots\<close>

definition gathers :: "host_os call list \<Rightarrow> stats_statics \<Rightarrow> stats_statics" where
  "gathers = fold (\<lambda>(now, now', os) g. fst (gather now now' os g))"

text \<open>The clock of a process does not run backwards.\<close>

fun clocked :: "instant \<Rightarrow> 'o call list \<Rightarrow> bool" where
  "clocked T [] \<longleftrightarrow> True"
| "clocked T ((now, now', _) # hist) \<longleftrightarrow> T \<le> now \<and> now \<le> now' \<and> clocked now' hist"

definition last_clock :: "instant \<Rightarrow> 'o call list \<Rightarrow> instant" where
  "last_clock T hist = (if hist = [] then T else fst (snd (last hist)))"

lemma clocked_append:
  "clocked T (hist @ [(now, now', os)]) \<longleftrightarrow> clocked T hist \<and> last_clock T hist \<le> now \<and> now \<le> now'"
  by (induction T hist rule: clocked.induct) (auto simp: last_clock_def)

definition fresh_statics :: stats_statics where
  "fresh_statics = \<lparr>ss_host_ip = None, ss_host_mac = None, ss_host_name = None, ss_host_os_info = None,
     ss_connections_cache = None, ss_process_count_cache = None, ss_stats_cache = None\<rparr>"

lemma connections_fields:
  "ss_host_name (fst (connections now now' os g)) = ss_host_name g"
  "ss_host_ip (fst (connections now now' os g)) = ss_host_ip g"
  "ss_host_os_info (fst (connections now now' os g)) = ss_host_os_info g"
  "ss_host_mac (fst (connections now now' os g)) = ss_host_mac g"
  "ss_process_count_cache (fst (connections now now' os g)) = ss_process_count_cache g"
  "ss_stats_cache (fst (connections now now' os g)) = ss_stats_cache g"
  by (simp_all add: connections_def Let_def split: option.splits)

lemma process_count_fields:
  "ss_host_name (fst (process_count now now' os g)) = ss_host_name g"
  "ss_host_ip (fst (process_count now now' os g)) = ss_host_ip g"
  "ss_host_os_info (fst (process_count now now' os g)) = ss_host_os_info g"
  "ss_host_mac (fst (process_count now now' os g)) = ss_host_mac g"
  "ss_connections_cache (fst (process_count now now' os g)) = ss_connections_cache g"
  "ss_stats_cache (fst (process_count now now' os g)) = ss_stats_cache g"
  by (simp_all add: process_count_def Let_def)

lemmas stats_fields = connections_fields process_count_fields

text \<open>A counter depends on its own cache only.\<close>

lemma counter_cong:
  "ss_connections_cache g = ss_connections_cache g' \<Longrightarrow>
     connections_cached (fst (connections now now' os g)) = connections_cached (fst (connections now now' os g')) \<and>
     snd (connections now now' os g) = snd (connections now now' os g')"
  "ss_process_count_cache g = ss_process_count_cache g' \<Longrightarrow>
     processes_cached (fst (process_count now now' os g)) = processes_cached (fst (process_count now now' os g')) \<and>
     snd (process_count now now' os g) = snd (process_count now now' os g')"
  by (auto simp: connections_def process_count_def connections_cached_def processes_cached_def Let_def
      split: option.splits)

lemma gather_None:
  assumes "os_pid os = None \<or> os_process os = None"
  shows "gather now now' os g = (g, None)"
  using assms by (auto simp: gather_def split: option.splits)

lemma gather_Some:
  assumes "os_pid os = Some pid" "os_process os = Some p"
  obtains stats where "snd (gather now now' os g) = Some stats"
    and "connections_cached (fst (gather now now' os g)) = connections_cached (fst (connections now now' os g))"
    and "processes_cached (fst (gather now now' os g)) = processes_cached (fst (process_count now now' os g))"
    and "host_connections stats = (case snd (connections now now' os g) of Some n \<Rightarrow> n | None \<Rightarrow> 0)"
    and "host_processes stats = snd (process_count now now' os g)"
    and "host_name stats = get_or_init (ss_host_name g) (resolve_hostname os)"
    and "host_ip stats = get_or_init (ss_host_ip g) (resolve_host_ip os)"
    and "host_os_info stats = get_or_init (ss_host_os_info g) (os_info_text os)"
    and "host_mac stats = snd (mac os g)"
    and "ss_host_name (fst (gather now now' os g)) = Some (host_name stats)"
    and "ss_host_ip (fst (gather now now' os g)) = Some (host_ip stats)"
    and "ss_host_os_info (fst (gather now now' os g)) = Some (host_os_info stats)"
    and "ss_host_mac (fst (gather now now' os g)) = Some (host_mac stats)"
proof -
  obtain cpu mem up where p: "p = (cpu, mem, up)"
    by (cases p)
  let ?g1 = "g\<lparr>ss_host_name := Some (get_or_init (ss_host_name g) (resolve_hostname os)),
    ss_host_ip := Some (get_or_init (ss_host_ip g) (resolve_host_ip os)),
    ss_host_os_info := Some (get_or_init (ss_host_os_info g) (os_info_text os))\<rparr>"
  let ?g2 = "fst (connections now now' os ?g1)" let ?g3 = "fst (mac os ?g2)"
  have same: "ss_process_count_cache ?g3 = ss_process_count_cache g" "ss_host_mac ?g2 = ss_host_mac g"
    "ss_connections_cache ?g1 = ss_connections_cache g"
    by (simp_all add: mac_def Let_def stats_fields)
  note c = counter_cong(1) [OF same(3), of now now' os] counter_cong(2) [OF same(1), of now now' os]
  have "connections_cached (fst (process_count now now' os ?g3)) = connections_cached ?g2"
    by (simp add: connections_cached_def stats_fields mac_def Let_def)
  with c same(2) show thesis
    using assms p
    by (intro that [of "the (snd (gather now now' os g))"])
      (auto simp: gather_def Let_def case_prod_unfold stats_fields mac_def)
qed

lemma gathers_vouched:
  assumes "clocked T hist"
  shows "vouched SOCKETS_CACHE_TTL os_sockets (last_clock T hist) hist
       (connections_cached (gathers hist fresh_statics)) \<and>
     vouched PROCESS_COUNT_TTL (\<lambda>os. Some (os_running os)) (last_clock T hist) hist
       (processes_cached (gathers hist fresh_statics))"
  using assms
proof (induction hist rule: rev_induct)
  case Nil
  show ?case
    by (simp add: vouched_def connections_cached_def processes_cached_def gathers_def fresh_statics_def)
next
  case (snoc e hist)
  obtain now now' os where e: "e = (now, now', os)"
    by (cases e)
  let ?g = "gathers hist fresh_statics"
  have g': "gathers (hist @ [e]) fresh_statics = fst (gather now now' os ?g)"
    by (simp add: gathers_def e)
  have clk: "last_clock T hist \<le> now" "now \<le> now'" and last: "last_clock T (hist @ [e]) = now'"
    using snoc.prems by (auto simp: e clocked_append last_clock_def)
  have IH: "vouched SOCKETS_CACHE_TTL os_sockets (last_clock T hist) hist (connections_cached ?g)"
    "vouched PROCESS_COUNT_TTL (\<lambda>os. Some (os_running os)) (last_clock T hist) hist (processes_cached ?g)"
    using snoc by (simp_all add: e clocked_append)
  show ?case
  proof (cases "\<exists>pid p. os_pid os = Some pid \<and> os_process os = Some p")
    case True
    then obtain pid p where "os_pid os = Some pid" "os_process os = Some p"
      by blast
    then show ?thesis
      unfolding g' last unfolding e
      by (rule gather_Some [of os pid p now now' ?g])
        (use sockets.vouched_read [OF IH(1) clk, of os] processes.vouched_read [OF IH(2) clk, of os] in simp)
  next
    case False
    then have "gather now now' os ?g = (?g, None)"
      by (intro gather_None) auto
    then show ?thesis
      unfolding g' last using clk
      by (auto intro: vouched_mono [OF IH(1)] vouched_mono [OF IH(2)])
  qed
qed

section \<open>Properties\<close>

text \<open>
  C40: the two counters in a snapshot are recent: in a process that took any snapshots before, the
  number of sockets was counted less than 30 seconds ago, or counting fails now and it is
  reported as 0; the number of running processes was counted less than 60 seconds ago.
\<close>

theorem stats_counts_recent:
  assumes "clocked T (hist @ [(now, now', os)])"
    and "snd (gather now now' os (gathers hist fresh_statics)) = Some stats"
  shows "((\<exists>n n' o'. (n, n', o') \<in> set (hist @ [(now, now', os)]) \<and>
             os_sockets o' = Some (host_connections stats) \<and> now - n' < 30 * nanos_per_sec) \<or>
          os_sockets os = None \<and> host_connections stats = 0) \<and>
     (\<exists>n n' o'. (n, n', o') \<in> set (hist @ [(now, now', os)]) \<and>
             os_running o' = host_processes stats \<and> now - n' < 60 * nanos_per_sec)"
proof -
  let ?g = "gathers hist fresh_statics"
  have clk: "clocked T hist" "last_clock T hist \<le> now" "now \<le> now'"
    using assms(1) by (simp_all add: clocked_append)
  note v = gathers_vouched [OF clk(1)]
  obtain pid p where "os_pid os = Some pid" "os_process os = Some p"
    using assms(2) gather_None [of os now now' ?g] by fastforce
  then have c: "host_connections stats = (case snd (connections now now' os ?g) of Some n \<Rightarrow> n | None \<Rightarrow> 0)"
    and n: "host_processes stats = snd (process_count now now' os ?g)"
    using assms(2) by (auto elim!: gather_Some [of os pid p now now' ?g])
  have "\<exists>n n' o'. (n, n', o') \<in> set (hist @ [(now, now', os)]) \<and>
      Some (os_running o') = Some (host_processes stats) \<and> now - n' < PROCESS_COUNT_TTL"
    by (rule processes.read_recent [OF conjunct2 [OF v] clk(2,3)]) (simp add: n)
  moreover have "os_sockets os = None" if "snd (connections now now' os ?g) = None"
    using that by (auto simp: connections_def Let_def split: if_splits option.splits)
  ultimately show ?thesis
    using sockets.read_recent [OF conjunct1 [OF v] clk(2,3), of os]
    by (cases "snd (connections now now' os ?g)") (auto simp: c SOCKETS_CACHE_TTL_def PROCESS_COUNT_TTL_def)
qed

definition example_os :: host_os where
  "example_os = \<lparr>os_pid = Some 7, os_process = Some (0, 1, 2), os_thread_count = None, os_env_hostname = None,
     os_host_name = Some ''h'', os_if_addrs = Some [(True, ''127.0.0.1''), (False, ''10.0.0.2'')],
     os_info_text = ''linux'', os_getloadavg = (3, 0, 0, 0), os_sockets = Some 4, os_running = 5,
     os_mac_address = Err (), os_cpu = 0, os_mem_used = 0, os_mem_total = 0, os_uptime = 0\<rparr>"

lemma example_gather:
  "\<exists>stats. snd (gather now now' (example_os\<lparr>os_sockets := n\<rparr>) g) = Some stats"
  by (rule gather_Some [of "example_os\<lparr>os_sockets := n\<rparr>" 7 "(0, 1, 2)" now now' g])
    (auto simp: example_os_def)

theorem stats_counts_recent_witness:
  "\<exists>stats. snd (gather 5 6 (example_os\<lparr>os_sockets := None\<rparr>) (gathers [(0, 1, example_os)] fresh_statics))
      = Some stats \<and> (host_connections stats = 4 \<or> host_connections stats = 0)"
proof -
  let ?os = "example_os\<lparr>os_sockets := None\<rparr>"
  obtain stats where st: "snd (gather 5 6 ?os (gathers [(0, 1, example_os)] fresh_statics)) = Some stats"
    using example_gather by blast
  have "clocked 0 ([(0, 1, example_os)] @ [(5, 6, ?os)])"
    by simp
  from stats_counts_recent [OF this st] st show ?thesis
    by (auto simp: example_os_def)
qed

text \<open>
  The name, address, hardware address and system of the host are those of the first snapshot:
  later ones report the same, whatever the operating system says by then.
\<close>

theorem stats_identity_stable:
  assumes "snd (gather n1 n1' os1 g) = Some s1"
    and "snd (gather n2 n2' os2 (gathers hist (fst (gather n1 n1' os1 g)))) = Some s2"
  shows "host_name s2 = host_name s1 \<and> host_ip s2 = host_ip s1 \<and> host_mac s2 = host_mac s1 \<and>
    host_os_info s2 = host_os_info s1"
proof -
  let ?P = "\<lambda>h. ss_host_name h = Some (host_name s1) \<and> ss_host_ip h = Some (host_ip s1) \<and>
    ss_host_os_info h = Some (host_os_info s1) \<and> ss_host_mac h = Some (host_mac s1)"
  obtain pid p where "os_pid os1 = Some pid" "os_process os1 = Some p"
    using assms(1) gather_None [of os1 n1 n1' g] by fastforce
  then have first: "?P (fst (gather n1 n1' os1 g))"
    using assms(1) by (auto elim!: gather_Some [of os1 pid p n1 n1' g])
  have keep: "?P (fst (gather now now' os h)) \<and>
      (\<forall>s. snd (gather now now' os h) = Some s \<longrightarrow> host_name s = host_name s1 \<and> host_ip s = host_ip s1 \<and>
         host_mac s = host_mac s1 \<and> host_os_info s = host_os_info s1)" if "?P h" for now now' os h
  proof (cases "\<exists>pid p. os_pid os = Some pid \<and> os_process os = Some p")
    case True
    then obtain pid p where "os_pid os = Some pid" "os_process os = Some p"
      by blast
    then show ?thesis
      by (rule gather_Some [of os pid p now now' h]) (use that in \<open>auto simp: get_or_init_def mac_def Let_def\<close>)
  next
    case False
    then have "gather now now' os h = (h, None)"
      by (intro gather_None) auto
    with that show ?thesis
      by simp
  qed
  have "?P (gathers hist h)" if "?P h" for h
    using that
  proof (induction hist arbitrary: h)
    case (Cons e hist)
    obtain now now' os where "e = (now, now', os)"
      by (cases e)
    then show ?case
      using Cons.IH [OF conjunct1 [OF keep [OF Cons.prems]]] by (simp add: gathers_def)
  qed (simp add: gathers_def)
  from conjunct2 [OF keep [OF this [OF first]]] show ?thesis
    using assms(2) by blast
qed

theorem stats_identity_stable_witness:
  "\<exists>s1 s2. snd (gather 0 1 example_os fresh_statics) = Some s1 \<and>
     snd (gather 5 6 (example_os\<lparr>os_host_name := Some ''other'', os_sockets := None\<rparr>)
       (gathers [] (fst (gather 0 1 example_os fresh_statics)))) = Some s2 \<and> host_name s2 = host_name s1"
proof -
  obtain s1 where 1: "snd (gather 0 1 example_os fresh_statics) = Some s1"
    using example_gather [of 0 1 "os_sockets example_os" fresh_statics] by auto
  let ?os = "example_os\<lparr>os_host_name := Some ''other'', os_sockets := None\<rparr>"
  let ?g = "gathers [] (fst (gather 0 1 example_os fresh_statics))"
  obtain s2 where 2: "snd (gather 5 6 ?os ?g) = Some s2"
    by (rule gather_Some [of ?os 7 "(0, 1, 2)" 5 6 ?g]) (auto simp: example_os_def)
  show ?thesis
    using 1 2 stats_identity_stable [OF 1 2] by blast
qed

text \<open>
  Reading the statistics gives the last snapshot that succeeded, with its age in whole seconds, and
  before the first one nothing.
\<close>

theorem stats_get_age:
  assumes "Stats_refresh start now now' finished os g = (g', Some stats)" "finished \<le> later"
    and "later - finished < 2 ^ 64 * nanos_per_sec"
  shows "\<exists>st. snd (Stats_get later g') = Some st \<and> st = stats\<lparr>last_refreshed_secs := last_refreshed_secs st\<rparr> \<and>
     int (unat (last_refreshed_secs st)) = (later - finished) div nanos_per_sec"
proof -
  have "ss_stats_cache g' = Some \<lparr>sc_stats = Some stats, sc_last_refresh = finished, sc_refresh_start = start\<rparr>"
    using assms(1) by (auto simp: Stats_refresh_def Let_def split: prod.splits option.splits)
  moreover have "0 \<le> (later - finished) div nanos_per_sec" "(later - finished) div nanos_per_sec < 2 ^ 64"
    using assms(2,3) by (simp_all add: nanos_per_sec_def)
  then have "uint (word_of_int ((later - finished) div nanos_per_sec) :: u64) = (later - finished) div nanos_per_sec"
    by (simp add: uint_word_of_int)
  moreover have "int (unat w) = uint w" for w :: u64
    by simp
  ultimately show ?thesis
    using assms(2) by (simp add: Stats_get_def get_or_init_def elapsed_def Let_def)
qed

theorem stats_get_age_witness:
  "\<exists>g' stats st. Stats_refresh 0 0 1 2 example_os fresh_statics = (g', Some stats) \<and>
     snd (Stats_get (2 + 3 * nanos_per_sec) g') = Some st \<and> uint (last_refreshed_secs st) = 3"
proof -
  obtain stats where "snd (gather 0 1 example_os fresh_statics) = Some stats"
    using example_gather [of 0 1 "os_sockets example_os" fresh_statics] by auto
  then obtain g' stats' where r: "Stats_refresh 0 0 1 2 example_os fresh_statics = (g', Some stats')"
    by (cases "gather 0 1 example_os fresh_statics") (auto simp: Stats_refresh_def Let_def)
  from stats_get_age [OF r, of "2 + 3 * nanos_per_sec"] r show ?thesis
    by (auto simp: nanos_per_sec_def)
qed

section \<open>Durations\<close>

lemma pad2_value: "digits_value (pad2 n) = n"
proof -
  have "digits_value (replicate k (CHR ''0'') @ s) = digits_value s" for k s
    by (induction k) (simp_all add: digits_value_def)
  then show ?thesis
    by (simp add: pad2_def digits_value_dec)
qed

lemma pad2_no_colon: "CHR '':'' \<notin> set (pad2 n)"
  using dec_digits_chars [of "CHR '':''" n] by (auto simp: pad2_def)

text \<open>
  A printed duration reads back: its three fields, separated by colons, are the hours, minutes and
  seconds of the duration, the last two below 60.
\<close>

theorem format_duration_reads_back:
  "\<exists>h m s. map digits_value (split_on (CHR '':'') (format_duration secs)) = [h, m, s] \<and>
     m < 60 \<and> s < 60 \<and> h * 3600 + m * 60 + s = unat secs"
proof -
  have "unat (secs div 3600) = unat secs div 3600" "unat ((secs mod 3600) div 60) = unat secs mod 3600 div 60"
    "unat (secs mod 60) = unat secs mod 60"
    by (simp_all add: unat_div unat_mod)
  moreover have "unat secs div 3600 * 3600 + unat secs mod 3600 div 60 * 60 + unat secs mod 60 = unat secs"
  proof -
    have "unat secs mod 3600 mod 60 = unat secs mod 60"
      by (simp add: mod_mod_cancel)
    then show ?thesis
      using div_mult_mod_eq [of "unat secs" 3600] div_mult_mod_eq [of "unat secs mod 3600" 60] by linarith
  qed
  moreover have "unat secs mod 3600 div 60 < 60"
    by (simp add: less_mult_imp_div_less)
  ultimately show ?thesis
    using pad2_no_colon
    by (simp add: format_duration_def Let_def split_on_append split_on_single pad2_value)
qed

end
