(* ===== verification/Agent_Run.thy ===== *)
theory Agent_Run
  imports Agent_Creds Config Host_Stats
begin

text \<open>
  The long-running tasks of the agent process (\<open>start_ws_connection\<close>, \<open>spawn_stats_logger\<close> and the
  version endpoint in \<open>agent/src/agent.rs\<close> and \<open>agent/src/http.rs\<close>): the reconnect loop around the
  identity store and the token exchange, and the refresh of the statistics. A round of the loop is
  what it finds: the state file, how the connection ended, and whether the process is shut down.
\<close>

section \<open>The reconnect loop\<close>

datatype ws_end = WsEnded | WsFailed | WsShutdown

record ws_round =
  wr_file :: state_file
  wr_end :: ws_end
  wr_shutdown_in_pause :: bool

datatype loop_event =
    IdentityMissing
  | TokenRefused fetch_error
  | Connected uuid string
  | Pause nat
  | Stopped

text \<open>One round up to its end: the server's state, what happened, and whether the loop breaks.\<close>

definition ws_attempt ::
  "creds_ext \<Rightarrow> 's post_challenge \<Rightarrow> 's post_verify \<Rightarrow> agent_env \<Rightarrow> ws_round \<Rightarrow> 's \<Rightarrow> 's \<times> loop_event list \<times> bool" where
  "ws_attempt X post_ch post_vf env r s =
     (case load_creds_for_server X (strip_scheme (ae_server_host env)) (wr_file r) of
        None \<Rightarrow> (s, [IdentityMissing], False)
      | Some (_, identity) \<Rightarrow>
          (case fetch_session_jwt X post_ch post_vf env identity s of
             (s', Ok session_token) \<Rightarrow>
               (s', [Connected (sst_node_id identity) session_token], wr_end r = WsShutdown)
           | (s', Err e) \<Rightarrow> (s', [TokenRefused e], False)
           | (s', Panic) \<Rightarrow> (s', [], True)))"

fun start_ws_connection ::
  "creds_ext \<Rightarrow> 's post_challenge \<Rightarrow> 's post_verify \<Rightarrow> agent_env \<Rightarrow> u32 \<Rightarrow> ws_round list \<Rightarrow> 's
     \<Rightarrow> 's \<times> loop_event list" where
  "start_ws_connection X post_ch post_vf env attempt [] s = (s, [])"
| "start_ws_connection X post_ch post_vf env attempt (r # rounds) s =
     (case ws_attempt X post_ch post_vf env r s of
        (s', evs, True) \<Rightarrow> (s', evs @ [Stopped])
      | (s', evs, False) \<Rightarrow>
          (let a = next_attempt attempt; pause = Pause (backoff_secs a)
           in if wr_shutdown_in_pause r then (s', evs @ [pause, Stopped])
              else (case start_ws_connection X post_ch post_vf env a rounds s' of
                      (s'', rest) \<Rightarrow> (s'', evs @ pause # rest))))"

section \<open>The statistics logger\<close>

text \<open>
  \<open>tokio::time::interval\<close> and \<open>block_in_place\<close> are parameters: the documentation says that the first panics on
  a period of zero and the second on a current-thread runtime. A tick carries four readings of the
  clock and what the operating system answers.
\<close>

datatype logger_event = Refresh instant instant instant instant host_os | LoggerShutdown

fun stats_logger_loop ::
  "(unit, unit) outcome \<Rightarrow> logger_event list \<Rightarrow> stats_statics \<Rightarrow> (unit, stats_statics) outcome" where
  "stats_logger_loop block_in_place [] g = Ok g"
| "stats_logger_loop block_in_place (Refresh start now now' finished os # evs) g =
     obind block_in_place (\<lambda>_. stats_logger_loop block_in_place evs (fst (Stats_refresh start now now' finished os g)))"
| "stats_logger_loop block_in_place (LoggerShutdown # _) g = Ok g"

definition spawn_stats_logger ::
  "(nat \<Rightarrow> (unit, unit) outcome) \<Rightarrow> (unit, unit) outcome \<Rightarrow> agent_env \<Rightarrow> logger_event list \<Rightarrow> stats_statics
     \<Rightarrow> (unit, stats_statics) outcome" where
  "spawn_stats_logger interval block_in_place env evs g =
     obind (interval (unat (ae_stats_refresh_interval env))) (\<lambda>_. stats_logger_loop block_in_place evs g)"

definition get_version :: "agent_env \<Rightarrow> (string \<times> string) list" where
  "get_version env = [(''version'', ae_version env)]"

section \<open>Lemmas\<close>

fun pauses :: "loop_event list \<Rightarrow> nat list" where
  "pauses [] = []"
| "pauses (Pause n # evs) = n # pauses evs"
| "pauses (_ # evs) = pauses evs"

lemma pauses_append: "pauses (evs @ evs') = pauses evs @ pauses evs'"
  by (induction evs rule: pauses.induct) simp_all

lemma fetch_no_panic: "snd (fetch_session_jwt X post_ch post_vf env st s) \<noteq> Panic"
  by (auto simp: fetch_session_jwt_def Let_def split: prod.splits option.splits)

lemma ws_attempt_cases:
  obtains (missing) "ws_attempt X post_ch post_vf env r s = (s, [IdentityMissing], False)"
      "load_creds_for_server X (strip_scheme (ae_server_host env)) (wr_file r) = None"
    | (refused) s' e where "ws_attempt X post_ch post_vf env r s = (s', [TokenRefused e], False)"
    | (connected) s' h st token where
      "load_creds_for_server X (strip_scheme (ae_server_host env)) (wr_file r) = Some (h, st)"
      "fetch_session_jwt X post_ch post_vf env st s = (s', Ok token)"
      "ws_attempt X post_ch post_vf env r s = (s', [Connected (sst_node_id st) token], wr_end r = WsShutdown)"
proof (cases "load_creds_for_server X (strip_scheme (ae_server_host env)) (wr_file r)")
  case None
  then show ?thesis
    using missing by (simp add: ws_attempt_def)
next
  case (Some p)
  obtain h st where p: "p = (h, st)"
    by (cases p)
  obtain s' res where f: "fetch_session_jwt X post_ch post_vf env st s = (s', res)"
    by (cases "fetch_session_jwt X post_ch post_vf env st s")
  show ?thesis
  proof (cases res)
    case (Ok token)
    then show ?thesis
      using connected [of h st s' token] Some f by (simp add: ws_attempt_def p)
  next
    case (Err e)
    then show ?thesis
      using refused [of s' e] Some f by (simp add: ws_attempt_def p)
  next
    case Panic
    then show ?thesis
      using fetch_no_panic [of X post_ch post_vf env st s] f by simp
  qed
qed

section \<open>Properties\<close>

text \<open>
  The loop connects only as the node whose identity the state file holds for the configured host at
  that moment, and with a token that the exchange for this node returned in the same round.
\<close>

theorem reconnect_uses_stored_identity:
  assumes "Connected node_id token \<in> set (snd (start_ws_connection X post_ch post_vf env attempt rounds s))"
  shows "\<exists>r \<in> set rounds. \<exists>state s1.
     load_identity X (strip_scheme (ae_server_host env)) (wr_file r) = Ok state \<and> sst_node_id state = node_id \<and>
     snd (fetch_session_jwt X post_ch post_vf env state s1) = Ok token"
  using assms
proof (induction rounds arbitrary: attempt s)
  case (Cons r rounds)
  show ?case
  proof (cases rule: ws_attempt_cases [of X post_ch post_vf env r s])
    case (connected s' h st tok)
    have st: "load_identity X (strip_scheme (ae_server_host env)) (wr_file r) = Ok st"
      using connected(1) by (auto simp: load_creds_for_server_def split: if_splits outcome.splits)
    show ?thesis
    proof (cases "node_id = sst_node_id st \<and> token = tok")
      case True
      then show ?thesis
        using st connected(2) by (intro bexI [of _ r] exI [of _ st] exI [of _ s]) simp_all
    next
      case False
      then have "Connected node_id token \<in> set (snd (start_ws_connection X post_ch post_vf env (next_attempt attempt) rounds s'))"
        using Cons.prems connected(3)
        by (cases "wr_end r = WsShutdown") (auto simp: Let_def split: prod.splits if_splits)
      from Cons.IH [OF this] show ?thesis
        by auto
    qed
  next
    case missing
    then have "Connected node_id token \<in> set (snd (start_ws_connection X post_ch post_vf env (next_attempt attempt) rounds s))"
      using Cons.prems by (auto simp: Let_def split: prod.splits if_splits)
    from Cons.IH [OF this] show ?thesis
      by auto
  next
    case (refused s' e)
    then have "Connected node_id token \<in> set (snd (start_ws_connection X post_ch post_vf env (next_attempt attempt) rounds s'))"
      using Cons.prems by (auto simp: Let_def split: prod.splits if_splits)
    from Cons.IH [OF this] show ?thesis
      by auto
  qed
qed simp

text \<open>An agent whose server answers every exchange with one token; its identity appears in the second round.\<close>

definition loop_env :: agent_env where
  "loop_env = \<lparr>ae_mode = Production, ae_host = ''0.0.0.0'', ae_port = 8081, ae_stats_refresh_interval = 0,
     ae_server_host = ''h'', ae_server_port = 443, ae_ssh_host = ''localhost'', ae_ssh_port = 22,
     ae_ssh_auth_mode = PasswordAuth, ae_ssh_inactivity_secs = 0, ae_version = ''1.0''\<rparr>"

definition loop_rounds :: "ws_round list" where
  "loop_rounds = [\<lparr>wr_file = Missing, wr_end = WsEnded, wr_shutdown_in_pause = False\<rparr>,
     \<lparr>wr_file = Content ''{}'', wr_end = WsFailed, wr_shutdown_in_pause = False\<rparr>]"

abbreviation example_loop :: "loop_event list" where
  "example_loop \<equiv> snd (start_ws_connection example_creds (\<lambda>url nid s. (s, Some ''c'')) (\<lambda>url nid ch sg s. (s, Some ''t''))
     loop_env 0 loop_rounds ())"

lemma example_loop_identity:
  "load_creds_for_server example_creds ''h'' Missing = None"
  "\<exists>st. load_creds_for_server example_creds ''h'' (Content ''{}'') = Some (''h'', st) \<and> sst_node_id st = 1 \<and>
     sst_private_key st = replicate 32 CHR ''k''"
proof -
  show "load_creds_for_server example_creds ''h'' Missing = None"
    by (simp add: load_creds_for_server_def load_identity_def load_state_from_file_def StoredState_default_def)
  have "load_identity example_creds ''h'' (Content ''{}'') = Ok \<lparr>sst_node_id = 1, sst_private_key = replicate 32 CHR ''k'',
         sst_public_key = replicate 32 CHR ''k'', sst_server_host = ''h''\<rparr>"
    unfolding load_identity_Ok using example_key_valid by (simp add: example_creds_def)
  then show "\<exists>st. load_creds_for_server example_creds ''h'' (Content ''{}'') = Some (''h'', st) \<and> sst_node_id st = 1 \<and>
     sst_private_key st = replicate 32 CHR ''k''"
    by (simp add: load_creds_for_server_def) (simp add: example_creds_def)
qed

lemma example_loop_connects: "Connected 1 ''t'' \<in> set example_loop"
proof -
  obtain st where st: "load_creds_for_server example_creds ''h'' (Content ''{}'') = Some (''h'', st)" "sst_node_id st = 1"
    "sst_private_key st = replicate 32 CHR ''k''"
    using example_loop_identity(2) by blast
  have host: "strip_scheme (ae_server_host loop_env) = ''h''"
    by (simp add: loop_env_def strip_scheme_example)
  have "cx_b64_decode example_creds (replicate 32 CHR ''k'') = Some (replicate 32 107)"
    by (simp add: example_creds_def)
  then have "fetch_session_jwt example_creds (\<lambda>url nid s. (s, Some ''c'')) (\<lambda>url nid ch sg s. (s, Some ''t'')) loop_env st ()
      = ((), Ok ''t'')"
    by (simp add: fetch_session_jwt_def Let_def st)
  then show ?thesis
    using st host example_loop_identity(1) by (simp add: loop_rounds_def ws_attempt_def Let_def)
qed

theorem reconnect_uses_stored_identity_witness:
  "\<exists>r \<in> set loop_rounds. \<exists>state. load_identity example_creds ''h'' (wr_file r) = Ok state \<and> sst_node_id state = 1"
proof -
  have "strip_scheme (ae_server_host loop_env) = ''h''"
    by (simp add: loop_env_def strip_scheme_example)
  then show ?thesis
    using reconnect_uses_stored_identity [OF example_loop_connects] by auto
qed



text \<open>
  A refresh interval of zero stops the agent: the interval timer panics, which aborts the process.
  So does the first tick on a current-thread runtime. Otherwise the statistics a heartbeat sends are
  available once a refresh could read the process, and not before.
\<close>

lemma refresh_available:
  "snd (Stats_get t (fst (Stats_refresh start now now' finished os g))) \<noteq> None \<longleftrightarrow>
     snd (Stats_get t g) \<noteq> None \<or> os_pid os \<noteq> None \<and> os_process os \<noteq> None"
proof (cases "\<exists>pid p. os_pid os = Some pid \<and> os_process os = Some p")
  case True
  then obtain pid p where o: "os_pid os = Some pid" "os_process os = Some p"
    by blast
  then obtain stats where "snd (gather now now' os g) = Some stats"
    by (rule gather_Some)
  then show ?thesis
    using o by (cases "gather now now' os g")
      (simp add: Stats_refresh_def Stats_get_def get_or_init_def Let_def)
next
  case False
  then have "gather now now' os g = (g, None)"
    by (intro gather_None) auto
  then show ?thesis
    using False by (auto simp: Stats_refresh_def)
qed

fun before_shutdown :: "logger_event list \<Rightarrow> host_os list" where
  "before_shutdown [] = []"
| "before_shutdown (Refresh _ _ _ _ os # evs) = os # before_shutdown evs"
| "before_shutdown (LoggerShutdown # _) = []"

lemma logger_panics:
  "stats_logger_loop Panic evs g = (if before_shutdown evs = [] then Ok g else Panic)"
  by (cases evs rule: before_shutdown.cases) (simp_all add: obind_def)

lemma logger_available:
  "\<exists>g'. stats_logger_loop (Ok ()) evs g = Ok g' \<and> (\<forall>t. snd (Stats_get t g') \<noteq> None \<longleftrightarrow>
     snd (Stats_get t g) \<noteq> None \<or> (\<exists>os \<in> set (before_shutdown evs). os_pid os \<noteq> None \<and> os_process os \<noteq> None))"
proof (induction "Ok () :: (unit, unit) outcome" evs g rule: stats_logger_loop.induct)
  case (2 start now now' finished os evs g)
  then show ?case
    by (auto simp: obind_def refresh_available simp del: not_None_eq)
qed simp_all

theorem stats_logger_result:
  assumes "\<And>n. interval n = (if n = 0 then Panic else Ok ())" "block_in_place = Ok () \<or> block_in_place = Panic"
  shows "(spawn_stats_logger interval block_in_place env evs fresh_statics = Panic \<longleftrightarrow>
       ae_stats_refresh_interval env = 0 \<or> block_in_place = Panic \<and> before_shutdown evs \<noteq> []) \<and>
     (\<forall>g t. spawn_stats_logger interval block_in_place env evs fresh_statics = Ok g \<longrightarrow>
        (snd (Stats_get t g) \<noteq> None \<longleftrightarrow>
           (\<exists>os \<in> set (before_shutdown evs). os_pid os \<noteq> None \<and> os_process os \<noteq> None)))"
proof -
  have fresh: "snd (Stats_get t fresh_statics) = None" for t
    by (simp add: Stats_get_def fresh_statics_def get_or_init_def Let_def)
  obtain g where g: "stats_logger_loop (Ok ()) evs fresh_statics = Ok g"
    and av: "\<forall>t. snd (Stats_get t g) \<noteq> None \<longleftrightarrow>
      (\<exists>os \<in> set (before_shutdown evs). os_pid os \<noteq> None \<and> os_process os \<noteq> None)"
    using logger_available [of evs fresh_statics] unfolding fresh by blast
  show ?thesis
  proof (cases "ae_stats_refresh_interval env = 0")
    case False
    show ?thesis
    proof (cases "block_in_place = Panic")
      case True
      with False fresh show ?thesis
        by (auto simp: spawn_stats_logger_def assms(1) unat_eq_0 logger_panics obind_def)
    next
      case nopanic: False
      with False assms(2) g have "spawn_stats_logger interval block_in_place env evs fresh_statics = Ok g"
        by (simp add: spawn_stats_logger_def assms(1) unat_eq_0 obind_def)
      with av False nopanic show ?thesis
        by (metis outcome.distinct(3) outcome.inject(1))
    qed
  qed (simp add: spawn_stats_logger_def assms(1) obind_def)
qed

theorem stats_logger_result_witness:
  "spawn_stats_logger (\<lambda>n. if n = 0 then Panic else Ok ()) (Ok ()) loop_env [] fresh_statics = Panic \<and>
   (\<exists>g. spawn_stats_logger (\<lambda>n. if n = 0 then Panic else Ok ()) (Ok ()) (loop_env\<lparr>ae_stats_refresh_interval := 30\<rparr>)
      [Refresh 0 0 1 2 example_os] fresh_statics = Ok g \<and> snd (Stats_get 5 g) \<noteq> None)"
proof -
  let ?i = "\<lambda>n :: nat. if n = 0 then Panic else Ok ()"
  have i: "?i n = (if n = 0 then Panic else Ok ())" for n
    by simp
  have "ae_stats_refresh_interval loop_env = 0" "os_pid example_os \<noteq> None" "os_process example_os \<noteq> None"
    by (simp_all add: loop_env_def example_os_def)
  moreover obtain g where "spawn_stats_logger ?i (Ok ()) (loop_env\<lparr>ae_stats_refresh_interval := 30\<rparr>)
      [Refresh 0 0 1 2 example_os] fresh_statics = Ok g"
    by (simp add: spawn_stats_logger_def obind_def)
  ultimately show ?thesis
    using stats_logger_result [of ?i "Ok ()" loop_env "[]", OF i]
      stats_logger_result [of ?i "Ok ()" "loop_env\<lparr>ae_stats_refresh_interval := 30\<rparr>" "[Refresh 0 0 1 2 example_os]", OF i]
    by auto
qed

end
