(* ===== verification/Programs.thy ===== *)
theory Programs
  imports Server_Start Agent_Run Relay
begin

text \<open>
  The three programs as processes: the commands of their command lines (\<open>main.rs\<close> and \<open>cli.rs\<close> of agent,
  server and relay), and the life of a running agent and server (\<open>start\<close> in \<open>agent/src/agent.rs\<close> and
  \<open>server/src/server.rs\<close>): the tasks they spawn, the \<open>select!\<close> that waits for the first to end, and the
  shutdown.
\<close>

section \<open>A supervised process\<close>

text \<open>
  The interface of the two: tasks run until they are told to stop, apart from some that may also end
  on their own accord; the others are told when a task has ended.
\<close>

locale supervised =
  fixes step :: "'p \<Rightarrow> 'p \<Rightarrow> bool"
    and ended :: "'p \<Rightarrow> 't \<Rightarrow> bool"
    and told :: "'p \<Rightarrow> bool"
    and on_its_own :: "'t \<Rightarrow> bool"
  assumes told_step: "step p q \<Longrightarrow> told q \<Longrightarrow> told p \<or> (\<exists>t. ended p t)"
    and ended_step: "step p q \<Longrightarrow> ended q t \<Longrightarrow> ended p t \<or> told p \<or> on_its_own t"
    and ended_mono: "step p q \<Longrightarrow> ended p t \<Longrightarrow> ended q t"
    and told_mono: "step p q \<Longrightarrow> told p \<Longrightarrow> told q"

sublocale supervised \<subseteq> cause: invariant_system step
  "\<lambda>p. (told p \<longrightarrow> (\<exists>t. on_its_own t \<and> ended p t)) \<and> (\<forall>t. ended p t \<longrightarrow> told p \<or> on_its_own t)"
  by unfold_locales (meson told_step ended_step ended_mono told_mono)

context supervised
begin

lemma told_because:
  assumes "step\<^sup>*\<^sup>* p q" "\<not> told p" "\<And>t. \<not> ended p t"
  shows "told q \<Longrightarrow> \<exists>t. on_its_own t \<and> ended q t" and "ended q t \<Longrightarrow> told q \<or> on_its_own t"
  using cause.reachable_inv [OF assms(1)] assms(2,3) by blast+

end

section \<open>The agent process\<close>

text \<open>
  The listener, the same in both programs: \<open>bind\<close>, then \<open>axum::serve\<close> until it is told to stop or fails. A
  failed \<open>bind\<close> is only logged, and ends the task.
\<close>

datatype listener = Binding | Listening | Closed

datatype http_event = BindResult bool | ServeFailed | ShutdownReceived

fun start_http_server :: "listener \<Rightarrow> http_event \<Rightarrow> listener" where
  "start_http_server Binding (BindResult ok) = (if ok then Listening else Closed)"
| "start_http_server Listening ServeFailed = Closed"
| "start_http_server Listening ShutdownReceived = Closed"
| "start_http_server l _ = l"

lemma closed_stays [simp]: "start_http_server Closed ev = Closed"
  by (cases ev) simp_all

datatype agent_task = WsTask | HttpTask | StatsTask | SignalTask

record 's agent_process =
  pa_world :: 's  \<comment> \<open>the server that answers the token exchange\<close>
  pa_attempt :: u32
  pa_ws :: bool  \<comment> \<open>the reconnect loop is running\<close>
  pa_http :: listener
  pa_stats :: stats_statics
  pa_logger :: bool
  pa_signal :: bool  \<comment> \<open>ctrl-c came, or cannot be listened for\<close>
  pa_told :: bool  \<comment> \<open>\<open>shutdown_tx\<close> has been sent to\<close>
  pa_result :: "(unit, unit) outcome option"

definition agent_start :: "'s \<Rightarrow> stats_statics \<Rightarrow> 's agent_process" where
  "agent_start world g =
     \<lparr>pa_world = world, pa_attempt = 0, pa_ws = True, pa_http = Binding, pa_stats = g, pa_logger = True,
      pa_signal = False, pa_told = False, pa_result = None\<rparr>"

fun agent_ended :: "'s agent_process \<Rightarrow> agent_task \<Rightarrow> bool" where
  "agent_ended p WsTask \<longleftrightarrow> \<not> pa_ws p"
| "agent_ended p HttpTask \<longleftrightarrow> pa_http p = Closed"
| "agent_ended p StatsTask \<longleftrightarrow> \<not> pa_logger p"
| "agent_ended p SignalTask \<longleftrightarrow> pa_signal p"

text \<open>
  A round of the reconnect loop sees a shutdown only if it was sent. A panic in a task aborts the
  process; the task of the connection may panic over a message of the server. Between the notice and the
  exit the process sleeps for half a second, in which the tasks go on.
\<close>

inductive agent_process_step ::
  "creds_ext \<Rightarrow> 's post_challenge \<Rightarrow> 's post_verify \<Rightarrow> agent_env \<Rightarrow> (nat \<Rightarrow> (unit, unit) outcome) \<Rightarrow> (unit, unit) outcome
     \<Rightarrow> 's agent_process \<Rightarrow> 's agent_process \<Rightarrow> bool" for X post_ch post_vf env interval block_in_place where
  ws_round: "pa_result p = None \<Longrightarrow> pa_ws p \<Longrightarrow> wr_end r = WsShutdown \<or> wr_shutdown_in_pause r \<longrightarrow> pa_told p \<Longrightarrow>
    start_ws_connection X post_ch post_vf env (pa_attempt p) [r] (pa_world p) = (s', evs) \<Longrightarrow>
    agent_process_step X post_ch post_vf env interval block_in_place p
      (p\<lparr>pa_world := s', pa_attempt := next_attempt (pa_attempt p), pa_ws := Stopped \<notin> set evs\<rparr>)"
| ws_panics: "pa_result p = None \<Longrightarrow> pa_ws p \<Longrightarrow>
    agent_process_step X post_ch post_vf env interval block_in_place p (p\<lparr>pa_result := Some Panic\<rparr>)"
| http: "pa_result p = None \<Longrightarrow> ev = ShutdownReceived \<longrightarrow> pa_told p \<Longrightarrow>
    agent_process_step X post_ch post_vf env interval block_in_place p (p\<lparr>pa_http := start_http_server (pa_http p) ev\<rparr>)"
| logger_tick: "pa_result p = None \<Longrightarrow> pa_logger p \<Longrightarrow>
    spawn_stats_logger interval block_in_place env [Refresh start now now' finished os] (pa_stats p) = Ok g \<Longrightarrow>
    agent_process_step X post_ch post_vf env interval block_in_place p (p\<lparr>pa_stats := g\<rparr>)"
| logger_panics: "pa_result p = None \<Longrightarrow> pa_logger p \<Longrightarrow>
    spawn_stats_logger interval block_in_place env [Refresh start now now' finished os] (pa_stats p) = Panic \<Longrightarrow>
    agent_process_step X post_ch post_vf env interval block_in_place p (p\<lparr>pa_result := Some Panic\<rparr>)"
| logger_stops: "pa_result p = None \<Longrightarrow> pa_logger p \<Longrightarrow> pa_told p \<Longrightarrow>
    agent_process_step X post_ch post_vf env interval block_in_place p (p\<lparr>pa_logger := False\<rparr>)"
| signal: "pa_result p = None \<Longrightarrow> agent_process_step X post_ch post_vf env interval block_in_place p (p\<lparr>pa_signal := True\<rparr>)"
| selects: "pa_result p = None \<Longrightarrow> agent_ended p t \<Longrightarrow>
    agent_process_step X post_ch post_vf env interval block_in_place p (p\<lparr>pa_told := True\<rparr>)"
| exits: "pa_result p = None \<Longrightarrow> pa_told p \<Longrightarrow>
    agent_process_step X post_ch post_vf env interval block_in_place p (p\<lparr>pa_result := Some (Ok ())\<rparr>)"

inductive_cases agent_process_stepE: "agent_process_step X post_ch post_vf env interval block_in_place p q"

text \<open>The reconnect loop ends in a round exactly when the round is told.\<close>

lemma ws_round_stops:
  assumes "start_ws_connection X post_ch post_vf env attempt [r] s = (s', evs)" "Stopped \<in> set evs"
  shows "wr_end r = WsShutdown \<or> wr_shutdown_in_pause r"
  by (cases rule: ws_attempt_cases [of X post_ch post_vf env r s])
    (use assms in \<open>auto simp: Let_def split: if_splits bool.splits\<close>)

lemma agent_step_ended:
  assumes "agent_process_step X post_ch post_vf env interval bip p q"
  shows "agent_ended q t \<Longrightarrow> agent_ended p t \<or> pa_told p \<or> t \<in> {HttpTask, SignalTask}"
    and "agent_ended p t \<Longrightarrow> agent_ended q t"
    and "pa_told q \<Longrightarrow> pa_told p \<or> (\<exists>t. agent_ended p t)"
    and "pa_told p \<Longrightarrow> pa_told q"
  supply start_ws_connection.simps [simp del]
  using assms by (cases rule: agent_process_step.cases; cases t; auto dest: ws_round_stops split: if_splits)+

interpretation agent_process: supervised "agent_process_step X post_ch post_vf env interval bip" agent_ended pa_told
  "\<lambda>t. t \<in> {HttpTask, SignalTask}" for X post_ch post_vf env interval bip
  by unfold_locales (erule (1) agent_step_ended)+

text \<open>What a finished process reports, and why it finished.\<close>

definition agent_ends_well :: "'s agent_process \<Rightarrow> bool" where
  "agent_ends_well p \<longleftrightarrow> (pa_result p = Some (Ok ()) \<longrightarrow> pa_told p) \<and> (\<forall>e. pa_result p \<noteq> Some (Err e))"

lemma agent_step_ends_well:
  assumes "agent_process_step X post_ch post_vf env interval bip p q" "agent_ends_well p"
  shows "agent_ends_well q"
  using assms
  by (cases rule: agent_process_step.cases)
    (auto simp: agent_ends_well_def)

interpretation agent_result: invariant_system "agent_process_step X post_ch post_vf env interval bip"
  "agent_ends_well" for X post_ch post_vf env interval bip
  by unfold_locales (rule agent_step_ends_well)

section \<open>The server process\<close>

datatype server_task = UpdateTask | ConnsTask | StatsLogTask | ServerHttp | ServerSignal

record server_process =
  ps_system :: system
  ps_stats :: stats_statics
  ps_update :: bool  \<comment> \<open>the task of \<open>spawn_server_update_task\<close> is running\<close>
  ps_conns :: bool
  ps_logger :: bool
  ps_http :: listener
  ps_signal :: bool
  ps_told :: bool
  ps_result :: "(unit, unit) outcome option"

definition server_process_start :: "AppState \<Rightarrow> stats_statics \<Rightarrow> server_process" where
  "server_process_start s g =
     \<lparr>ps_system = \<lparr>sy_state = s, sy_node_tasks = {}, sy_web_tasks = {}\<rparr>, ps_stats = g, ps_update = True,
      ps_conns = True, ps_logger = True, ps_http = Binding, ps_signal = False, ps_told = False, ps_result = None\<rparr>"

fun server_ended :: "server_process \<Rightarrow> server_task \<Rightarrow> bool" where
  "server_ended p UpdateTask \<longleftrightarrow> \<not> ps_update p"
| "server_ended p ConnsTask \<longleftrightarrow> \<not> ps_conns p"
| "server_ended p StatsLogTask \<longleftrightarrow> \<not> ps_logger p"
| "server_ended p ServerHttp \<longleftrightarrow> ps_http p = Closed"
| "server_ended p ServerSignal \<longleftrightarrow> ps_signal p"

text \<open>Beside the log lines, the statistics are refreshed when the log level asks for them.\<close>

definition print_server_stats_task ::
  "(unit, unit) outcome \<Rightarrow> bool \<Rightarrow> instant \<Rightarrow> instant \<Rightarrow> instant \<Rightarrow> instant \<Rightarrow> host_os \<Rightarrow> stats_statics
     \<Rightarrow> (unit, stats_statics) outcome" where
  "print_server_stats_task block_in_place debug_enabled start now now' finished os g =
     (if debug_enabled then obind block_in_place (\<lambda>_. Ok (fst (Stats_refresh start now now' finished os g))) else Ok g)"

fun stats_log_loop ::
  "(unit, unit) outcome \<Rightarrow> bool \<Rightarrow> logger_event list \<Rightarrow> stats_statics \<Rightarrow> (unit, stats_statics) outcome" where
  "stats_log_loop block_in_place debug_enabled [] g = Ok g"
| "stats_log_loop block_in_place debug_enabled (Refresh start now now' finished os # evs) g =
     obind (print_server_stats_task block_in_place debug_enabled start now now' finished os g)
       (stats_log_loop block_in_place debug_enabled evs)"
| "stats_log_loop block_in_place debug_enabled (LoggerShutdown # _) g = Ok g"

text \<open>
  \<open>validate_creds\<close> checks the secret of a token inside \<open>block_in_place\<close>; a claim gets that far if its fields are
  there and it names a token that is known and has not expired.
\<close>

definition claim_verifies :: "instant \<Rightarrow> HeaderMap \<Rightarrow> ClaimNodeRequest \<Rightarrow> AppState \<Rightarrow> bool" where
  "claim_verifies now headers payload s \<longleftrightarrow>
     trim (cn_public_key payload) \<noteq> [] \<and> trim (cn_hostname payload) \<noteq> [] \<and>
     (case extract_bearer_token headers of
        Ok bearer \<Rightarrow>
          (case extract_creds bearer of
             Ok (token_id, _) \<Rightarrow>
               (case get_token_by_id (st_db s) token_id of
                  Ok rec \<Rightarrow> (case tk_expires_at rec of Some e \<Rightarrow> \<not> e < now | None \<Rightarrow> True)
                | _ \<Rightarrow> False)
           | _ \<Rightarrow> False)
      | _ \<Rightarrow> False)"

text \<open>Once bound, the listener serves requests and sockets; the sockets go on while it shuts down.\<close>

inductive server_process_step ::
  "server_ext \<Rightarrow> (unit, unit) outcome \<Rightarrow> bool \<Rightarrow> server_process \<Rightarrow> server_process \<Rightarrow> bool" for X block_in_place debug where
  update_tick: "ps_result p = None \<Longrightarrow> ps_update p \<Longrightarrow>
    y = (ps_system p)\<lparr>sy_state := server_update_loop X stats_json [Tick now] (sy_state (ps_system p))\<rparr> \<Longrightarrow>
    server_process_step X block_in_place debug p (p\<lparr>ps_system := y\<rparr>)"
| conns_tick: "ps_result p = None \<Longrightarrow> ps_conns p \<Longrightarrow>
    y = (ps_system p)\<lparr>sy_state := connections_refresh_loop X [Tick now] (sy_state (ps_system p))\<rparr> \<Longrightarrow>
    server_process_step X block_in_place debug p (p\<lparr>ps_system := y\<rparr>)"
| stats_tick: "ps_result p = None \<Longrightarrow> ps_logger p \<Longrightarrow>
    stats_log_loop block_in_place debug [Refresh start now now' finished os] (ps_stats p) = Ok g \<Longrightarrow>
    server_process_step X block_in_place debug p (p\<lparr>ps_stats := g\<rparr>)"
| stats_panics: "ps_result p = None \<Longrightarrow> ps_logger p \<Longrightarrow>
    stats_log_loop block_in_place debug [Refresh start now now' finished os] (ps_stats p) = Panic \<Longrightarrow>
    server_process_step X block_in_place debug p (p\<lparr>ps_result := Some Panic\<rparr>)"
| update_stops: "ps_result p = None \<Longrightarrow> ps_told p \<Longrightarrow> server_process_step X block_in_place debug p (p\<lparr>ps_update := False\<rparr>)"
| conns_stops: "ps_result p = None \<Longrightarrow> ps_told p \<Longrightarrow> server_process_step X block_in_place debug p (p\<lparr>ps_conns := False\<rparr>)"
| logger_ends: "ps_result p = None \<Longrightarrow> ps_told p \<Longrightarrow> server_process_step X block_in_place debug p (p\<lparr>ps_logger := False\<rparr>)"
| server_http: "ps_result p = None \<Longrightarrow> ev = ShutdownReceived \<longrightarrow> ps_told p \<Longrightarrow>
    server_process_step X block_in_place debug p (p\<lparr>ps_http := start_http_server (ps_http p) ev\<rparr>)"
| serves: "ps_result p = None \<Longrightarrow> ps_http p \<noteq> Binding \<Longrightarrow> server_act X l (ps_system p) y \<Longrightarrow>
    server_process_step X block_in_place debug p (p\<lparr>ps_system := y\<rparr>)"
| claim_panics: "ps_result p = None \<Longrightarrow> ps_http p \<noteq> Binding \<Longrightarrow> block_in_place = Panic \<Longrightarrow>
    claim_verifies now headers payload (sy_state (ps_system p)) \<Longrightarrow>
    server_process_step X block_in_place debug p (p\<lparr>ps_result := Some Panic\<rparr>)"
| signalled: "ps_result p = None \<Longrightarrow> server_process_step X block_in_place debug p (p\<lparr>ps_signal := True\<rparr>)"
| one_ended: "ps_result p = None \<Longrightarrow> server_ended p t \<Longrightarrow> server_process_step X block_in_place debug p (p\<lparr>ps_told := True\<rparr>)"
| ends: "ps_result p = None \<Longrightarrow> ps_told p \<Longrightarrow>
    server_process_step X block_in_place debug p (p\<lparr>ps_result := Some (Ok ())\<rparr>)"

lemma server_step_ended:
  assumes "server_process_step X bip debug p q"
  shows "server_ended q t \<Longrightarrow> server_ended p t \<or> ps_told p \<or> t \<in> {ServerHttp, ServerSignal}"
    and "server_ended p t \<Longrightarrow> server_ended q t"
    and "ps_told q \<Longrightarrow> ps_told p \<or> (\<exists>t. server_ended p t)"
    and "ps_told p \<Longrightarrow> ps_told q"
  using assms by (cases rule: server_process_step.cases; cases t; auto split: if_splits)+

interpretation server_process: supervised "server_process_step X bip debug" server_ended ps_told
  "\<lambda>t. t \<in> {ServerHttp, ServerSignal}" for X bip debug
  by unfold_locales (erule (1) server_step_ended)+

definition server_ends_well :: "server_process \<Rightarrow> bool" where
  "server_ends_well p \<longleftrightarrow> (ps_result p = Some (Ok ()) \<longrightarrow> ps_told p) \<and> (\<forall>e. ps_result p \<noteq> Some (Err e))"

interpretation server_result: invariant_system "server_process_step X bip debug" "server_ends_well" for X bip debug
proof
  fix p q assume "server_process_step X bip debug p q" "server_ends_well p"
  then show "server_ends_well q"
    by (cases rule: server_process_step.cases)
      (auto simp: server_ends_well_def)
qed

text \<open>What the process does to the shared state are steps of the server.\<close>

lemma process_system_steps:
  assumes "server_process_step X bip debug p q"
  shows "(server_step X)\<^sup>*\<^sup>* (ps_system p) (ps_system q)"
  using assms
  by (cases rule: server_process_step.cases)
    (auto intro!: r_into_rtranclp intro: server_stepI server_act.keep_alive server_act.refresh)

interpretation server_run: simulation "server_process_step X bip debug" "\<lambda>p. True" "server_step X" ps_system for X bip debug
  by unfold_locales (auto intro: process_system_steps)

section \<open>The command lines\<close>

text \<open>The arguments a user may leave out have the defaults of the build.\<close>

definition cli_server_default :: "bool \<Rightarrow> string \<times> u16" where
  "cli_server_default debug_assertions =
     (if debug_assertions then (''localhost'', 8080) else (''api.phirepass.com'', 443))"

datatype agent_command =
    StartCmd start_args
  | LoginCmd string u16 pat_source  \<comment> \<open>server\_host, server\_port, where the token comes from\<close>
  | LogoutCmd string u16
  | VersionCmd

datatype plain_command = PlainStart | PlainVersion  \<comment> \<open>of server and relay\<close>

datatype main_error = EnvFailed env_error | LoginFailed login_error | StartFailed start_error | RuntimeNotBuilt

text \<open>What \<open>main\<close> goes on to: it runs a process on its configuration, prints its version, or is done.\<close>

datatype 'env main_result = Run 'env | Printed string | Done

fun main_login :: "state_file \<times> (login_error, unit) outcome \<Rightarrow> state_file \<times> (main_error, 'env main_result) outcome" where
  "main_login (file, Ok _) = (file, Ok Done)"
| "main_login (file, Err e) = (file, Err (LoginFailed e))"
| "main_login (file, Panic) = (file, Panic)"

definition agent_main ::
  "'b tokio \<Rightarrow> creds_ext \<Rightarrow> string \<Rightarrow> environ \<Rightarrow> bytes \<Rightarrow> post_claim \<Rightarrow> write_step option \<Rightarrow> bool \<Rightarrow> agent_command option
     \<Rightarrow> state_file \<Rightarrow> state_file \<times> (main_error, agent_env main_result) outcome" where
  "agent_main T X version environ random post_cl fault removable command file =
     (case agent_runtime T environ of
        Panic \<Rightarrow> (file, Panic)
      | Err _ \<Rightarrow> (file, Err RuntimeNotBuilt)
      | Ok _ \<Rightarrow>
          (case command of
             None \<Rightarrow>
               (case agent_env_init version environ of
                  Ok config \<Rightarrow> (file, Ok (Run config)) | Err e \<Rightarrow> (file, Err (EnvFailed e)) | Panic \<Rightarrow> (file, Panic))
           | Some (StartCmd args) \<Rightarrow>
               (case agent_env_init version environ of
                  Err e \<Rightarrow> (file, Err (EnvFailed e))
                | Panic \<Rightarrow> (file, Panic)
                | Ok config \<Rightarrow>
                    (case start_command X (environ ''HOSTNAME'') random post_cl fault config args file of
                       (file', Ok _) \<Rightarrow> (file', Ok (Run config))
                     | (file', Err e) \<Rightarrow> (file', Err (LoginFailed e))
                     | (file', Panic) \<Rightarrow> (file', Panic)))
           | Some (LoginCmd server_host server_port src) \<Rightarrow>
               main_login (login X version (environ ''HOSTNAME'') random post_cl fault server_host server_port src file)
           | Some (LogoutCmd server_host server_port) \<Rightarrow> main_login (logout X server_host removable file)
           | Some VersionCmd \<Rightarrow> (file, Ok (Printed version))))"

definition server_main ::
  "'b tokio \<Rightarrow> (string \<Rightarrow> unit option) \<Rightarrow> 'addr net \<Rightarrow> string \<Rightarrow> environ \<Rightarrow> uuid \<Rightarrow> Database option \<Rightarrow> MemoryDB option
     \<Rightarrow> plain_command option \<Rightarrow> (main_error, AppState main_result) outcome" where
  "server_main T ip_source N version environ new_id pg rd command =
     (case server_runtime T environ of
        Panic \<Rightarrow> Panic
      | Err _ \<Rightarrow> Err RuntimeNotBuilt
      | Ok _ \<Rightarrow>
          (if command = Some PlainVersion then Ok (Printed version)
           else case server_env_init ip_source environ of
             Err e \<Rightarrow> Err (EnvFailed e)
           | Panic \<Rightarrow> Panic
           | Ok config \<Rightarrow>
               (case server_start N environ config new_id pg rd of
                  Ok s \<Rightarrow> Ok (Run s) | Err e \<Rightarrow> Err (StartFailed e) | Panic \<Rightarrow> Panic)))"

text \<open>
  The relay builds a runtime for the connection to Redis, then \<open>http_proxy_service\<close> of pingora is bound to the
  configured address and runs for ever; \<open>READY\<close> is set before it does.
\<close>

definition relay_start :: "bool \<Rightarrow> bool \<Rightarrow> relay_env \<Rightarrow> (start_error, string) outcome" where
  "relay_start runtime_built redis_up config =
     (if \<not> runtime_built \<or> \<not> redis_up then Err MemoryDbCreateFailed
      else Ok (re_host config @ '':'' @ dec_digits (unat (re_port config))))"

definition relay_main ::
  "string \<Rightarrow> environ \<Rightarrow> bool \<Rightarrow> bool \<Rightarrow> plain_command option \<Rightarrow> (main_error, string main_result) outcome" where
  "relay_main version environ runtime_built redis_up command =
     (if command = Some PlainVersion then Ok (Printed version)
      else case relay_env_init environ of
        Err e \<Rightarrow> Err (EnvFailed e)
      | Panic \<Rightarrow> Panic
      | Ok config \<Rightarrow>
          (case relay_start runtime_built redis_up config of
             Ok addr \<Rightarrow> Ok (Run addr) | Err e \<Rightarrow> Err (StartFailed e) | Panic \<Rightarrow> Panic))"

section \<open>Properties\<close>

lemma agent_start_clean: "\<not> pa_told (agent_start w g)" "\<not> agent_ended (agent_start w g) t"
  "agent_ends_well (agent_start w g)"
  by (cases t; simp add: agent_start_def agent_ends_well_def)+

lemma server_start_clean: "\<not> ps_told (server_process_start s g)" "\<not> server_ended (server_process_start s g) t"
  "server_ends_well (server_process_start s g)"
  by (cases t; simp add: server_process_start_def server_ends_well_def)+

text \<open>
  C25: an agent runs until it is told to stop: a process that has ended normally was interrupted, or its
  version endpoint could not be served. Short of a panic it never reports an error: when the port of
  the endpoint is taken, the agent stops and reports success.
\<close>

theorem agent_runs_until_told:
  assumes "(agent_process_step X post_ch post_vf env interval bip)\<^sup>*\<^sup>* (agent_start w g) p"
  shows "(pa_result p = Some (Ok ()) \<longrightarrow> pa_signal p \<or> pa_http p = Closed) \<and>
    (\<forall>e. pa_result p \<noteq> Some (Err e)) \<and>
    (pa_result p = None \<and> pa_http p = Binding \<longrightarrow>
      (\<exists>q. (agent_process_step X post_ch post_vf env interval bip)\<^sup>*\<^sup>* p q \<and> pa_result q = Some (Ok ()) \<and>
         pa_signal q = pa_signal p))"
proof (intro conjI impI; (elim conjE)?)
  have well: "agent_ends_well p"
    by (rule agent_result.reachable_inv [OF assms agent_start_clean(3)])
  assume "pa_result p = Some (Ok ())"
  with well have "pa_told p"
    by (simp add: agent_ends_well_def)
  then show "pa_signal p \<or> pa_http p = Closed"
    using agent_process.told_because(1) [OF assms agent_start_clean(1,2)] by auto
next
  have "agent_ends_well p"
    by (rule agent_result.reachable_inv [OF assms agent_start_clean(3)])
  then show "\<forall>e. pa_result p \<noteq> Some (Err e)"
    by (simp add: agent_ends_well_def)
next
  let ?step = "agent_process_step X post_ch post_vf env interval bip"
  let ?q = "p\<lparr>pa_http := Closed\<rparr>"
  assume p: "pa_result p = None" "pa_http p = Binding"
  have "?step p ?q"
    using agent_process_step.http [of p "BindResult False"] p by simp
  moreover have "?step ?q (?q\<lparr>pa_told := True\<rparr>)"
    by (rule agent_process_step.selects [of _ HttpTask]) (use p in simp_all)
  moreover have "?step (?q\<lparr>pa_told := True\<rparr>) (?q\<lparr>pa_told := True, pa_result := Some (Ok ())\<rparr>)"
    using agent_process_step.exits [of "?q\<lparr>pa_told := True\<rparr>"] p by simp
  ultimately have "?step\<^sup>*\<^sup>* p (?q\<lparr>pa_told := True, pa_result := Some (Ok ())\<rparr>)"
    by (meson converse_rtranclp_into_rtranclp r_into_rtranclp)
  then show "\<exists>q. ?step\<^sup>*\<^sup>* p q \<and> pa_result q = Some (Ok ()) \<and> pa_signal q = pa_signal p"
    by (intro exI [of _ "?q\<lparr>pa_told := True, pa_result := Some (Ok ())\<rparr>"]) simp
qed

text \<open>
  C26: what holds of the server's tasks holds of the process: from a successful start to the end, the
  registries are well formed and the mailboxes and tunnels are those of a run of the broker; the
  process ends normally only when it is interrupted or cannot serve its port, and then with success.
\<close>

theorem server_process_safe:
  assumes "server_start N env config new_id pg rd = Ok s"
    and "(server_process_step X bip debug)\<^sup>*\<^sup>* (server_process_start s g) p"
  shows "system_inv (ps_system p) \<and> (broker_step X)\<^sup>*\<^sup>* empty_broker (broker_of (sy_state (ps_system p))) \<and>
    (ps_result p = Some (Ok ()) \<longrightarrow> ps_signal p \<or> ps_http p = Closed) \<and>
    (\<forall>e. ps_result p \<noteq> Some (Err e))"
proof -
  have "server_reachable X \<lparr>sy_state = s, sy_node_tasks = {}, sy_web_tasks = {}\<rparr> (ps_system p)"
    using server_run.reachable_sim [OF assms(2)] by (simp add: server_process_start_def)
  note run = started_server_runs_broker [OF assms(1) this]
  have "server_ends_well p"
    by (rule server_result.reachable_inv [OF assms(2) server_start_clean(3)])
  then have "ps_result p = Some (Ok ()) \<longrightarrow> ps_told p" "\<forall>e. ps_result p \<noteq> Some (Err e)"
    by (auto simp: server_ends_well_def)
  moreover have "ps_told p \<longrightarrow> ps_signal p \<or> ps_http p = Closed"
    using server_process.told_because(1) [OF assms(2) server_start_clean(1,2)] by auto
  ultimately show ?thesis
    using run by blast
qed

text \<open>
  C39: on a current-thread runtime, which \<open>TOKIO_FLAVOR\<close> selects, the agent cannot run: no refresh of the
  statistics ever completes, and the first tick of their logger, which is immediate, aborts the
  process.
\<close>

theorem current_thread_aborts_agent:
  assumes "tokio_documented T" "agent_runtime T environ = Ok b" "environ ''TOKIO_FLAVOR'' = Some ''current_thread''"
    and "(agent_process_step X post_ch post_vf env (\<lambda>_. Ok ()) (tk_block_in_place T b))\<^sup>*\<^sup>* (agent_start w g) p"
  shows "pa_stats p = g \<and>
    (pa_result p = None \<and> pa_logger p \<longrightarrow>
       (\<exists>q. agent_process_step X post_ch post_vf env (\<lambda>_. Ok ()) (tk_block_in_place T b) p q \<and> pa_result q = Some Panic))"
proof -
  let ?step = "agent_process_step X post_ch post_vf env (\<lambda>_. Ok ()) (tk_block_in_place T b)"
  have "tk_block_in_place T b = Panic"
    using block_in_place_panics_iff [OF assms(1), of environ b] assms(2,3) by simp
  then have tick: "spawn_stats_logger (\<lambda>_. Ok ()) (tk_block_in_place T b) env [Refresh start now now' finished os] g' = Panic"
    for start now now' finished os g'
    by (simp add: spawn_stats_logger_def obind_def)
  have keep: "pa_stats q = pa_stats p" if "?step p q" for p q
    using that by (cases rule: agent_process_step.cases) (simp_all add: tick)
  from assms(4) have "pa_stats p = g"
    by (induction rule: rtranclp_induct) (simp_all add: agent_start_def keep)
  moreover have "\<exists>q. ?step p q \<and> pa_result q = Some Panic" if "pa_result p = None" "pa_logger p"
    using agent_process_step.logger_panics [OF that tick]
    by (intro exI [of _ "p\<lparr>pa_result := Some Panic\<rparr>"]) simp
  ultimately show ?thesis
    by blast
qed

lemma failed_login_keeps_file:
  "bootstrap_identity X v hn random post_cl fault host port pat file = (file', Err e) \<Longrightarrow> file' = file"
  "login X v hn random post_cl fault host port src file = (file', Err e) \<Longrightarrow> file' = file"
  "logout X host removable file = (file', Err e) \<Longrightarrow> file' = file"
  "start_command X hn random post_cl fault env args file = (file', Err e) \<Longrightarrow> file' = file"
proof -
  show b: "bootstrap_identity X v hn random post_cl fault host port pat file = (file', Err e) \<Longrightarrow> file' = file"
    for v host port pat
    by (auto simp: bootstrap_identity_def save_identity_def atomic_write_def Let_def
        split: option.splits if_splits outcome.splits)
  show "login X v hn random post_cl fault host port src file = (file', Err e) \<Longrightarrow> file' = file"
    by (auto simp: login_def split: outcome.splits dest: b)
  show "logout X host removable file = (file', Err e) \<Longrightarrow> file' = file"
    by (auto simp: logout_def delete_state_file_def split: outcome.splits if_splits state_file.splits)
  show "start_command X hn random post_cl fault env args file = (file', Err e) \<Longrightarrow> file' = file"
    by (auto simp: start_command_def save_token_def split: option.splits outcome.splits prod.splits dest: b)
qed

lemma main_login_cases:
  "main_login x = (file', Err e) \<longleftrightarrow> (\<exists>e'. e = LoginFailed e' \<and> x = (file', Err e'))"
  "main_login x = (file', Ok r) \<longleftrightarrow> r = Done \<and> (\<exists>u. x = (file', Ok u))"
  by (cases x rule: main_login.cases; auto)+

text \<open>
  C38: a command of the agent that fails, for whatever reason, leaves the stored identity as it was; and
  after a login that succeeded, an agent started for the same server finds its identity.
\<close>

theorem failed_command_keeps_identity:
  assumes "creds_laws X" "length random = 32" "\<And>u t b. post_cl u t b \<noteq> Some uuid_nil"
  shows "(agent_main T X version environ random post_cl fault removable command file = (file', Err e) \<longrightarrow> file' = file) \<and>
    (agent_main T X version environ random post_cl fault removable (Some (LoginCmd host port src)) file = (file', Ok r) \<and>
       agent_env_init version environ = Ok env \<and> strip_scheme (ae_server_host env) = strip_scheme host \<longrightarrow>
       agent_main T X version environ random post_cl fault removable None file' = (file', Ok (Run env)) \<and>
       load_creds_for_server X (strip_scheme (ae_server_host env)) file' \<noteq> None)"
proof (intro conjI impI; (elim conjE)?)
  assume "agent_main T X version environ random post_cl fault removable command file = (file', Err e)"
  then show "file' = file"
    by (auto simp: agent_main_def main_login_cases dest: failed_login_keeps_file
        split: outcome.splits option.splits agent_command.splits prod.splits)
next
  assume m: "agent_main T X version environ random post_cl fault removable (Some (LoginCmd host port src)) file = (file', Ok r)"
    and env: "agent_env_init version environ = Ok env" "strip_scheme (ae_server_host env) = strip_scheme host"
  obtain b pat where b: "agent_runtime T environ = Ok b"
    and id: "bootstrap_identity X version (environ ''HOSTNAME'') random post_cl fault (strip_scheme host) port pat file = (file', Ok ())"
    using m by (auto simp: agent_main_def main_login_cases login_def split: outcome.splits)
  show "agent_main T X version environ random post_cl fault removable None file' = (file', Ok (Run env))"
    using b env(1) by (simp add: agent_main_def)
  show "load_creds_for_server X (strip_scheme (ae_server_host env)) file' \<noteq> None"
    using bootstrap_identity_Ok(1,2) [OF id assms] env(2) by (auto simp: load_creds_for_server_def)
qed

section \<open>Runs\<close>

text \<open>An agent whose port is taken; no server answers it.\<close>

abbreviation lone_agent :: "(unit, unit) outcome \<Rightarrow> unit agent_process \<Rightarrow> unit agent_process \<Rightarrow> bool" where
  "lone_agent bip \<equiv> agent_process_step example_creds (\<lambda>_ _ s. (s, None)) (\<lambda>_ _ _ _ s. (s, None)) other_host_env (\<lambda>_. Ok ()) bip"

theorem agent_runs_until_told_witness:
  "\<exists>p. (lone_agent (Ok ()))\<^sup>*\<^sup>* (agent_start () fresh_statics) p \<and> pa_result p = Some (Ok ()) \<and> \<not> pa_signal p \<and>
     pa_http p = Closed"
proof -
  have "(lone_agent (Ok ()))\<^sup>*\<^sup>* (agent_start () fresh_statics) (agent_start () fresh_statics)"
    by simp
  from agent_runs_until_told [OF this] obtain p
    where p: "(lone_agent (Ok ()))\<^sup>*\<^sup>* (agent_start () fresh_statics) p" "pa_result p = Some (Ok ())" "\<not> pa_signal p"
    by (auto simp: agent_start_def)
  with agent_runs_until_told [OF p(1)] show ?thesis
    by blast
qed

theorem server_process_safe_witness:
  "\<exists>s p. server_start example_net [''STUN_SERVERS'' \<mapsto> ''a, b''] example_env 42 (Some example_db)
        (Some \<lparr>rd_log = [], rd_fails = (\<lambda>_. False)\<rparr>) = Ok s \<and>
     (server_process_step example_ext (Ok ()) False)\<^sup>*\<^sup>* (server_process_start s fresh_statics) p \<and>
     ps_result p = Some (Ok ()) \<and> ps_http p = Closed \<and> system_inv (ps_system p)"
proof -
  obtain s where s: "server_start example_net [''STUN_SERVERS'' \<mapsto> ''a, b''] example_env 42 (Some example_db)
      (Some \<lparr>rd_log = [], rd_fails = (\<lambda>_. False)\<rparr>) = Ok s"
    by (simp add: server_start_def create_server_identifier_def example_public_address obind_def)
      (simp add: example_net_def)
  let ?step = "server_process_step example_ext (Ok ()) False"
  let ?p0 = "server_process_start s fresh_statics"
  let ?p1 = "?p0\<lparr>ps_http := Closed\<rparr>"
  let ?p2 = "?p1\<lparr>ps_told := True\<rparr>"
  let ?p3 = "?p2\<lparr>ps_result := Some (Ok ())\<rparr>"
  have "?step ?p0 ?p1"
    using server_process_step.server_http [of ?p0 "BindResult False" example_ext "Ok ()" False]
    by (simp add: server_process_start_def)
  moreover have "?step ?p1 ?p2"
    by (rule server_process_step.one_ended [of _ ServerHttp]) (simp_all add: server_process_start_def)
  moreover have "?step ?p2 ?p3"
    by (rule server_process_step.ends) (simp_all add: server_process_start_def)
  ultimately have r: "?step\<^sup>*\<^sup>* ?p0 ?p3"
    by (meson converse_rtranclp_into_rtranclp r_into_rtranclp)
  show ?thesis
    using s r server_process_safe [OF s r] by (intro exI [of _ s] exI [of _ ?p3]) simp
qed

theorem current_thread_aborts_agent_witness:
  "\<exists>b p. agent_runtime example_tokio [''TOKIO_FLAVOR'' \<mapsto> ''current_thread''] = Ok b \<and>
     lone_agent (tk_block_in_place example_tokio b) (agent_start () fresh_statics) p \<and> pa_result p = Some Panic"
proof -
  have b: "agent_runtime example_tokio [''TOKIO_FLAVOR'' \<mapsto> ''current_thread''] = Ok (True, Some 2, 32)"
    by (simp add: agent_runtime_def RuntimeBuilder_create_def with_worker_threads_def obind_def example_tokio_def)
  have "pa_result (agent_start () fresh_statics) = None" "pa_logger (agent_start () fresh_statics)"
    by (simp_all add: agent_start_def)
  then have "\<exists>q. lone_agent (tk_block_in_place example_tokio (True, Some 2, 32)) (agent_start () fresh_statics) q \<and>
      pa_result q = Some Panic"
    using current_thread_aborts_agent [OF example_tokio_documented b _ rtranclp.rtrancl_refl, where w = "()"] by simp
  with b show ?thesis
    by blast
qed

theorem failed_command_keeps_identity_witness:
  "let main = agent_main example_tokio example_creds ''1'' [''SERVER_HOST'' \<mapsto> ''h''] (replicate 32 107) (\<lambda>_ _ _. Some 1) None True
   in \<exists>env. main (Some (LoginCmd ''https://h'' 443 (FromStdin (Some ''t'')))) Missing = (Content ''{}'', Ok Done) \<and>
      main None (Content ''{}'') = (Content ''{}'', Ok (Run env)) \<and>
      load_creds_for_server example_creds (strip_scheme (ae_server_host env)) (Content ''{}'') \<noteq> None"
proof -
  let ?e = "[''SERVER_HOST'' \<mapsto> ''h'']"
  have "load_identity example_creds ''h'' Missing = Err NilNodeId"
    by (simp add: load_identity_def load_state_from_file_def StoredState_default_def)
  moreover have "is_ok (agent_runtime example_tokio ?e)"
    by (simp add: agent_runtime_def RuntimeBuilder_create_def with_worker_threads_def obind_def example_tokio_def)
  ultimately have m: "agent_main example_tokio example_creds ''1'' ?e (replicate 32 107) (\<lambda>_ _ _. Some 1) None True
      (Some (LoginCmd ''https://h'' 443 (FromStdin (Some ''t'')))) Missing = (Content ''{}'', Ok Done)"
    by (auto simp: is_ok_conv agent_main_def login_def read_pat_def bootstrap_identity_def strip_scheme_example
        generate_identity_def save_identity_def example_creds_def atomic_write_def Let_def char_k)
  obtain env where "agent_env_init ''1'' ?e = Ok env" "ae_server_host env = ''h''"
    by (simp add: agent_env_init_def env_var_def obind_def default_numbers default_words)
  then have "agent_main example_tokio example_creds ''1'' ?e (replicate 32 107) (\<lambda>_ _ _. Some 1) None True
        None (Content ''{}'') = (Content ''{}'', Ok (Run env)) \<and>
      load_creds_for_server example_creds (strip_scheme (ae_server_host env)) (Content ''{}'') \<noteq> None"
    using m failed_command_keeps_identity [OF example_creds_laws, where random = "replicate 32 107" and
        post_cl = "\<lambda>_ _ _. Some 1" and T = example_tokio and version = "''1''" and environ = ?e and fault = None and
        removable = True and host = "''https://h''" and port = 443 and src = "FromStdin (Some ''t'')" and ?file = Missing and
        file' = "Content ''{}''" and r = Done and env = env]
    by (simp add: strip_scheme_example del: not_None_eq)
  with m show ?thesis
    unfolding Let_def by blast
qed

end
