(* ===== verification/Channel.thy ===== *)
theory Channel
  imports Protocol Transition
begin

text \<open>
  The browser client (\<open>channel/src/lib.rs\<close>, compiled to WebAssembly): a websocket, the
  frames it sends on it, its heartbeat timer and the callbacks it was given. The browser's
  socket and timers are explicit state; JavaScript callbacks are identifiers.
\<close>

section \<open>State\<close>

datatype ready_state = CONNECTING | OPEN | CLOSING | CLOSED

text \<open>A socket, with the messages sent on it and the callbacks its handlers captured.\<close>

type_synonym callback = nat

record ChannelCallbacks =
  cb_connection_open :: "callback option"
  cb_connection_error :: "callback option"
  cb_connection_close :: "callback option"
  cb_connection_message :: "callback option"
  cb_protocol_message :: "callback option"

record socket =
  ws_ready :: ready_state
  ws_sent :: "bytes list"
  ws_handlers :: ChannelCallbacks

text \<open>\<open>ch_timers\<close> are the intervals the browser runs, by identifier, with their period.\<close>

record browser_channel =
  bc_endpoint :: string
  bc_node_id :: string
  bc_server_id :: "string option"
  bc_socket :: "socket option"
  bc_heartbeat :: "nat option"
  bc_callbacks :: ChannelCallbacks
  bc_timers :: "(nat, u32) dashmap"
  bc_next_timer :: nat

definition no_callbacks :: ChannelCallbacks where
  "no_callbacks = \<lparr>cb_connection_open = None, cb_connection_error = None, cb_connection_close = None,
     cb_connection_message = None, cb_protocol_message = None\<rparr>"

definition Channel_new :: "string \<Rightarrow> string \<Rightarrow> string option \<Rightarrow> browser_channel" where
  "Channel_new endpoint node_id server_id =
     \<lparr>bc_endpoint = endpoint, bc_node_id = node_id, bc_server_id = server_id, bc_socket = None,
      bc_heartbeat = None, bc_callbacks = no_callbacks, bc_timers = [], bc_next_timer = 0\<rparr>"

section \<open>Connecting\<close>

text \<open>
  The \<open>WebSocket\<close> constructor is the argument \<open>ws_new\<close>: whether it accepts the address
  and the sub-protocol string, or throws. Dropping an \<open>Interval\<close> cancels it. The handlers
  capture the callbacks that are registered at this moment.
\<close>

definition sub_protocols :: "browser_channel \<Rightarrow> string" where
  "sub_protocols c =
     (case bc_server_id c of
        None \<Rightarrow> bc_node_id c
      | Some server_id \<Rightarrow> bc_node_id c @ '','' @ server_id)"

definition drop_interval :: "browser_channel \<Rightarrow> browser_channel" where
  "drop_interval c =
     (case bc_heartbeat c of
        None \<Rightarrow> c
      | Some t \<Rightarrow> c\<lparr>bc_timers := dm_remove t (bc_timers c), bc_heartbeat := None\<rparr>)"

definition channel_connect :: "(string \<Rightarrow> string \<Rightarrow> bool) \<Rightarrow> browser_channel \<Rightarrow> browser_channel" where
  "channel_connect ws_new c =
     (if ws_new (bc_endpoint c) (sub_protocols c)
      then (drop_interval c)\<lparr>bc_socket :=
             Some \<lparr>ws_ready = CONNECTING, ws_sent = [], ws_handlers = bc_callbacks c\<rparr>\<rparr>
      else c)"

definition on_connection_open :: "callback option \<Rightarrow> browser_channel \<Rightarrow> browser_channel" where
  "on_connection_open f c = c\<lparr>bc_callbacks := (bc_callbacks c)\<lparr>cb_connection_open := f\<rparr>\<rparr>"

definition on_connection_error :: "callback option \<Rightarrow> browser_channel \<Rightarrow> browser_channel" where
  "on_connection_error f c = c\<lparr>bc_callbacks := (bc_callbacks c)\<lparr>cb_connection_error := f\<rparr>\<rparr>"

definition on_connection_message :: "callback option \<Rightarrow> browser_channel \<Rightarrow> browser_channel" where
  "on_connection_message f c = c\<lparr>bc_callbacks := (bc_callbacks c)\<lparr>cb_connection_message := f\<rparr>\<rparr>"

definition on_connection_close :: "callback option \<Rightarrow> browser_channel \<Rightarrow> browser_channel" where
  "on_connection_close f c = c\<lparr>bc_callbacks := (bc_callbacks c)\<lparr>cb_connection_close := f\<rparr>\<rparr>"

definition on_protocol_message :: "callback option \<Rightarrow> browser_channel \<Rightarrow> browser_channel" where
  "on_protocol_message f c = c\<lparr>bc_callbacks := (bc_callbacks c)\<lparr>cb_protocol_message := f\<rparr>\<rparr>"

section \<open>Sending\<close>

definition is_connected :: "browser_channel \<Rightarrow> bool" where
  "is_connected c = (case bc_socket c of Some ws \<Rightarrow> ws_ready ws = OPEN | None \<Rightarrow> False)"

definition is_disconnected :: "browser_channel \<Rightarrow> bool" where
  "is_disconnected c = (case bc_socket c of Some ws \<Rightarrow> ws_ready ws = CLOSED | None \<Rightarrow> False)"

text \<open>A send on an open socket does not throw.\<close>

definition channel_send :: "codec \<Rightarrow> WebFrameData \<Rightarrow> browser_channel \<Rightarrow> browser_channel" where
  "channel_send C data c =
     (if \<not> is_connected c then c
      else case Frame_encode C (Frame_from_web data) of
        Ok raw \<Rightarrow>
          (case bc_socket c of
             Some ws \<Rightarrow> c\<lparr>bc_socket := Some (ws\<lparr>ws_sent := ws_sent ws @ [raw]\<rparr>)\<rparr>
           | None \<Rightarrow> c)
      | _ \<Rightarrow> c)"

definition channel_authenticate where
  "channel_authenticate C version token node_id mid = channel_send C (WAuth token node_id version mid)"

definition open_ssh_tunnel where
  "open_ssh_tunnel C node_id username password mid =
     channel_send C (WOpenTunnel (Protocol_as_u8 SSH) node_id username password mid)"

definition open_sftp_tunnel where
  "open_sftp_tunnel C node_id username password mid =
     channel_send C (WOpenTunnel (Protocol_as_u8 SFTP) node_id username password mid)"

definition channel_resize where
  "channel_resize C node_id sid cols rows px_width px_height =
     channel_send C (WSSHWindowResize node_id sid cols rows px_width px_height)"

text \<open>\<open>String::into_bytes\<close> is the argument \<open>str_bytes\<close>.\<close>

definition channel_ssh_data where
  "channel_ssh_data C str_bytes node_id sid data =
     channel_send C (WTunnelData (Protocol_as_u8 SSH) node_id sid (str_bytes data))"

definition channel_sftp_list where
  "channel_sftp_list C node_id sid path mid = channel_send C (WSFTPList node_id path sid mid)"

definition channel_download_start where
  "channel_download_start C node_id sid path filename mid =
     channel_send C (WSFTPDownloadStart node_id sid mid \<lparr>dl_path = path, dl_filename = filename\<rparr>)"

definition channel_download_chunk where
  "channel_download_chunk C node_id sid download_id chunk_index mid =
     channel_send C (WSFTPDownloadChunkRequest node_id sid mid download_id chunk_index)"

definition channel_upload_start where
  "channel_upload_start C node_id sid filename remote_path total_chunks total_size mid =
     channel_send C (WSFTPUploadStart node_id sid mid
       \<lparr>ul_filename = filename, ul_remote_path = remote_path, ul_total_chunks = total_chunks,
        ul_total_size = total_size\<rparr>)"

definition channel_upload_chunk where
  "channel_upload_chunk C node_id sid upload_id chunk_index chunk_size data mid =
     channel_send C (WSFTPUpload node_id sid mid
       \<lparr>ulc_upload_id = upload_id, ulc_chunk_index = chunk_index, ulc_chunk_size = chunk_size, ulc_data = data\<rparr>)"

definition channel_delete where
  "channel_delete C node_id sid path filename mid =
     channel_send C (WSFTPDelete node_id sid mid \<lparr>del_path = path, del_filename = filename\<rparr>)"

section \<open>Heartbeats and disconnecting\<close>

definition stop_heartbeat :: "browser_channel \<Rightarrow> browser_channel" where
  "stop_heartbeat c = (drop_interval c)\<lparr>bc_heartbeat := None\<rparr>"

definition start_heartbeat :: "codec \<Rightarrow> u32 \<Rightarrow> browser_channel \<Rightarrow> browser_channel" where
  "start_heartbeat C interval_as_millis c =
     (let c1 = stop_heartbeat c;
          millis = (if interval_as_millis = 0 then 15000 else interval_as_millis);
          c2 = channel_send C WHeartbeat c1;
          t = bc_next_timer c2
      in c2\<lparr>bc_timers := dm_insert t millis (bc_timers c2), bc_next_timer := t + 1, bc_heartbeat := Some t\<rparr>)"

text \<open>A running interval fires: the closure sends a heartbeat on a clone of the channel.\<close>

definition timer_fires :: "codec \<Rightarrow> browser_channel \<Rightarrow> browser_channel" where
  "timer_fires C c = channel_send C WHeartbeat c"

definition channel_disconnect :: "browser_channel \<Rightarrow> browser_channel" where
  "channel_disconnect c = (stop_heartbeat c)\<lparr>bc_socket := None\<rparr>"

section \<open>Receiving\<close>

text \<open>
  What a message event carries. \<open>channel_receive\<close> is the frame handed to the callback for
  protocol messages; serialising it for JavaScript is left to the caller.
\<close>

datatype message_data = TextData string | BufferData bytes | OtherData

definition channel_receive :: "codec \<Rightarrow> message_data \<Rightarrow> (unit, Frame option) outcome" where
  "channel_receive C data =
     (case data of
        TextData _ \<Rightarrow> Ok None
      | OtherData \<Rightarrow> Ok None
      | BufferData bs \<Rightarrow>
          (case Frame_decode Wasm32 C bs of
             Ok frame \<Rightarrow> Ok (Some frame)
           | Err _ \<Rightarrow> Ok None
           | Panic \<Rightarrow> Panic))"

text \<open>The handler of a socket: the callbacks called, each with what it is given.\<close>

datatype callback_arg = ArgEvent message_data | ArgFrame Frame

definition on_message ::
  "codec \<Rightarrow> socket \<Rightarrow> message_data \<Rightarrow> (unit, (callback \<times> callback_arg) list) outcome" where
  "on_message C ws data =
     (let raw = (case cb_connection_message (ws_handlers ws) of None \<Rightarrow> [] | Some f \<Rightarrow> [(f, ArgEvent data)])
      in case cb_protocol_message (ws_handlers ws) of
           None \<Rightarrow> Ok raw
         | Some f \<Rightarrow>
             (case channel_receive C data of
                Ok None \<Rightarrow> Ok raw
              | Ok (Some frame) \<Rightarrow> Ok (raw @ [(f, ArgFrame frame)])
              | Err e \<Rightarrow> Err e
              | Panic \<Rightarrow> Panic))"

text \<open>The channel's own \<open>Protocol::try_from\<close>.\<close>

definition Channel_Protocol_try_from :: "u8 \<Rightarrow> (string, Protocol) outcome" where
  "Channel_Protocol_try_from v = (if v = 0 then Ok SSH else Err ''Unknown protocol variant'')"

section \<open>The browser\<close>

text \<open>
  Documented behaviour of \<open>new WebSocket(url, protocol)\<close>: a sub-protocol must be a token,
  so a string with a separator such as a comma throws a \<open>SyntaxError\<close>.
\<close>

definition rejects_separators :: "(string \<Rightarrow> string \<Rightarrow> bool) \<Rightarrow> bool" where
  "rejects_separators ws_new \<longleftrightarrow> (\<forall>url p. CHR '','' \<in> set p \<longrightarrow> \<not> ws_new url p)"

text \<open>The steps of a page: the methods it calls and the events of its socket and timers.\<close>

inductive channel_step :: "codec \<Rightarrow> (string \<Rightarrow> string \<Rightarrow> bool) \<Rightarrow> browser_channel \<Rightarrow> browser_channel \<Rightarrow> bool"
  for C ws_new where
  connect: "channel_step C ws_new c (channel_connect ws_new c)"
| send: "channel_step C ws_new c (channel_send C d c)"
| heartbeat_start: "channel_step C ws_new c (start_heartbeat C millis c)"
| heartbeat_stop: "channel_step C ws_new c (stop_heartbeat c)"
| fire: "dm_get (bc_timers c) t = Some millis \<Longrightarrow> channel_step C ws_new c (timer_fires C c)"
| disconnect: "channel_step C ws_new c (channel_disconnect c)"
| socket_event: "bc_socket c = Some ws \<Longrightarrow>
    channel_step C ws_new c (c\<lparr>bc_socket := Some (ws\<lparr>ws_ready := r\<rparr>)\<rparr>)"
| callbacks: "channel_step C ws_new c (c\<lparr>bc_callbacks := cbs\<rparr>)"

definition channel_reachable :: "codec \<Rightarrow> (string \<Rightarrow> string \<Rightarrow> bool) \<Rightarrow> browser_channel \<Rightarrow> bool" where
  "channel_reachable C ws_new c \<longleftrightarrow>
     (\<exists>endpoint node_id server_id. (channel_step C ws_new)\<^sup>*\<^sup>* (Channel_new endpoint node_id server_id) c)"

lemma channel_reachable_intros:
  "channel_reachable C ws_new (Channel_new endpoint node_id server_id)"
  "channel_reachable C ws_new c \<Longrightarrow> channel_step C ws_new c c' \<Longrightarrow> channel_reachable C ws_new c'"
  unfolding channel_reachable_def by (blast intro: rtranclp.rtrancl_into_rtrancl)+

section \<open>Lemmas\<close>

lemma channel_send_fields [simp]:
  "bc_heartbeat (channel_send C d c) = bc_heartbeat c"
  "bc_timers (channel_send C d c) = bc_timers c"
  "bc_next_timer (channel_send C d c) = bc_next_timer c"
  "bc_server_id (channel_send C d c) = bc_server_id c"
  "bc_node_id (channel_send C d c) = bc_node_id c"
  "bc_socket (channel_send C d c) = None \<longleftrightarrow> bc_socket c = None"
  by (auto simp: channel_send_def is_connected_def split: option.splits outcome.splits)

lemma drop_interval_fields [simp]:
  "bc_heartbeat (drop_interval c) = None"
  "bc_socket (drop_interval c) = bc_socket c"
  "bc_server_id (drop_interval c) = bc_server_id c"
  by (simp_all add: drop_interval_def split: option.splits)

text \<open>The one running timer is the one the channel knows of.\<close>

definition timers_tracked :: "browser_channel \<Rightarrow> bool" where
  "timers_tracked c \<longleftrightarrow>
     (case bc_heartbeat c of None \<Rightarrow> bc_timers c = [] | Some t \<Rightarrow> \<exists>millis. bc_timers c = [(t, millis)])"

lemma timers_tracked_drop: "timers_tracked c \<Longrightarrow> bc_timers (drop_interval c) = []"
  by (auto simp: timers_tracked_def drop_interval_def dm_remove_def split: option.splits)

lemma timers_tracked_step: "channel_step C ws_new c c' \<Longrightarrow> timers_tracked c \<Longrightarrow> timers_tracked c'"
proof (induction rule: channel_step.induct)
  case (connect c)
  then show ?case
    using timers_tracked_drop [of c] by (simp add: channel_connect_def timers_tracked_def)
next
  case (heartbeat_start c millis)
  then show ?case
    using timers_tracked_drop [of c]
    by (simp add: start_heartbeat_def stop_heartbeat_def timers_tracked_def Let_def dm_insert_def)
next
  case (heartbeat_stop c)
  then show ?case
    using timers_tracked_drop [of c] by (simp add: stop_heartbeat_def timers_tracked_def)
next
  case (disconnect c)
  then show ?case
    using timers_tracked_drop [of c] by (simp add: channel_disconnect_def stop_heartbeat_def timers_tracked_def)
qed (simp_all add: timers_tracked_def timer_fires_def split: option.splits)

interpretation timers: invariant_system "channel_step C ws_new" timers_tracked for C ws_new
  by unfold_locales (rule timers_tracked_step)

lemma server_id_step: "channel_step C ws_new c c' \<Longrightarrow> bc_server_id c' = bc_server_id c"
  by (induction rule: channel_step.induct)
    (simp_all add: channel_connect_def start_heartbeat_def stop_heartbeat_def channel_disconnect_def timer_fires_def Let_def)

lemma hinted_socket_step:
  assumes "rejects_separators ws_new" "channel_step C ws_new c c'" "bc_server_id c \<noteq> None" "bc_socket c = None"
  shows "bc_socket c' = None"
  using assms(2,3,4)
proof (induction rule: channel_step.induct)
  case (connect c)
  have "CHR '','' \<in> set (sub_protocols c)"
    using connect by (auto simp: sub_protocols_def)
  then show ?case
    using assms(1) connect by (simp add: channel_connect_def rejects_separators_def)
qed (simp_all add: start_heartbeat_def stop_heartbeat_def channel_disconnect_def timer_fires_def Let_def)

section \<open>Properties\<close>

text \<open>
  However the page starts, stops and restarts heartbeats, connects and disconnects, at
  most one heartbeat timer runs, and it is the one the channel would cancel.
\<close>

theorem single_heartbeat_timer:
  assumes "channel_reachable C ws_new c"
  shows "case bc_heartbeat c of None \<Rightarrow> bc_timers c = [] | Some t \<Rightarrow> \<exists>millis. bc_timers c = [(t, millis)]"
proof -
  obtain endpoint node_id server_id where "(channel_step C ws_new)\<^sup>*\<^sup>* (Channel_new endpoint node_id server_id) c"
    using assms unfolding channel_reachable_def by blast
  then have "timers_tracked c"
    by (rule timers.reachable_inv) (simp add: timers_tracked_def Channel_new_def)
  then show ?thesis
    by (simp add: timers_tracked_def)
qed

theorem single_heartbeat_timer_witness:
  "\<exists>millis. bc_timers (start_heartbeat heartbeat_codec 0 (start_heartbeat heartbeat_codec 5 (Channel_new ''u'' ''n'' None)))
     = [(1, millis)]"
proof -
  let ?c = "start_heartbeat heartbeat_codec 0 (start_heartbeat heartbeat_codec 5 (Channel_new ''u'' ''n'' None))"
  have "channel_reachable heartbeat_codec (\<lambda>_ _. True) ?c"
    by (rule channel_reachable_intros(2) [OF channel_reachable_intros(2) [OF channel_reachable_intros(1)
          channel_step.heartbeat_start] channel_step.heartbeat_start])
  moreover have "bc_heartbeat ?c = Some 1"
    by (simp add: start_heartbeat_def stop_heartbeat_def Let_def drop_interval_def Channel_new_def)
  ultimately show ?thesis
    using single_heartbeat_timer [of heartbeat_codec "\<lambda>_ _. True" ?c] by simp
qed

text \<open>
  A channel that was given a server hint never has a socket in a browser that follows
  the websocket standard: both ids are passed as one sub-protocol with a comma, which the
  constructor refuses.
\<close>

theorem hinted_channel_never_connects:
  assumes "rejects_separators ws_new" "channel_reachable C ws_new c" "bc_server_id c \<noteq> None"
  shows "bc_socket c = None"
proof -
  let ?P = "\<lambda>c. bc_server_id c \<noteq> None \<longrightarrow> bc_socket c = None"
  obtain endpoint node_id server_id where "(channel_step C ws_new)\<^sup>*\<^sup>* (Channel_new endpoint node_id server_id) c"
    using assms(2) unfolding channel_reachable_def by blast
  then have "?P c"
  proof (rule timers.reachable_inv_under)
    show "timers_tracked (Channel_new endpoint node_id server_id)" "?P (Channel_new endpoint node_id server_id)"
      by (simp_all add: timers_tracked_def Channel_new_def)
    fix u v assume "channel_step C ws_new u v" "?P u"
    then show "?P v"
      using hinted_socket_step [OF assms(1)] server_id_step by metis
  qed
  with assms(3) show ?thesis
    by simp
qed

theorem hinted_channel_never_connects_witness:
  "let ws_new = (\<lambda>url p. CHR '','' \<notin> set p) in
   rejects_separators ws_new \<and>
   bc_socket (channel_connect ws_new (Channel_new ''u'' ''n'' (Some ''s''))) = None \<and>
   bc_socket (channel_connect ws_new (Channel_new ''u'' ''n'' None)) \<noteq> None"
proof -
  let ?new = "\<lambda>(url :: string) p. CHR '','' \<notin> set p"
  have r: "rejects_separators ?new"
    by (simp add: rejects_separators_def)
  have "channel_reachable heartbeat_codec ?new (channel_connect ?new (Channel_new ''u'' ''n'' (Some ''s'')))"
    by (rule channel_reachable_intros(2) [OF channel_reachable_intros(1) channel_step.connect])
  moreover have "bc_server_id (channel_connect ?new (Channel_new ''u'' ''n'' (Some ''s''))) \<noteq> None"
    by (simp add: channel_connect_def Channel_new_def)
  ultimately show ?thesis
    using r hinted_channel_never_connects [OF r]
    by (simp add: channel_connect_def sub_protocols_def Channel_new_def)
qed

lemma channel_decodes:
  assumes "codec_inverse C" "Frame_encode C (Frame_from_web d) = Ok bs" "length bs < 2 ^ 32"
  shows "channel_receive C (BufferData bs) = Ok (Some (Frame_from_web d))"
proof -
  obtain raw kind code where
    parts: "encode_parts C (Frame_from_web d) = Some (raw, kind, code)" and
    len: "length (bs @ []) = 8 + length raw + length ([] :: bytes)" and
    hdr: "(bs @ []) ! 0 = FRAME_VERSION" "(bs @ []) ! 1 = FrameEncoding_as_u8 (fr_encoding (Frame_from_web d))"
      "(bs @ []) ! 2 = kind"
      "u32_from_be ((bs @ []) ! 4) ((bs @ []) ! 5) ((bs @ []) ! 6) ((bs @ []) ! 7) = word_of_nat (length raw)" and
    payload: "drop 8 (bs @ []) = raw @ []"
    using encoded_header [OF assms(2), of "[]"] .
  have n: "unat (word_of_nat (length raw) :: u32) = length raw"
    using assms(3) len by (intro unat_u32_len) simp
  have kind: "kind = 0"
    using parts by (auto simp: encode_parts_def Frame_from_web_def)
  then have dec: "decode_payload Wasm32 C (fr_encoding (Frame_from_web d)) 0 raw = Ok (Web d)"
    using encode_parts_decode [OF assms(1) parts] by (simp add: decode_payload_def Frame_from_web_def)
  have "Frame_decode Wasm32 C bs = Ok (Frame_from_web d)"
    using hdr payload len n kind dec assms(3)
    by (simp add: Frame_decode_def Let_def HEADER_SIZE_def Frame_from_web_def FrameEncoding_try_from_def FRAME_VERSION_def)
  then show ?thesis
    by (simp add: channel_receive_def)
qed

text \<open>
  Every frame a server can send in one message reaches the page unchanged: what
  \<open>Frame::encode\<close> produces for a client, the browser build decodes to the same frame.
\<close>

theorem channel_receives_frame:
  assumes "codec_inverse C" "Frame_encode C (Frame_from_web d) = Ok bs" "length bs < 2 ^ 32"
  shows "channel_receive C (BufferData bs) = Ok (Some (Frame_from_web d))"
  using assms by (rule channel_decodes)

theorem channel_receives_frame_witness:
  "channel_receive heartbeat_codec (BufferData [1, 1, 0, 1, 0, 0, 0, 2, 145, 160]) = Ok (Some (Frame_from_web WHeartbeat))"
  by (rule channel_receives_frame [OF codec_inverse_heartbeat encode_heartbeat]) simp

end
