(* ===== verification/Spec2Isabelle.thy ===== *)
theory Spec2Isabelle
  imports Presence Isolation Programs Channel
begin

text \<open>
  A verification of phirepass: browser access to the SSH and SFTP services of machines behind NAT. An
  \<^emph>\<open>agent\<close> on the machine keeps a websocket to a \<^emph>\<open>server\<close>; a page runs the \<^emph>\<open>channel\<close>, compiled to
  WebAssembly, and keeps a websocket to the same server, directly or through a \<^emph>\<open>relay\<close> that finds
  in Redis the server a node is connected to. The server authenticates both sides and forwards
  frames between them; a tunnel is a pair of a node and a session number that belongs to one client.

  \<^bold>\<open>Conventions.\<close> A struct is a record whose fields carry a short prefix, an enum a datatype, a method
  \<open>T::f\<close> a function \<open>f\<close> or \<open>T_f\<close>. A Rust call returns an \<open>outcome\<close>: \<open>Ok\<close>, \<open>Err\<close> or \<open>Panic\<close>; the release profile
  aborts on a panic, so \<open>Panic\<close> is the end of the process. Integers whose width matters are words;
  times are nanoseconds or milliseconds as integers. A \<open>DashMap\<close> is an association list with
  distinct keys in its iteration order; an mpsc channel is a bounded queue with a flag for a dropped
  receiver. Tokens, keys, hashes, codecs and JSON are fields of the parameter records \<open>server_ext\<close>,
  \<open>codec\<close>, \<open>creds_ext\<close>, \<open>ssh_ext\<close>, \<open>sftp\<close>, \<open>relay_redis\<close>, \<open>net\<close>, \<open>tokio\<close> and \<open>host_os\<close>: what the code relies on is a
  named hypothesis (such as \<open>codec_inverse\<close>), and every property with one has a witness on a
  concrete instance.

  \<^bold>\<open>The theories and the code they model.\<close>
  \<^item> \<open>Prelude\<close>: outcomes, registries, channels and the string functions of the standard library, with
    the interfaces \<open>concurrent_map\<close>, \<open>fifo_sink\<close> and \<open>reliable_sink\<close> and their interpretations.
  \<^item> \<open>Transition\<close>: the interfaces \<open>invariant_system\<close> and \<open>simulation\<close>, interpreted by the server
    (\<open>registry\<close>, \<open>server\<close>, \<open>presence\<close>), the agent (\<open>agent_system\<close>, \<open>life\<close>, \<open>contract\<close>), the channel (\<open>timers\<close>) and
    the processes (\<open>agent_result\<close>, \<open>server_result\<close>, \<open>server_run\<close>);
    labelled runs and the interface \<open>history_system\<close>, whose invariants speak of what has happened,
    interpreted by the server (\<open>origin\<close>, \<open>mailboxes\<close>) and by server and agent together (\<open>wire\<close>,
    \<open>upward\<close>, \<open>shown\<close>).
  \<^item> \<open>Protocol\<close> (\<open>common/src/protocol\<close>): frames, codes, the binary format at both pointer widths.
  \<^item> \<open>Token\<close> (\<open>common/src/token.rs\<close>, \<open>ip.rs\<close>, \<open>env.rs\<close>, header parsing): access tokens, client addresses, modes.
  \<^item> \<open>Host_Stats\<close> (\<open>common/src/stats.rs\<close>): the statistics with their caches; interface \<open>ttl_cache\<close>.
  \<^item> \<open>Config\<close> (\<open>env.rs\<close> of server, agent and relay, \<open>common/src/runtime.rs\<close>): configuration and runtime.
  \<^item> \<open>Postgres\<close> (\<open>server/src/db/postgres.rs\<close>): the queries on tables, with outages.
  \<^item> \<open>Server_State\<close> (\<open>server/src/http.rs\<close>, \<open>connection.rs\<close>, \<open>db/redis.rs\<close>): \<open>AppState\<close>, the
    lookups of sessions, the listings, the Redis commands. \<open>Examples\<close> holds the concrete server of the witnesses.
  \<^item> \<open>Node_Auth\<close> (\<open>server/src/node_auth.rs\<close>): challenge, verification, node tokens, the heartbeat endpoint.
  \<^item> \<open>Server_Node\<close> (\<open>server/src/node.rs\<close>), \<open>Server_Web\<close> (\<open>server/src/web.rs\<close>): the life of a socket on
    either side, every message handler, the clean-up, and the claim endpoint.
  \<^item> \<open>Server_Tasks\<close> (\<open>server/src/tasks.rs\<close>): refresh of the connections, sweep of silent ones, keep-alive.
  \<^item> \<open>Server_System\<close>: all server tasks interleaved, as the relation \<open>server_act\<close>, labelled with what
    happens on the sockets, and \<open>server_step\<close>, the same without labels.
  \<^item> \<open>Server_Trace\<close>: runs of the server with their labels, and where the frames for the nodes come from;
    \<open>Server_Delivery\<close>: where the frames for the pages come from.
  \<^item> \<open>Broker\<close>: what the server promises, as an abstract transition system, and the refinement.
  \<^item> \<open>Server_Start\<close> (\<open>server/src/server.rs\<close>, \<open>stun.rs\<close>): start-up, the router, the task loops.
  \<^item> \<open>Agent_State\<close>, \<open>Agent_Sftp\<close>, \<open>Agent_Ssh\<close>, \<open>Agent_Tunnel\<close>, \<open>Agent_Ws\<close> (\<open>agent/src/ws.rs\<close>, \<open>session.rs\<close>,
    \<open>common.rs\<close>, \<open>ssh\<close>, \<open>sftp\<close>): the connection to the server, the message handler, the session table,
    the tunnels and file transfers; \<open>agent_step\<close> interleaves the tasks; interface \<open>client_table\<close>.
  \<^item> \<open>Agent_Life\<close> (\<open>connect\<close> in \<open>agent/src/ws.rs\<close>): the life of one connection, whose tasks are detached, as
    the relation \<open>life_act\<close>, which also records the tunnels started so far; \<open>Agent_Frames\<close>: conditions on the
    frames an agent sends, as the interface \<open>frame_policy\<close> (interpreted as \<open>typed\<close> and \<open>speaks\<close>); \<open>Agent_Host\<close>: what the
    agent promises, as an abstract transition system, and the refinement.
  \<^item> \<open>Agent_Creds\<close>, \<open>Agent_Run\<close> (\<open>agent/src/creds.rs\<close>, \<open>agent.rs\<close>, \<open>main.rs\<close>, \<open>http.rs\<close>): identity file, login,
    logout, token exchange, the reconnect loop and the statistics logger.
  \<^item> \<open>Programs\<close> (\<open>main.rs\<close> and \<open>cli.rs\<close> of the three programs, \<open>start\<close> in \<open>agent/src/agent.rs\<close>, \<open>server/src/server.rs\<close>
    and \<open>relay/src/proxy.rs\<close>): the commands, and a running agent or server as a process whose tasks are
    supervised by a \<open>select!\<close>; interface \<open>supervised\<close>, interpreted by both (\<open>agent_process\<close>, \<open>server_process\<close>).
  \<^item> \<open>Relay\<close> (\<open>relay/src/proxy.rs\<close>, \<open>relay/src/db/redis.rs\<close>): routing of a client; \<open>Presence\<close> joins
    it with what the servers write to Redis.
  \<^item> \<open>Channel\<close> (\<open>channel/src/lib.rs\<close>): the object the page uses, as the step relation \<open>channel_step\<close>.
  \<^item> \<open>Network\<close>: a server with any clients and nodes, and the agent at the end of one of its sockets, as
    the relation \<open>net_act\<close>, in which messages are delivered in order or lost; \<open>Isolation\<close>: the output of
    a session in such a network.
  \<^item> This theory: the properties that cross the wire between page, server and agent.

  \<^bold>\<open>What is shown.\<close>
  \<^item> Invariants by rule induction: the registries of the server and the tables of the agent stay well
    formed in every interleaving, every registration belongs to a running task, and no tunnel task of
    the agent is lost.
  \<^item> Refinement: every run of the server process is a run of the broker, from the state its start-up builds,
    and every run of an agent connection is a run of the host; the eight session requests implement one
    forwarding contract.
  \<^item> Authentication: tokens, registrations and claims are given only to those entitled to them, and an
    agent with a registered key obtains its token; the challenge is not one-time when requests interleave.
  \<^item> Isolation: a message of one node or client leaves what belongs to others alone, on server and agent.
  \<^item> Provenance: in every run, what reaches a session on the agent was sent by its own client; what
    reaches a page was made by the server or addressed to its client by a node, and if the
    agent said it about a session, the session is a tunnel of this client and of no other; what
    the agent sends has the type the server expects.
  \<^item> Delivery: keystrokes reach the shell, output reaches the page, uploads store and downloads deliver
    the file, frames decode to what was encoded, the relay reaches the server of a connected node.
  \<^item> Release: what a client or node had is closed, and who is told, when it goes.
  \<^item> Bounds, termination and errors: the exact conditions of timeouts, of wrap-around in the decoder
    of the deadlock in the upload handler and of the panics; the floating-point chunk count equals
    integer division; the reconnect loop never gives up.
  \<^item> Processes: agent and server end only when interrupted or when their port cannot be served, and a failed
    command leaves the identity of the agent as it was.
  \<^item> Deviations the code has from its intent are stated as properties too: aborts a client can cause, an
    accepted runtime flavor under which the agent cannot run,
    silent failures of tunnels, sessions that outlive their node, a reader that outlives its
    connection, hints that never resolve.

  \<^bold>\<open>Loops and fuel.\<close> No definition uses fuel. A loop that waits for input is a recursion over the list of
  events it sees, or a step of a transition relation, so that properties hold for every finite prefix
  of a run. Whatever the code does in one step is a total function; the one handler that may never
  return, \<open>upload_file_chunk\<close>, says so in its result.

  \<^bold>\<open>Not modelled.\<close> The text of log lines (\<open>log_line\<close>, \<open>logger.rs\<close>), the parser that clap derives, module lists
  and error conversions have no state. The host key handlers of the two SSH clients accept every
  key. The set-up of pingora, the HTTP listener and the TLS stack are third-party. Expiry of Redis keys is
  recorded as a command but time does not pass in the key space. The unit tests are not translated.
  A handler is one step although it awaits in between, except \<open>verify_auth_challenge\<close>, which is also
  given in its three database phases. \<open>claim_node\<close> is modelled on a runtime where \<open>block_in_place\<close> works; what
  happens on the other is a step of \<open>server_process_step\<close>.

  \<^bold>\<open>Next.\<close> The handlers of the socket tasks in the phases between their awaits; the channel joined to the
  network.
\<close>

section \<open>Across the wire\<close>

lemma web_event_frame:
  assumes "codec_inverse (x_codec X)" "Frame_encode (x_codec X) (Frame_from_web f) = Ok bs" "length bs < 2 ^ 32"
  shows "handle_web_event X now cid (WsBinary bs) s = handle_web_frame X now cid f s"
  using Frame_decode_encode [OF assms, of "[]"] by (simp add: handle_web_event_def Frame_from_web_def)

lemma node_event_frame:
  assumes "codec_inverse (x_codec X)" "Frame_encode (x_codec X) (Frame_from_node f) = Ok bs" "length bs < 2 ^ 32"
  shows "handle_node_event X now nid (WsBinary bs) s = handle_node_frame X now nid f s"
  using Frame_decode_encode [OF assms, of "[]"] by (simp add: handle_node_event_def Frame_from_node_def)

lemma reader_frame:
  assumes "codec_inverse C" "Frame_encode C (Frame_from_node f) = Ok bs" "length bs < 2 ^ 32"
  shows "reader_step S C env nid now (WsBinary bs) a =
    (case handle_message S env nid now f a of (a1, Ok task) \<Rightarrow> (a1, Continue task) | (a1, _) \<Rightarrow> (a1, Abort))"
  using Frame_decode_encode [OF assms, of "[]"] by (simp add: reader_step_def Frame_from_node_def)

text \<open>
  C5: what a client types reaches the shell it was typed for: the bytes of its
  \<open>TunnelData\<close> message, decoded and checked by the server, queued for the node that has this
  session with this client, encoded, and decoded by the agent, are appended to the input of
  exactly that SSH session.
\<close>

theorem keystroke_reaches_shell:
  assumes codec: "codec_inverse (x_codec X)"
    and web: "Frame_encode (x_codec X) (Frame_from_web (WTunnelData 0 target sid data)) = Ok web_bs"
      "length web_bs < 2 ^ 32"
    and node: "Frame_encode (x_codec X) (Frame_from_node (NTunnelData 0 cid sid data)) = Ok node_bs"
      "length node_bs < 2 ^ 32"
    and srv: "state_wf s" "session_chan X s cid target sid = Some tx" "\<not> ch_closed (st_node_chans s tx)"
    and agent: "agent_wf a" "dm_get (ag_sessions a) (cid, sid) = Some (SshHandle c)" "\<not> ch_closed (ag_ssh_stdin a c)"
  shows "let s' = fst (handle_web_event X now cid (WsBinary web_bs) s);
             (a', r) = reader_step S (x_codec X) env nid now' (WsBinary node_bs) a
    in node_queue s' tx = node_queue s tx @ [NTunnelData 0 cid sid data] \<and>
       r = Continue None \<and>
       ssh_input a' (cid, sid) = map_option (\<lambda>q. q @ [SSHData data]) (ssh_input a (cid, sid)) \<and>
       (\<forall>k. k \<noteq> (cid, sid) \<longrightarrow> client_view a' k = client_view a k)"
proof -
  have keyed: "sessions_keyed s"
    using srv(1) by (simp add: state_wf_def)
  have "fst (handle_web_event X now cid (WsBinary web_bs) s) = fst (send_to_node tx (NTunnelData 0 cid sid data) s)"
    using srv(2) by (simp add: web_event_frame [OF codec web] handle_web_tunnel_data_def forward_session_chan [OF keyed])
  then have q: "node_queue (fst (handle_web_event X now cid (WsBinary web_bs) s)) tx
      = node_queue s tx @ [NTunnelData 0 cid sid data]"
    using srv(3) by (simp add: node_queue_send)
  let ?a' = "fst (forward_ssh cid sid (SSHData data) a)"
  have ok: "snd (forward_ssh cid sid (SSHData data) a) = Ok ()"
    using agent(2,3) by (simp add: forward_ssh_def chan_send_def)
  have view: "client_view ?a' k = client_view a k" if "k \<noteq> (cid, sid)" for k
    using that ssh_input_forward [OF agent(1), of cid sid "SSHData data" k] by (simp add: client_view_def agent_simps)
  have "reader_step S (x_codec X) env nid now' (WsBinary node_bs) a = (?a', Continue None)"
    by (simp add: reader_frame [OF codec node] send_ssh_tunnel_data_def)
  then show ?thesis
    using q ok view ssh_input_forward [OF agent(1), of cid sid "SSHData data" "(cid, sid)"] by simp
qed

text \<open>
  C6: what the shell prints reaches the page of the client it belongs to: the frame the
  agent queues, encoded, routed by the server to the client recorded for this node and session,
  encoded again and decoded in the browser, is the \<open>TunnelData\<close> frame with the same bytes.
\<close>

theorem shell_output_reaches_page:
  assumes codec: "codec_inverse (x_codec X)"
    and node: "Frame_encode (x_codec X) (Frame_from_node (NWebFrame (WTunnelData 0 name sid data) (SessionId sid)))
        = Ok node_bs" "length node_bs < 2 ^ 32"
    and web: "Frame_encode (x_codec X) (Frame_from_web (WTunnelData 0 name sid data)) = Ok web_bs"
      "length web_bs < 2 ^ 32"
    and agent: "\<not> ch_closed (ag_tx a)" "length (ch_queue (ag_tx a)) < ch_cap (ag_tx a)"
    and srv: "state_wf s" "dm_get (st_tunnel_sessions s) (TunnelSessionKey_new nid sid) = Some (cid, nid)"
      "client_chan s cid = Some tx"
  shows "ch_queue (ag_tx (fst (ssh_step E name sid (SshMsg (Some (CMData data))) a)))
      = ch_queue (ag_tx a) @ [Frame_from_node (NWebFrame (WTunnelData 0 name sid data) (SessionId sid))] \<and>
    web_queue (fst (handle_node_event X now nid (WsBinary node_bs) s)) tx
      = web_queue s tx @ [WTunnelData 0 name sid data] \<and>
    channel_receive (x_codec X) (BufferData web_bs) = Ok (Some (Frame_from_web (WTunnelData 0 name sid data)))"
proof -
  have "get_connection_id_by_sid s sid nid = Ok cid"
    using srv(2) by (simp add: get_connection_id_by_sid_def)
  then have "web_queue (fst (handle_node_event X now nid (WsBinary node_bs) s)) tx
      = web_queue s tx @ [WTunnelData 0 name sid data]"
    using srv(3) by (simp add: node_event_frame [OF codec node] handle_node_frame_def handle_frame_response_def notify_queue)
  then show ?thesis
    using agent channel_decodes [OF codec web]
    by (simp add: send_tunnel_data_def send_frame_data_queue)
qed

text \<open>
  C30: a connected client can stop a node's agent: the server passes the protocol byte of
  an \<open>OpenTunnel\<close> on unchecked to any registered node, and a byte above 1, together with
  the credentials the agent's configuration asks for (their values do not matter), makes the
  agent panic.
\<close>

theorem client_can_abort_agent:
  assumes codec: "codec_inverse (x_codec X)"
    and web: "Frame_encode (x_codec X) (Frame_from_web (WOpenTunnel protocol target (Some u) (Some p) mid)) = Ok web_bs"
      "length web_bs < 2 ^ 32"
    and node: "Frame_encode (x_codec X) (Frame_from_node (NOpenTunnel protocol cid (Some u) (Some p) mid)) = Ok node_bs"
      "length node_bs < 2 ^ 32"
    and srv: "x_parse_uuid X target = Some nid" "dm_get (st_nodes s) nid = Some info"
      "\<not> ch_closed (st_node_chans s (nc_tx info))"
    and "1 < protocol" "\<not> blank u" "\<not> blank p"
  shows "node_queue (fst (handle_web_event X now cid (WsBinary web_bs) s)) (nc_tx info)
      = node_queue s (nc_tx info) @ [NOpenTunnel protocol cid (Some u) (Some p) mid] \<and>
    snd (reader_step S (x_codec X) env nid now' (WsBinary node_bs) a) = Abort"
proof -
  have "credentials_given env (Some u) (Some p)"
    using assms(10,11) by (simp add: credentials_given_def)
  moreover have "protocol \<noteq> 0 \<and> protocol \<noteq> 1"
    using assms(9) by unat_arith
  ultimately have "snd (reader_step S (x_codec X) env nid now' (WsBinary node_bs) a) = Abort"
    by (simp add: reader_frame [OF codec node] handle_open_tunnel_given)
  then show ?thesis
    using srv by (simp add: web_event_frame [OF codec web] handle_web_open_tunnel_def node_queue_send)
qed

text \<open>
  When an SSH tunnel cannot be set up, for instance because the password is wrong, the
  client is not told: the agent's only frame is an error addressed to the session, which the
  server does not know yet and drops.
\<close>

theorem ssh_failure_is_silent:
  assumes "ssh_open_shell E env auth = Err e" "\<not> ch_closed (ag_tx a)" "length (ch_queue (ag_tx a)) < ch_cap (ag_tx a)"
    and "dm_get (st_tunnel_sessions s) (TunnelSessionKey_new nid sid) = None"
  shows "ch_queue (ag_tx (fst (ssh_task E env auth name cid sid mid evs a))) =
      ch_queue (ag_tx a) @ [Frame_from_node (NWebFrame (WError Generic e mid) (SessionId sid))] \<and>
    handle_node_frame X now nid (NWebFrame (WError Generic e mid) (SessionId sid)) s = (s, True)"
  using assms
  by (simp add: ssh_task_def ssh_connect_def send_frame_data_queue handle_node_frame_def handle_frame_response_def
      get_connection_id_by_sid_def)


section \<open>Logging in\<close>

text \<open>The two endpoints of the server as the agent's HTTP client sees them.\<close>

definition server_challenge ::
  "server_ext \<Rightarrow> bytes \<Rightarrow> instant \<Rightarrow> AppState post_challenge" where
  "server_challenge X random now url node_id s =
     (case create_auth_challenge X random now node_id s of
        (s', ChallengeOk challenge) \<Rightarrow> (s', Some challenge)
      | (s', _) \<Rightarrow> (s', None))"

definition server_verify :: "server_ext \<Rightarrow> instant \<Rightarrow> AppState post_verify" where
  "server_verify X now url node_id challenge signature s =
     (case verify_auth_challenge X now \<lparr>vr_node_id = node_id, vr_challenge = challenge, vr_signature = signature\<rparr> s of
        (s', VerifyOk v) \<Rightarrow> (s', Some (vs_access_token v))
      | (s', _) \<Rightarrow> (s', None))"

text \<open>
  Agent and server use the same base64 alphabet, whose texts have no surrounding white
  space, and Ed25519 signatures verify under the public key of the signing key.
\<close>

definition crypto_laws :: "server_ext \<Rightarrow> creds_ext \<Rightarrow> bool" where
  "crypto_laws X CX \<longleftrightarrow>
     x_b64_encode X = cx_b64_encode CX \<and> x_b64_decode X = cx_b64_decode CX \<and> x_str_bytes X = cx_str_bytes CX \<and>
     (\<forall>bs. bs \<noteq> [] \<longrightarrow> trim (cx_b64_encode CX bs) = cx_b64_encode CX bs) \<and>
     (\<forall>k m. length k = 32 \<longrightarrow> cx_sign CX k m \<noteq> [] \<and>
        x_ed25519_key_valid X (cx_public_key CX k) \<and> x_ed25519_sig_valid X (cx_sign CX k m) \<and>
        x_ed25519_verify X (cx_public_key CX k) m (cx_sign CX k m))"

text \<open>
  C13: an agent whose public key is registered and not revoked obtains a session token: its
  challenge request, signature and verify request against the server's handlers end with the
  token the server issues for this node, as long as the challenge is fresh.
\<close>

theorem agent_obtains_token:
  assumes laws: "creds_laws CX" "crypto_laws X CX"
    and srv: "db_wf (st_db s)" "\<And>q. \<not> db_down (st_db s) q"
      "node_by_id (st_db s) (sst_node_id st) = Some row" "\<not> row_revoked row"
    and key: "sst_private_key st = cx_b64_encode CX k" "length k = 32"
      "row_public_key row = cx_b64_encode CX (cx_public_key CX k)"
    and fresh: "random \<noteq> []" "now' < now + env_challenge_ttl_secs (st_env s) * nanos_per_sec"
    and jwt: "issue_node_jwt X (st_env s) now' (sst_node_id st) = Some (tok, e)"
  shows "snd (fetch_session_jwt CX (server_challenge X random now) (server_verify X now') env st s) = Ok tok"
proof -
  let ?c = "generate_challenge X random"
  let ?sig = "cx_b64_encode CX (cx_sign CX k (cx_str_bytes CX ?c))"
  have enc: "x_b64_encode X = cx_b64_encode CX" "x_b64_decode X = cx_b64_decode CX" "x_str_bytes X = cx_str_bytes CX"
    and trim: "\<And>bs. bs \<noteq> [] \<Longrightarrow> trim (cx_b64_encode CX bs) = cx_b64_encode CX bs"
    and sgn: "\<And>m. cx_sign CX k m \<noteq> []" "x_ed25519_key_valid X (cx_public_key CX k)"
      "\<And>m. x_ed25519_sig_valid X (cx_sign CX k m)" "\<And>m. x_ed25519_verify X (cx_public_key CX k) m (cx_sign CX k m)"
    using laws(2) key(2) by (auto simp: crypto_laws_def)
  have b64: "cx_b64_decode CX (cx_b64_encode CX bs) = Some bs" "length (cx_public_key CX k) = 32" for bs
    using laws(1) key(2) by (auto simp: creds_laws_def)
  have "verify_signature X (row_public_key row) ?c (trim ?sig) = Ok ()"
    by (simp add: verify_signature_def enc b64 key(3) trim sgn)
  then have verified: "snd (verify_auth_challenge X now'
      \<lparr>vr_node_id = sst_node_id st, vr_challenge = ?c, vr_signature = ?sig\<rparr>
      (fst (create_auth_challenge X random now (sst_node_id st) s)))
    = VerifyOk \<lparr>vs_access_token = tok, vs_expires_at = e\<rparr>"
    by (intro challenge_then_verify [OF srv _ fresh(2) _ jwt])
      (simp_all add: generate_challenge_def enc trim fresh(1))
  have "snd (create_auth_challenge X random now (sst_node_id st) s) = ChallengeOk ?c"
    using srv by (auto simp: create_auth_challenge_def get_node_claim_by_id_optional_def fetch_optional_def
        upsert_auth_challenge_def Let_def)
  then have ch: "server_challenge X random now url (sst_node_id st) s =
      (fst (create_auth_challenge X random now (sst_node_id st) s), Some ?c)" for url
    by (simp add: server_challenge_def case_prod_unfold)
  show ?thesis
    using verified by (simp add: fetch_session_jwt_def Let_def ch key b64 server_verify_def case_prod_unfold)
qed

section \<open>The properties at concrete inputs\<close>

text \<open>An agent whose first tunnel is session 9 of client 5.\<close>

definition agent_nine :: "(mem_fs, string) agent" where
  "agent_nine = fst (start_ssh_tunnel 1 5 (Username ''u'') None (WebSocketConnection_new 9 1 ((\<lambda>_. None), (\<lambda>_. 0))))"

lemma agent_nine_facts:
  "agent_wf agent_nine" "dm_get (ag_sessions agent_nine) (5, 9) = Some (SshHandle 0)"
  "\<not> ch_closed (ag_ssh_stdin agent_nine 0)" "ssh_input agent_nine (5, 9) = Some []"
  "\<not> ch_closed (ag_tx agent_nine)" "ch_queue (ag_tx agent_nine) = []" "ch_cap (ag_tx agent_nine) = 1024"
  by (simp_all add: agent_nine_def start_tunnel_agent_wf agent_wf_new)
    (simp_all add: start_ssh_tunnel_def generate_session_id_def WebSocketConnection_new_def Let_def ssh_input_def
      agent_simps dm_simps chan_simps)

lemma example_state_facts:
  "session_chan example_ext example_state 5 ''n1'' 9 = Some 0" "node_queue example_state 0 = []"
  "\<not> ch_closed (st_node_chans example_state 0)" "client_chan example_state 5 = Some 1" "web_queue example_state 1 = []"
  "dm_get (st_tunnel_sessions example_state) (TunnelSessionKey_new 1 9) = Some (5, 1)"
  "dm_get (st_tunnel_sessions example_state) (TunnelSessionKey_new 1 10) = None"
  "dm_get (st_nodes example_state) 1 = Some (NodeConnection_new 0 42 (V4 1) 0 example_record)"
  by (simp_all add: session_chan_def client_chan_def example_defs chan_new_def)

theorem keystroke_reaches_shell_witness:
  "node_queue (fst (handle_web_event example_ext 10 5 (WsBinary (web_msg 22 2)) example_state)) 0 = [NTunnelData 0 5 9 [65]] \<and>
   ssh_input (fst (reader_step mem_sftp example_codec example_agent_env 1 10 (WsBinary (node_msg 22 6)) agent_nine)) (5, 9)
     = Some [SSHData [65]]"
  using keystroke_reaches_shell [of example_ext "''n1''" 9 "[65]" "web_msg 22 2" 5 "node_msg 22 6" example_state 0
      agent_nine 0 10 mem_sftp example_agent_env 1 10]
    example_codec_inverse example_wire example_lengths example_state_wf example_state_facts agent_nine_facts
  by (simp add: example_ext_codec case_prod_unfold Let_def)

theorem shell_output_reaches_page_witness:
  "web_queue (fst (handle_node_event example_ext 10 1 (WsBinary (node_msg 50 2)) example_state)) 1
     = [WTunnelData 0 ''n1'' 9 [66]] \<and>
   channel_receive example_codec (BufferData (web_msg 22 5)) = Ok (Some (Frame_from_web (WTunnelData 0 ''n1'' 9 [66])))"
  using shell_output_reaches_page [of example_ext "''n1''" 9 "[66]" "node_msg 50 2" "web_msg 22 5" agent_nine
      example_state 1 5 1 example_ssh 10]
    example_codec_inverse example_wire example_lengths example_state_wf example_state_facts agent_nine_facts
  by (simp add: example_ext_codec)

lemma letters_not_blank: "\<not> blank ''u''" "\<not> blank ''p''"
  by (simp_all add: blank_def trim_def trim_matches_def trim_end_matches_def trim_start_def is_whitespace_def)

theorem client_can_abort_agent_witness:
  "node_queue (fst (handle_web_event example_ext 10 6 (WsBinary (web_msg 20 6)) example_state)) 0
     = [NOpenTunnel 200 6 (Some ''u'') (Some ''p'') None] \<and>
   snd (reader_step mem_sftp example_codec example_agent_env 1 10 (WsBinary (node_msg 20 7)) agent_nine) = Abort"
  using client_can_abort_agent [of example_ext 200 "''n1''" "''u''" "''p''" None "web_msg 20 6" 6 "node_msg 20 7" 1
      example_state "NodeConnection_new 0 42 (V4 1) 0 example_record" 10 mem_sftp example_agent_env 10 agent_nine]
    example_codec_inverse example_wire example_lengths example_state_facts letters_not_blank
  by (simp add: example_ext_codec NodeConnection_new_def)

lemma example_wrong_password:
  "ssh_open_shell example_ssh example_agent_env (UsernamePassword ''u'' ''p'') = Err ''SSH authentication failed''"
  "sftp_open_session example_ssh example_agent_env (UsernamePassword ''u'' ''p'') = Err ''SFTP authentication failed''"
  by (simp_all add: ssh_open_shell_def ssh_create_client_def sftp_open_session_def sftp_create_client_def example_ssh_def)

theorem ssh_failure_is_silent_witness:
  "handle_node_frame example_ext 10 1 (NWebFrame (WError Generic ''SSH authentication failed'' None) (SessionId 10))
     example_state = (example_state, True)"
  using ssh_failure_is_silent [OF example_wrong_password(1), of agent_nine example_state 1 10 "''n1''" 5 None "[]"
      example_ext 10] agent_nine_facts example_state_facts by simp


text \<open>A text encoding without white space, and a signature scheme that prefixes the message.\<close>

definition hex_encode :: "bytes \<Rightarrow> string" where
  "hex_encode bs = concat (map (\<lambda>b. [char_of (65 + unat b div 16), char_of (65 + unat b mod 16)]) bs)"

fun hex_decode :: "string \<Rightarrow> bytes option" where
  "hex_decode [] = Some []"
| "hex_decode [_] = None"
| "hex_decode (a # b # t) =
     map_option ((#) (word_of_nat ((of_char a - 65) * 16 + (of_char b - 65)))) (hex_decode t)"

lemma nibbles:
  "of_char (char_of (65 + unat (b :: u8) div 16)) = 65 + unat b div 16"
  "of_char (char_of (65 + unat (b :: u8) mod 16)) = 65 + unat b mod 16"
  using unsigned_less [of b, where ?'a = nat] by simp_all

lemma nibbles_byte:
  "word_of_nat ((of_char (char_of (65 + unat (b :: u8) div 16)) - 65) * 16
     + (of_char (char_of (65 + unat b mod 16)) - 65)) = b"
  unfolding nibbles by (simp only: add_diff_cancel_left' div_mult_mod_eq) simp

lemma hex_encode_Cons:
  "hex_encode (b # bs) = char_of (65 + unat b div 16) # char_of (65 + unat b mod 16) # hex_encode bs"
  by (simp add: hex_encode_def)

lemma hex_roundtrip: "hex_decode (hex_encode bs) = Some bs"
proof (induction bs)
  case (Cons b bs)
  then show ?case
    unfolding hex_encode_Cons hex_decode.simps nibbles_byte by simp
qed (simp add: hex_encode_def)

lemma hex_trim: "trim (hex_encode bs) = hex_encode bs"
proof -
  have "\<not> is_whitespace c" if mem: "c \<in> set (hex_encode bs)" for c
  proof -
    obtain b where "c = char_of (65 + unat (b :: u8) div 16) \<or> c = char_of (65 + unat b mod 16)"
      using mem unfolding hex_encode_def by fastforce
    then have "65 \<le> (of_char c :: nat) \<and> of_char c < (81 :: nat)"
      using nibbles [of b] unsigned_less [of b, where ?'a = nat] by auto
    then show ?thesis
      by (auto simp: is_whitespace_def)
  qed
  then have "dropWhile is_whitespace (hex_encode bs) = hex_encode bs"
    "dropWhile is_whitespace (rev (hex_encode bs)) = rev (hex_encode bs)"
    by (cases "hex_encode bs", simp_all) (cases "hex_encode bs" rule: rev_cases, simp_all)
  then show ?thesis
    by (simp add: trim_def trim_matches_def trim_end_matches_def trim_start_def)
qed

definition hex_ext :: server_ext where
  "hex_ext = example_ext\<lparr>x_b64_encode := hex_encode, x_b64_decode := hex_decode,
     x_ed25519_verify := (\<lambda>pk m sig. sig = 1 # m)\<rparr>"

definition hex_creds :: creds_ext where
  "hex_creds = example_creds\<lparr>cx_b64_encode := hex_encode, cx_b64_decode := hex_decode, cx_sign := (\<lambda>k m. 1 # m)\<rparr>"

definition hex_row :: node_row where
  "hex_row = example_row\<lparr>row_public_key := hex_encode (replicate 32 107)\<rparr>"

definition hex_state :: AppState where
  "hex_state = example_state\<lparr>st_db := example_db\<lparr>t_nodes := [hex_row]\<rparr>\<rparr>"

definition hex_identity :: StoredState where
  "hex_identity = \<lparr>sst_node_id = 1, sst_private_key = hex_encode (replicate 32 107),
     sst_public_key = hex_encode (replicate 32 107), sst_server_host = ''h''\<rparr>"

theorem agent_obtains_token_witness:
  "snd (fetch_session_jwt hex_creds (server_challenge hex_ext [120, 121, 122] 0) (server_verify hex_ext 50)
     example_agent_env hex_identity hex_state) = Ok ''jwt1''"
proof (rule agent_obtains_token)
  show "creds_laws hex_creds"
    using example_creds_laws by (simp add: creds_laws_def hex_creds_def hex_roundtrip)
  show "crypto_laws hex_ext hex_creds"
    by (simp add: crypto_laws_def hex_ext_def hex_creds_def example_ext_def example_creds_def hex_trim)
  show "node_by_id (st_db hex_state) (sst_node_id hex_identity) = Some hex_row"
    by (simp add: hex_state_def hex_identity_def node_by_id_def hex_row_def example_row_def)
  show "\<not> row_revoked hex_row"
    by (simp add: hex_row_def example_row_def)
  show "db_wf (st_db hex_state)"
    by (simp add: hex_state_def db_wf_def example_db_def)
  show "\<not> db_down (st_db hex_state) q" for q
    by (simp add: hex_state_def example_db_def)
  show "row_public_key hex_row = cx_b64_encode hex_creds (cx_public_key hex_creds (replicate 32 107))"
    by (simp add: hex_row_def hex_creds_def example_creds_def)
  show "issue_node_jwt hex_ext (st_env hex_state) 50 (sst_node_id hex_identity)
      = Some (''jwt1'', 50 + 3600 * nanos_per_sec)"
    by (simp add: issue_node_jwt_def hex_ext_def hex_state_def hex_identity_def example_defs)
  show "50 < 0 + env_challenge_ttl_secs (st_env hex_state) * nanos_per_sec"
    by (simp add: hex_state_def example_state_def empty_state_def example_env_def nanos_per_sec_def)
qed (simp_all add: hex_identity_def hex_creds_def)

end
